theory Spec2Isabelle
  imports Complex_Main "HOL-Library.AList" "HOL-Library.Sublist"
begin

section \<open>Time\<close>

text \<open>
  A point in time is an integer number of microseconds since the Unix epoch, in UTC
  (the resolution of Python's \<^verbatim>\<open>datetime\<close>). A \<^verbatim>\<open>datetime\<close> object holds an instant
  between 0001-01-01 00:00:00 and 9999-12-31 23:59:59.999999; an operation whose result
  would leave this range raises.

  The wall clock is the sequence of readings the process observes: \<open>c n\<close> is the value
  returned by the \<open>n\<close>-th call of \<^verbatim>\<open>datetime.now(timezone.utc)\<close>. Every function that
  reads the clock takes the index of the next reading and returns the index after its
  last reading, also when it raises.
\<close>

type_synonym instant = int
type_synonym clock = "nat \<Rightarrow> instant"

datatype error =
    IndexError | QueueFull | QueueEmpty | ValidationError | ValueError | OverflowError

definition datetime_min :: instant where
  "datetime_min = - 62135596800000000"

definition datetime_max :: instant where
  "datetime_max = 253402300799999999"

definition representable :: "instant \<Rightarrow> bool" where
  "representable t = (datetime_min \<le> t \<and> t \<le> datetime_max)"

text \<open>A \<^verbatim>\<open>datetime\<close> value: naive (no tzinfo), or aware, with its UTC offset.\<close>

datatype datetime =
    Naive int
  | Aware int int

text \<open>\<^verbatim>\<open>datetime.now(timezone.utc)\<close>, and \<^verbatim>\<open>_now()\<close> of storage.py.\<close>

definition now :: "clock \<Rightarrow> nat \<Rightarrow> instant \<times> nat" where
  "now c n = (c n, Suc n)"

text \<open>
  \<^verbatim>\<open>_ensure_utc\<close>: a naive value is taken as UTC by \<^verbatim>\<open>replace\<close>, which cannot raise; an
  aware one is converted by \<^verbatim>\<open>astimezone\<close>, which subtracts the offset and raises
  OverflowError when the result leaves the range.
\<close>

fun ensure_utc :: "datetime \<Rightarrow> error + instant" where
  "ensure_utc (Naive wall) = Inr wall"
| "ensure_utc (Aware wall offset) =
     (if representable (wall - offset) then Inr (wall - offset) else Inl OverflowError)"

text \<open>
  \<^verbatim>\<open>datetime.fromtimestamp(unix_time, tz=timezone.utc)\<close>: raises when the second lies
  outside the range. The exception is ValueError next to the range; for larger
  magnitudes CPython raises OSError or OverflowError, which this development does not
  tell apart from ValueError.
\<close>

definition fromtimestamp :: "int \<Rightarrow> error + instant" where
  "fromtimestamp unix_time =
     (if - 62135596800 \<le> unix_time \<and> unix_time \<le> 253402300799
      then Inr (unix_time * 1000000) else Inl ValueError)"

text \<open>
  \<^verbatim>\<open>timedelta(seconds=retention_seconds)\<close>, in microseconds: raises OverflowError when the
  number of whole days exceeds 999999999 in magnitude.
\<close>

definition timedelta_seconds :: "int \<Rightarrow> error + int" where
  "timedelta_seconds s =
     (if - 999999999 \<le> s div 86400 \<and> s div 86400 \<le> 999999999
      then Inr (s * 1000000) else Inl OverflowError)"

text \<open>
  \<^verbatim>\<open>datetime - timedelta\<close>: raises OverflowError when the result leaves the range.
\<close>

definition datetime_sub :: "instant \<Rightarrow> int \<Rightarrow> error + instant" where
  "datetime_sub t d = (if representable (t - d) then Inr (t - d) else Inl OverflowError)"

section \<open>Events (models.py)\<close>

text \<open>
  The fields of \<^verbatim>\<open>PacketEvent\<close> that the store reads are kept one by one; the remaining
  optional scalar fields are carried as a list of named values.
\<close>

record PacketEvent =
  timestamp :: "datetime option"
  unix_time :: "int option"
  source_callsign :: "string option"
  destination_callsign :: "string option"
  path :: "string list option"
  other_fields :: "(string \<times> string) list"

record RssiSample =
  sample_timestamp :: "datetime option"
  dbm :: real
  frequency_mhz :: real
  integration_ms :: "int option"

text \<open>
  \<^verbatim>\<open>PacketEvent.effective_datetime\<close>: the value or the exception of the evaluation, and the
  clock index after it.
\<close>

definition effective_datetime ::
  "clock \<Rightarrow> nat \<Rightarrow> PacketEvent \<Rightarrow> (error + instant) \<times> nat" where
  "effective_datetime c n self =
     (case timestamp self of
        Some t \<Rightarrow> (ensure_utc t, n)
      | None \<Rightarrow>
          (case unix_time self of
             Some u \<Rightarrow> (fromtimestamp u, n)
           | None \<Rightarrow> (let (t, n') = now c n in (Inr t, n'))))"

text \<open>\<^verbatim>\<open>RssiSample.effective_datetime\<close>\<close>

definition effective_datetime_rssi ::
  "clock \<Rightarrow> nat \<Rightarrow> RssiSample \<Rightarrow> (error + instant) \<times> nat" where
  "effective_datetime_rssi c n self =
     (case sample_timestamp self of
        Some t \<Rightarrow> (ensure_utc t, n)
      | None \<Rightarrow> (let (t, n') = now c n in (Inr t, n')))"

datatype event_type = EvPacket | EvRssi | EvHeartbeat

text \<open>
  The payload of a stream message is the \<^verbatim>\<open>model_dump(mode="json")\<close> of the event, kept
  here as the event itself; a heartbeat carries the clock reading.
\<close>

datatype payload =
    PacketDump PacketEvent
  | RssiDump RssiSample
  | HeartbeatDump instant

record StreamMessage =
  event_type :: event_type
  payload :: "payload option"

section \<open>The retention store (storage.py, InMemoryStore)\<close>

text \<open>
  The two deques are lists, oldest item first. The dictionary of last-seen packets is an
  association list in insertion order, as a Python \<^verbatim>\<open>dict\<close> iterates: assigning to a key
  that is present keeps its position, a new key goes to the end.

  The methods mutate the store in place. A method that raises leaves the store as it was
  at the raise, and that store serves the later calls: every method returns the
  exception, if any, together with the store.
\<close>

record InMemoryStore =
  packets :: "PacketEvent list"
  rssi :: "RssiSample list"
  last_seen_by_station :: "(string \<times> PacketEvent) list"
  retention :: int
  max_items :: int

text \<open>
  \<^verbatim>\<open>InMemoryStore.__init__\<close>: no check on either argument; the \<^verbatim>\<open>timedelta\<close> constructor
  can raise.
\<close>

definition InMemoryStore_init :: "int \<Rightarrow> int \<Rightarrow> error + InMemoryStore" where
  "InMemoryStore_init retention_seconds max_items_arg =
     (case timedelta_seconds retention_seconds of
        Inl e \<Rightarrow> Inl e
      | Inr d \<Rightarrow>
          Inr \<lparr> packets = [], rssi = [], last_seen_by_station = [],
                retention = d, max_items = max_items_arg \<rparr>)"

text \<open>
  \<^verbatim>\<open>_is_stale\<close> evaluates the item's \<^verbatim>\<open>effective_datetime\<close> once; the parameter \<open>eff\<close> is
  that property of the items' class.
\<close>

definition is_stale ::
  "(clock \<Rightarrow> nat \<Rightarrow> 'a \<Rightarrow> (error + instant) \<times> nat) \<Rightarrow> clock \<Rightarrow> nat \<Rightarrow> 'a \<Rightarrow> instant
     \<Rightarrow> (error + bool) \<times> nat" where
  "is_stale eff c n item cutoff =
     (let (r, n') = eff c n item
      in (case r of Inl e \<Rightarrow> Inl e | Inr t \<Rightarrow> Inr (t < cutoff), n'))"

text \<open>
  The first loop of \<^verbatim>\<open>_trim\<close>:
  \<^verbatim>\<open>while collection and self._is_stale(collection[0], cutoff): collection.popleft()\<close>.
  When the test raises, the items popped so far are gone and the rest stays.
\<close>

fun drop_stale ::
  "(clock \<Rightarrow> nat \<Rightarrow> 'a \<Rightarrow> (error + instant) \<times> nat) \<Rightarrow> clock \<Rightarrow> instant \<Rightarrow> 'a list \<Rightarrow> nat
     \<Rightarrow> error option \<times> 'a list \<times> nat" where
  "drop_stale eff c cutoff [] n = (None, [], n)"
| "drop_stale eff c cutoff (x # xs) n =
     (let (r, n') = is_stale eff c n x cutoff
      in case r of
           Inl e \<Rightarrow> (Some e, x # xs, n')
         | Inr stale \<Rightarrow> if stale then drop_stale eff c cutoff xs n' else (None, x # xs, n'))"

text \<open>
  The second loop of \<^verbatim>\<open>_trim\<close>:
  \<^verbatim>\<open>while len(collection) > self._max_items: collection.popleft()\<close>.
  \<^verbatim>\<open>popleft\<close> on an empty deque raises IndexError.
\<close>

fun drop_excess :: "int \<Rightarrow> 'a list \<Rightarrow> error option \<times> 'a list" where
  "drop_excess m [] = (if 0 > m then (Some IndexError, []) else (None, []))"
| "drop_excess m (x # xs) =
     (if int (length (x # xs)) > m then drop_excess m xs else (None, x # xs))"

text \<open>
  \<^verbatim>\<open>_prune_last_seen\<close>: the comprehension collects the stale callsigns, evaluating each
  packet's effective datetime in the dictionary's order; the loop pops them. When an
  evaluation raises, nothing has been popped.
\<close>

fun stale_callsigns ::
  "clock \<Rightarrow> instant \<Rightarrow> (string \<times> PacketEvent) list \<Rightarrow> nat \<Rightarrow> (error + string list) \<times> nat" where
  "stale_callsigns c cutoff [] n = (Inr [], n)"
| "stale_callsigns c cutoff ((callsign, packet) # rest) n =
     (let (r, n1) = effective_datetime c n packet
      in case r of
           Inl e \<Rightarrow> (Inl e, n1)
         | Inr t \<Rightarrow>
             (let (rs, n2) = stale_callsigns c cutoff rest n1
              in (case rs of
                    Inl e \<Rightarrow> Inl e
                  | Inr ks \<Rightarrow> Inr (if t < cutoff then callsign # ks else ks), n2)))"

definition prune_last_seen ::
  "clock \<Rightarrow> instant \<Rightarrow> (string \<times> PacketEvent) list \<Rightarrow> nat
     \<Rightarrow> error option \<times> (string \<times> PacketEvent) list \<times> nat" where
  "prune_last_seen c cutoff index n =
     (let (r, n') = stale_callsigns c cutoff index n
      in case r of
           Inl e \<Rightarrow> (Some e, index, n')
         | Inr ks \<Rightarrow> (None, fold AList.delete ks index, n'))"

text \<open>
  \<^verbatim>\<open>_trim\<close>. The collection is passed in and handed back; the store comes back with its
  last-seen dictionary pruned when \<open>prune\<close> is set and nothing raised before.
\<close>

definition trim ::
  "(clock \<Rightarrow> nat \<Rightarrow> 'a \<Rightarrow> (error + instant) \<times> nat) \<Rightarrow> clock \<Rightarrow> InMemoryStore \<Rightarrow> 'a list \<Rightarrow> bool
     \<Rightarrow> nat \<Rightarrow> error option \<times> 'a list \<times> InMemoryStore \<times> nat" where
  "trim eff c self collection prune n =
     (let (t0, n0) = now c n
      in case datetime_sub t0 (retention self) of
           Inl e \<Rightarrow> (Some e, collection, self, n0)
         | Inr cutoff \<Rightarrow>
             (let (e1, coll1, n1) = drop_stale eff c cutoff collection n0
              in case e1 of
                   Some e \<Rightarrow> (Some e, coll1, self, n1)
                 | None \<Rightarrow>
                     (let (e2, coll2) = drop_excess (max_items self) coll1
                      in case e2 of
                           Some e \<Rightarrow> (Some e, coll2, self, n1)
                         | None \<Rightarrow>
                             if prune then
                               (let (e3, index, n2) =
                                      prune_last_seen c cutoff (last_seen_by_station self) n1
                                in (e3, coll2, self\<lparr>last_seen_by_station := index\<rparr>, n2))
                             else (None, coll2, self, n1))))"

text \<open>Python truthiness of \<^verbatim>\<open>packet.source_callsign\<close>: present and not empty.\<close>

definition truthy :: "string option \<Rightarrow> bool" where
  "truthy s = (case s of None \<Rightarrow> False | Some v \<Rightarrow> v \<noteq> [])"

definition add_packet ::
  "clock \<Rightarrow> InMemoryStore \<Rightarrow> PacketEvent \<Rightarrow> nat \<Rightarrow> error option \<times> InMemoryStore \<times> nat" where
  "add_packet c self packet n =
     (let self1 = self\<lparr>packets := packets self @ [packet]\<rparr>;
          self2 = (if truthy (source_callsign packet)
                   then self1\<lparr>last_seen_by_station :=
                          AList.update (the (source_callsign packet)) packet
                            (last_seen_by_station self1)\<rparr>
                   else self1);
          (e, coll, self3, n') = trim effective_datetime c self2 (packets self2) True n
      in (e, self3\<lparr>packets := coll\<rparr>, n'))"

definition add_rssi ::
  "clock \<Rightarrow> InMemoryStore \<Rightarrow> RssiSample \<Rightarrow> nat \<Rightarrow> error option \<times> InMemoryStore \<times> nat" where
  "add_rssi c self sample n =
     (let self1 = self\<lparr>rssi := rssi self @ [sample]\<rparr>;
          (e, coll, self2, n') = trim effective_datetime_rssi c self1 (rssi self1) False n
      in (e, self2\<lparr>rssi := coll\<rparr>, n'))"

definition get_recent_packets :: "InMemoryStore \<Rightarrow> PacketEvent list" where
  "get_recent_packets self = packets self"

definition get_recent_rssi :: "InMemoryStore \<Rightarrow> RssiSample list" where
  "get_recent_rssi self = rssi self"

definition get_last_seen :: "InMemoryStore \<Rightarrow> (string \<times> PacketEvent) list" where
  "get_last_seen self = last_seen_by_station self"

text \<open>
  \<^verbatim>\<open>snapshot_stream_events\<close>: the entries pair each item's effective datetime, evaluated
  once when the entry is built, with its message; \<^verbatim>\<open>entries.sort(key=...)\<close> is a stable
  sort on the first component. An evaluation that raises ends the call.
\<close>

fun packet_entries ::
  "clock \<Rightarrow> PacketEvent list \<Rightarrow> nat \<Rightarrow> (error + (instant \<times> StreamMessage) list) \<times> nat" where
  "packet_entries c [] n = (Inr [], n)"
| "packet_entries c (packet # rest) n =
     (let (r, n1) = effective_datetime c n packet
      in case r of
           Inl e \<Rightarrow> (Inl e, n1)
         | Inr t \<Rightarrow>
             (let (rs, n2) = packet_entries c rest n1
              in (case rs of
                    Inl e \<Rightarrow> Inl e
                  | Inr es \<Rightarrow>
                      Inr ((t, \<lparr>event_type = EvPacket, payload = Some (PacketDump packet)\<rparr>) # es),
                  n2)))"

fun rssi_entries ::
  "clock \<Rightarrow> RssiSample list \<Rightarrow> nat \<Rightarrow> (error + (instant \<times> StreamMessage) list) \<times> nat" where
  "rssi_entries c [] n = (Inr [], n)"
| "rssi_entries c (sample # rest) n =
     (let (r, n1) = effective_datetime_rssi c n sample
      in case r of
           Inl e \<Rightarrow> (Inl e, n1)
         | Inr t \<Rightarrow>
             (let (rs, n2) = rssi_entries c rest n1
              in (case rs of
                    Inl e \<Rightarrow> Inl e
                  | Inr es \<Rightarrow>
                      Inr ((t, \<lparr>event_type = EvRssi, payload = Some (RssiDump sample)\<rparr>) # es),
                  n2)))"

definition snapshot_entries ::
  "clock \<Rightarrow> InMemoryStore \<Rightarrow> nat \<Rightarrow> (error + (instant \<times> StreamMessage) list) \<times> nat" where
  "snapshot_entries c self n =
     (let (ps, n1) = packet_entries c (packets self) n
      in case ps of
           Inl e \<Rightarrow> (Inl e, n1)
         | Inr pes \<Rightarrow>
             (let (rs, n2) = rssi_entries c (rssi self) n1
              in (case rs of
                    Inl e \<Rightarrow> Inl e
                  | Inr res \<Rightarrow> Inr (sort_key fst (pes @ res)),
                  n2)))"

definition snapshot_stream_events ::
  "clock \<Rightarrow> InMemoryStore \<Rightarrow> nat \<Rightarrow> (error + StreamMessage list) \<times> nat" where
  "snapshot_stream_events c self n =
     (let (r, n') = snapshot_entries c self n
      in (case r of Inl e \<Rightarrow> Inl e | Inr entries \<Rightarrow> Inr (map snd entries), n'))"

text \<open>\<^verbatim>\<open>stats\<close>: the three sizes.\<close>

definition stats :: "InMemoryStore \<Rightarrow> nat \<times> nat \<times> nat" where
  "stats self = (length (packets self), length (rssi self), length (last_seen_by_station self))"

text \<open>
  \<^verbatim>\<open>recent_stations\<close>: the comprehension keeps the entries whose packet's effective
  datetime is not before \<open>since\<close>.
\<close>

fun stations_since ::
  "clock \<Rightarrow> instant \<Rightarrow> (string \<times> PacketEvent) list \<Rightarrow> nat
     \<Rightarrow> (error + (string \<times> PacketEvent) list) \<times> nat" where
  "stations_since c since [] n = (Inr [], n)"
| "stations_since c since ((callsign, packet) # rest) n =
     (let (r, n1) = effective_datetime c n packet
      in case r of
           Inl e \<Rightarrow> (Inl e, n1)
         | Inr t \<Rightarrow>
             (let (rs, n2) = stations_since c since rest n1
              in (case rs of
                    Inl e \<Rightarrow> Inl e
                  | Inr kept \<Rightarrow> Inr (if t \<ge> since then (callsign, packet) # kept else kept),
                  n2)))"

definition recent_stations ::
  "clock \<Rightarrow> InMemoryStore \<Rightarrow> instant \<Rightarrow> nat \<Rightarrow> (error + (string \<times> PacketEvent) list) \<times> nat" where
  "recent_stations c self since n = stations_since c since (last_seen_by_station self) n"

section \<open>The broadcast hub (storage.py, BroadcastHub)\<close>

text \<open>
  An \<^verbatim>\<open>asyncio.Queue\<close>: its pending items, oldest first, and its \<^verbatim>\<open>maxsize\<close>
  (not positive means unbounded).
\<close>

record asyncio_queue =
  items :: "StreamMessage list"
  maxsize :: int

definition full :: "asyncio_queue \<Rightarrow> bool" where
  "full q = (if maxsize q \<le> 0 then False else int (length (items q)) \<ge> maxsize q)"

definition put_nowait :: "asyncio_queue \<Rightarrow> StreamMessage \<Rightarrow> error + asyncio_queue" where
  "put_nowait q item = (if full q then Inl QueueFull else Inr (q\<lparr>items := items q @ [item]\<rparr>))"

definition get_nowait :: "asyncio_queue \<Rightarrow> error + (StreamMessage \<times> asyncio_queue)" where
  "get_nowait q =
     (case items q of
        [] \<Rightarrow> Inl QueueEmpty
      | x # xs \<Rightarrow> Inr (x, q\<lparr>items := xs\<rparr>))"

text \<open>
  Queue objects are shared between the hub, which writes to them, and the session that
  reads from one: they live in a store of objects addressed by reference, and the hub's
  set of listeners holds references. \<open>next_ref\<close> is the next unused reference.
\<close>

record BroadcastHub =
  listeners :: "nat list"
  queue_heap :: "nat \<Rightarrow> asyncio_queue"
  next_ref :: nat

definition BroadcastHub_init :: BroadcastHub where
  "BroadcastHub_init =
     \<lparr> listeners = [], queue_heap = (\<lambda>_. \<lparr>items = [], maxsize = 0\<rparr>), next_ref = 0 \<rparr>"

definition subscribe :: "BroadcastHub \<Rightarrow> nat \<times> BroadcastHub" where
  "subscribe self =
     (let queue = next_ref self
      in (queue,
          self\<lparr> listeners := List.insert queue (listeners self),
                queue_heap := (queue_heap self)(queue := \<lparr>items = [], maxsize = 512\<rparr>),
                next_ref := Suc queue \<rparr>))"

definition unsubscribe :: "BroadcastHub \<Rightarrow> nat \<Rightarrow> BroadcastHub" where
  "unsubscribe self queue = self\<lparr>listeners := removeAll queue (listeners self)\<rparr>"

text \<open>
  The body of the loop of \<^verbatim>\<open>publish\<close> for one queue. Only QueueFull and QueueEmpty are
  caught; any other error would propagate.
\<close>

definition deliver :: "asyncio_queue \<Rightarrow> StreamMessage \<Rightarrow> error + asyncio_queue" where
  "deliver queue message =
     (case put_nowait queue message of
        Inr q \<Rightarrow> Inr q
      | Inl e \<Rightarrow>
          if e \<noteq> QueueFull then Inl e
          else
            (case (case get_nowait queue of
                     Inr (_, q1) \<Rightarrow> Inr q1
                   | Inl e1 \<Rightarrow> if e1 = QueueEmpty then Inr queue else Inl e1) of
               Inl e1 \<Rightarrow> Inl e1
             | Inr q1 \<Rightarrow>
                 (case put_nowait q1 message of
                    Inr q2 \<Rightarrow> Inr q2
                  | Inl e2 \<Rightarrow> if e2 = QueueFull then Inr q1 else Inl e2)))"

fun publish_loop ::
  "(nat \<Rightarrow> asyncio_queue) \<Rightarrow> nat list \<Rightarrow> StreamMessage \<Rightarrow> error + (nat \<Rightarrow> asyncio_queue)" where
  "publish_loop heap [] message = Inr heap"
| "publish_loop heap (queue # rest) message =
     (case deliver (heap queue) message of
        Inl e \<Rightarrow> Inl e
      | Inr q \<Rightarrow> publish_loop (heap(queue := q)) rest message)"

definition publish :: "BroadcastHub \<Rightarrow> StreamMessage \<Rightarrow> error + BroadcastHub" where
  "publish self message =
     (let snapshot = listeners self
      in case publish_loop (queue_heap self) snapshot message of
           Inl e \<Rightarrow> Inl e
         | Inr heap \<Rightarrow> Inr (self\<lparr>queue_heap := heap\<rparr>))"

section \<open>Configuration and application state (config.py, main.py)\<close>

record AppSettings =
  history_retention_seconds :: int
  max_history_items :: int
  sse_heartbeat_interval :: real
  stats_include_history :: bool

text \<open>
  The field constraints of \<^verbatim>\<open>AppSettings\<close>: \<^verbatim>\<open>ge=60\<close>, \<^verbatim>\<open>ge=1\<close>, \<^verbatim>\<open>gt=0\<close>. A violated
  constraint raises a validation error when the settings object is built.
\<close>

definition AppSettings_init :: "int \<Rightarrow> int \<Rightarrow> real \<Rightarrow> bool \<Rightarrow> error + AppSettings" where
  "AppSettings_init retention_arg items_arg heartbeat_arg include_arg =
     (if retention_arg \<ge> 60 \<and> items_arg \<ge> 1 \<and> heartbeat_arg > 0
      then Inr \<lparr> history_retention_seconds = retention_arg,
                 max_history_items = items_arg,
                 sse_heartbeat_interval = heartbeat_arg,
                 stats_include_history = include_arg \<rparr>
      else Inl ValidationError)"

text \<open>
  The state of the application: the shared store and hub of \<^verbatim>\<open>app.state\<close>, and the index
  of the next clock reading.
\<close>

record app_state =
  store :: InMemoryStore
  broadcast :: BroadcastHub
  ticks :: nat

text \<open>\<^verbatim>\<open>create_app\<close>: the settings are built first, the store from the settings.\<close>

definition create_app :: "int \<Rightarrow> int \<Rightarrow> real \<Rightarrow> bool \<Rightarrow> error + app_state" where
  "create_app retention_arg items_arg heartbeat_arg include_arg =
     (case AppSettings_init retention_arg items_arg heartbeat_arg include_arg of
        Inl e \<Rightarrow> Inl e
      | Inr settings \<Rightarrow>
          (case InMemoryStore_init (history_retention_seconds settings)
                  (max_history_items settings) of
             Inl e \<Rightarrow> Inl e
           | Inr st \<Rightarrow> Inr \<lparr> store = st, broadcast = BroadcastHub_init, ticks = 0 \<rparr>))"

section \<open>Ingestion and stream sessions (ingest.py, stream.py)\<close>

text \<open>
  \<^verbatim>\<open>ingest_packets\<close> and \<^verbatim>\<open>ingest_rssi\<close>: each item is stored, then published. An exception
  ends the request; the items handled before it stay stored and published, and the item
  whose insert raised is not published.
\<close>

fun ingest_packets :: "clock \<Rightarrow> app_state \<Rightarrow> PacketEvent list \<Rightarrow> error option \<times> app_state" where
  "ingest_packets c app [] = (None, app)"
| "ingest_packets c app (packet # rest) =
     (let (e, st, n) = add_packet c (store app) packet (ticks app);
          app1 = app\<lparr>store := st, ticks := n\<rparr>
      in case e of
           Some err \<Rightarrow> (Some err, app1)
         | None \<Rightarrow>
             (case publish (broadcast app1)
                     \<lparr>event_type = EvPacket, payload = Some (PacketDump packet)\<rparr> of
                Inl err \<Rightarrow> (Some err, app1)
              | Inr hub \<Rightarrow> ingest_packets c (app1\<lparr>broadcast := hub\<rparr>) rest))"

fun ingest_rssi :: "clock \<Rightarrow> app_state \<Rightarrow> RssiSample list \<Rightarrow> error option \<times> app_state" where
  "ingest_rssi c app [] = (None, app)"
| "ingest_rssi c app (sample # rest) =
     (let (e, st, n) = add_rssi c (store app) sample (ticks app);
          app1 = app\<lparr>store := st, ticks := n\<rparr>
      in case e of
           Some err \<Rightarrow> (Some err, app1)
         | None \<Rightarrow>
             (case publish (broadcast app1)
                     \<lparr>event_type = EvRssi, payload = Some (RssiDump sample)\<rparr> of
                Inl err \<Rightarrow> (Some err, app1)
              | Inr hub \<Rightarrow> ingest_rssi c (app1\<lparr>broadcast := hub\<rparr>) rest))"

text \<open>
  The start of \<^verbatim>\<open>stream_updates\<close>: the two statements
  \<^verbatim>\<open>initial_messages = await store.snapshot_stream_events()\<close> and
  \<^verbatim>\<open>queue = await hub.subscribe()\<close>, in this order. When the first raises, the second is
  not executed. Neither call suspends: each takes a lock that is free, since no
  \<^verbatim>\<open>async with self._lock\<close> body of storage.py contains an \<^verbatim>\<open>await\<close>, and runs to its end.
  No other task runs between the two statements, and the start of a session is one step
  on the application state. The session keeps the replay messages and the reference of
  its queue.
\<close>

record session =
  initial_messages :: "StreamMessage list"
  queue :: nat

definition stream_updates :: "clock \<Rightarrow> app_state \<Rightarrow> (error + session) \<times> app_state" where
  "stream_updates c app =
     (let (r, n) = snapshot_stream_events c (store app) (ticks app);
          app1 = app\<lparr>ticks := n\<rparr>
      in case r of
           Inl e \<Rightarrow> (Inl e, app1)
         | Inr msgs \<Rightarrow>
             (let (q, hub) = subscribe (broadcast app1)
              in (Inr \<lparr>initial_messages = msgs, queue = q\<rparr>, app1\<lparr>broadcast := hub\<rparr>)))"

text \<open>
  What \<^verbatim>\<open>event_publisher\<close> has to emit for a session: its replay messages, then the
  messages pending in its queue.
\<close>

definition session_feed :: "app_state \<Rightarrow> session \<Rightarrow> StreamMessage list" where
  "session_feed app s = initial_messages s @ items (queue_heap (broadcast app) (queue s))"

section \<open>Sequences of store operations\<close>

text \<open>
  The ingestion endpoints call \<^verbatim>\<open>add_packet\<close> and \<^verbatim>\<open>add_rssi\<close>. An exception ends the
  request that raised it; the store stays and serves the next request. A run records the
  outcome of each call and ends with the store after the last one.
\<close>

datatype store_op = AddPacket PacketEvent | AddRssi RssiSample

fun apply_op ::
  "clock \<Rightarrow> InMemoryStore \<Rightarrow> store_op \<Rightarrow> nat \<Rightarrow> error option \<times> InMemoryStore \<times> nat" where
  "apply_op c self (AddPacket packet) n = add_packet c self packet n"
| "apply_op c self (AddRssi sample) n = add_rssi c self sample n"

fun run_ops ::
  "clock \<Rightarrow> InMemoryStore \<Rightarrow> store_op list \<Rightarrow> nat
     \<Rightarrow> error option list \<times> InMemoryStore \<times> nat" where
  "run_ops c self [] n = ([], self, n)"
| "run_ops c self (op # ops) n =
     (let (e, self1, n1) = apply_op c self op n;
          (es, self2, n2) = run_ops c self1 ops n1
      in (e # es, self2, n2))"

section \<open>The eviction policy as the specification words it\<close>

text \<open>
  The effective timestamps a pass over \<open>xs\<close> observes when it evaluates the items one
  after the other, starting at clock reading \<open>n\<close>, up to the first evaluation that
  raises.
\<close>

fun observed ::
  "(clock \<Rightarrow> nat \<Rightarrow> 'a \<Rightarrow> (error + instant) \<times> nat) \<Rightarrow> clock \<Rightarrow> 'a list \<Rightarrow> nat \<Rightarrow> instant list" where
  "observed eff c [] n = []"
| "observed eff c (x # xs) n =
     (let (r, n') = eff c n x
      in case r of Inl e \<Rightarrow> [] | Inr t \<Rightarrow> t # observed eff c xs n')"

text \<open>
  Age pass: remove the oldest item while its effective timestamp is below the cutoff.
  Capacity pass: remove the oldest item while the size exceeds the capacity.
  Eviction: the cutoff is the clock reading minus the window; age pass, then capacity pass.
\<close>

definition spec_age_pass ::
  "(clock \<Rightarrow> nat \<Rightarrow> 'a \<Rightarrow> (error + instant) \<times> nat) \<Rightarrow> clock \<Rightarrow> instant \<Rightarrow> 'a list \<Rightarrow> nat
     \<Rightarrow> 'a list" where
  "spec_age_pass eff c cutoff xs n =
     drop (length (takeWhile (\<lambda>t. t < cutoff) (observed eff c xs n))) xs"

definition spec_capacity_pass :: "int \<Rightarrow> 'a list \<Rightarrow> 'a list" where
  "spec_capacity_pass m xs = drop (length xs - nat m) xs"

definition spec_evict ::
  "(clock \<Rightarrow> nat \<Rightarrow> 'a \<Rightarrow> (error + instant) \<times> nat) \<Rightarrow> clock \<Rightarrow> int \<Rightarrow> int \<Rightarrow> 'a list \<Rightarrow> nat
     \<Rightarrow> 'a list" where
  "spec_evict eff c window m xs n =
     spec_capacity_pass m (spec_age_pass eff c (c n - window) xs (Suc n))"

text \<open>
  An effective-datetime property either reads the clock at every evaluation, and returns
  the reading, or returns one fixed result, an instant or an exception, without reading
  the clock.
\<close>

definition reads_clock_or_fixed ::
  "(clock \<Rightarrow> nat \<Rightarrow> 'a \<Rightarrow> (error + instant) \<times> nat) \<Rightarrow> bool" where
  "reads_clock_or_fixed eff =
     (\<forall>x. (\<forall>c n. eff c n x = (Inr (c n), Suc n)) \<or> (\<exists>r. \<forall>c n. eff c n x = (r, n)))"

text \<open>
  An item whose effective datetime can be evaluated: the evaluation does not raise. It
  raises or not whatever the clock.
\<close>

definition evaluates :: "(clock \<Rightarrow> nat \<Rightarrow> 'a \<Rightarrow> (error + instant) \<times> nat) \<Rightarrow> 'a \<Rightarrow> bool" where
  "evaluates eff x = (case fst (eff (\<lambda>_. 0) 0 x) of Inl e \<Rightarrow> False | Inr t \<Rightarrow> True)"

section \<open>The last-seen dictionary as the specification words it\<close>





section \<open>Delivery to one queue as the specification words it\<close>

text \<open>
  A queue that is not full receives the message. A full queue loses its oldest pending
  message and then receives the message; when it is still full after the drop, the
  subscriber is skipped.
\<close>

definition spec_deliver :: "asyncio_queue \<Rightarrow> StreamMessage \<Rightarrow> asyncio_queue" where
  "spec_deliver q message =
     (if \<not> full q then q\<lparr>items := items q @ [message]\<rparr>
      else if full (q\<lparr>items := tl (items q)\<rparr>) then q\<lparr>items := tl (items q)\<rparr>
      else q\<lparr>items := tl (items q) @ [message]\<rparr>)"

section \<open>The start of a session as the specification words it\<close>

text \<open>
  The strategy of the specification: subscribe to the hub first, capture the snapshot
  second.
\<close>

definition spec_stream_updates :: "clock \<Rightarrow> app_state \<Rightarrow> (error + session) \<times> app_state" where
  "spec_stream_updates c app =
     (let (q, hub) = subscribe (broadcast app);
          app1 = app\<lparr>broadcast := hub\<rparr>;
          (r, n) = snapshot_stream_events c (store app1) (ticks app1);
          app2 = app1\<lparr>ticks := n\<rparr>
      in case r of
           Inl e \<Rightarrow> (Inl e, app2)
         | Inr msgs \<Rightarrow> (Inr \<lparr>initial_messages = msgs, queue = q\<rparr>, app2))"

section \<open>Stores and operations whose items can be evaluated\<close>

text \<open>
  A store in which the effective datetime of every retained packet and sample, and of
  every packet of the last-seen dictionary, can be evaluated; an operation that inserts
  such an item.
\<close>

definition store_evaluates :: "InMemoryStore \<Rightarrow> bool" where
  "store_evaluates self =
     (list_all (evaluates effective_datetime) (packets self)
      \<and> list_all (evaluates effective_datetime_rssi) (rssi self)
      \<and> list_all (\<lambda>entry. evaluates effective_datetime (snd entry)) (last_seen_by_station self))"

fun op_evaluates :: "store_op \<Rightarrow> bool" where
  "op_evaluates (AddPacket packet) = evaluates effective_datetime packet"
| "op_evaluates (AddRssi sample) = evaluates effective_datetime_rssi sample"

section \<open>Example values\<close>

text \<open>A clock that starts 1000 s after the epoch and advances 1 \<mu>s per reading.\<close>

definition example_clock :: clock where
  "example_clock n = 1000000000 + int n"

text \<open>A clock that is set back by 100 s after its first reading.\<close>

definition stepping_clock :: clock where
  "stepping_clock n = (if n = 0 then 1000000000 else 900000000 + int n)"

text \<open>The store the constructor builds when \<^verbatim>\<open>timedelta\<close> does not raise.\<close>

definition new_store :: "int \<Rightarrow> int \<Rightarrow> InMemoryStore" where
  "new_store seconds capacity =
     \<lparr> packets = [], rssi = [], last_seen_by_station = [],
       retention = seconds * 1000000, max_items = capacity \<rparr>"

definition stamped_packet :: "string \<Rightarrow> int \<Rightarrow> PacketEvent" where
  "stamped_packet callsign t =
     \<lparr> timestamp = Some (Aware t 0), unix_time = None, source_callsign = Some callsign,
       destination_callsign = None, path = None, other_fields = [] \<rparr>"

definition bare_packet :: "string \<Rightarrow> PacketEvent" where
  "bare_packet callsign =
     \<lparr> timestamp = None, unix_time = None, source_callsign = Some callsign,
       destination_callsign = None, path = None, other_fields = [] \<rparr>"

text \<open>A packet without source, stamped by its epoch second alone.\<close>

definition epoch_packet :: "int \<Rightarrow> PacketEvent" where
  "epoch_packet u =
     \<lparr> timestamp = None, unix_time = Some u, source_callsign = None,
       destination_callsign = None, path = None, other_fields = [] \<rparr>"

definition stamped_sample :: "int \<Rightarrow> RssiSample" where
  "stamped_sample t =
     \<lparr> sample_timestamp = Some (Aware t 0), dbm = - 50, frequency_mhz = 144.39,
       integration_ms = None \<rparr>"

definition bare_sample :: RssiSample where
  "bare_sample =
     \<lparr> sample_timestamp = None, dbm = - 50, frequency_mhz = 144.39, integration_ms = None \<rparr>"

text \<open>The message \<^verbatim>\<open>ingest_packets\<close> publishes for a packet.\<close>

definition packet_message :: "PacketEvent \<Rightarrow> StreamMessage" where
  "packet_message p = \<lparr>event_type = EvPacket, payload = Some (PacketDump p)\<rparr>"

text \<open>
  A hub after two subscriptions: queue 0 holds 512 pending messages, queue 1 holds one.
\<close>

definition example_hub :: BroadcastHub where
  "example_hub =
     \<lparr> listeners = [1, 0],
       queue_heap = (\<lambda>_. \<lparr>items = [], maxsize = 0\<rparr>)
         (0 := \<lparr>items = replicate 512 (packet_message (bare_packet ''A'')), maxsize = 512\<rparr>,
          1 := \<lparr>items = [packet_message (bare_packet ''A'')], maxsize = 512\<rparr>),
       next_ref = 2 \<rparr>"

section \<open>Evaluation rules and basic facts\<close>

lemmas store_defs = add_packet_def add_rssi_def trim_def now_def is_stale_def
  effective_datetime_def effective_datetime_rssi_def prune_last_seen_def truthy_def
  InMemoryStore_init_def timedelta_seconds_def fromtimestamp_def datetime_sub_def
  representable_def datetime_min_def datetime_max_def new_store_def

lemmas example_defs = example_clock_def stepping_clock_def stamped_packet_def bare_packet_def
  epoch_packet_def stamped_sample_def bare_sample_def

lemma mono_example_clock: "mono example_clock"
  by (simp add: mono_def example_clock_def)

lemma drop_excess_neg: "m < 0 \<Longrightarrow> drop_excess m xs = (Some IndexError, [])"
  by (induction xs) auto

lemma drop_excess_nonneg:
  "0 \<le> m \<Longrightarrow> drop_excess m xs = (None, drop (length xs - nat m) xs)"
proof (induction xs)
  case Nil
  then show ?case by simp
next
  case (Cons x xs)
  show ?case
  proof (cases "int (length (x # xs)) > m")
    case True
    then have "length (x # xs) - nat m = Suc (length xs - nat m)"
      using Cons.prems by auto
    with True Cons show ?thesis by simp
  next
    case False
    then have "length (x # xs) - nat m = 0" by auto
    with False show ?thesis by simp
  qed
qed

lemma drop_stale_age:
  "fst (snd (drop_stale eff c cutoff xs n)) = spec_age_pass eff c cutoff xs n"
proof (induction xs arbitrary: n)
  case Nil
  then show ?case by (simp add: spec_age_pass_def)
next
  case (Cons x xs)
  obtain r n' where e: "eff c n x = (r, n')" by (cases "eff c n x")
  show ?case
  proof (cases r)
    case (Inl err)
    with e show ?thesis by (simp add: spec_age_pass_def is_stale_def)
  next
    case (Inr t)
    with e Cons[of n'] show ?thesis by (simp add: spec_age_pass_def is_stale_def)
  qed
qed

lemma trim_result:
  "trim eff c self xs prune n =
     (if \<not> representable (c n - retention self) then (Some OverflowError, xs, self, Suc n)
      else if fst (drop_stale eff c (c n - retention self) xs (Suc n)) \<noteq> None
      then (fst (drop_stale eff c (c n - retention self) xs (Suc n)),
            spec_age_pass eff c (c n - retention self) xs (Suc n), self,
            snd (snd (drop_stale eff c (c n - retention self) xs (Suc n))))
      else if max_items self < 0
      then (Some IndexError, [], self,
            snd (snd (drop_stale eff c (c n - retention self) xs (Suc n))))
      else if prune
      then (fst (prune_last_seen c (c n - retention self) (last_seen_by_station self)
                  (snd (snd (drop_stale eff c (c n - retention self) xs (Suc n))))),
            spec_evict eff c (retention self) (max_items self) xs n,
            self\<lparr>last_seen_by_station :=
              fst (snd (prune_last_seen c (c n - retention self) (last_seen_by_station self)
                  (snd (snd (drop_stale eff c (c n - retention self) xs (Suc n))))))\<rparr>,
            snd (snd (prune_last_seen c (c n - retention self) (last_seen_by_station self)
                  (snd (snd (drop_stale eff c (c n - retention self) xs (Suc n)))))))
      else (None, spec_evict eff c (retention self) (max_items self) xs n, self,
            snd (snd (drop_stale eff c (c n - retention self) xs (Suc n)))))"
proof -
  obtain e1 ys n1 where d: "drop_stale eff c (c n - retention self) xs (Suc n) = (e1, ys, n1)"
    by (cases "drop_stale eff c (c n - retention self) xs (Suc n)")
  have ys: "ys = spec_age_pass eff c (c n - retention self) xs (Suc n)"
    using drop_stale_age[of eff c "c n - retention self" xs "Suc n"] d by simp
  obtain e3 idx n2 where p: "prune_last_seen c (c n - retention self) (last_seen_by_station self) n1
      = (e3, idx, n2)"
    by (cases "prune_last_seen c (c n - retention self) (last_seen_by_station self) n1")
  show ?thesis
  proof (cases "representable (c n - retention self)")
    case False
    then show ?thesis by (simp add: trim_def now_def datetime_sub_def)
  next
    case True
    show ?thesis
    proof (cases e1)
      case (Some e)
      with True d ys show ?thesis by (simp add: trim_def now_def datetime_sub_def)
    next
      case None
      show ?thesis
      proof (cases "max_items self < 0")
        case neg: True
        with True None d ys show ?thesis
          by (simp add: trim_def now_def datetime_sub_def drop_excess_neg)
      next
        case False
        then have "0 \<le> max_items self" by simp
        with True None d ys p False show ?thesis
          by (simp add: trim_def now_def datetime_sub_def drop_excess_nonneg spec_evict_def
              spec_capacity_pass_def)
      qed
    qed
  qed
qed

lemma add_packet_result:
  "add_packet c self packet n =
     (if \<not> representable (c n - retention self)
      then (Some OverflowError,
            self\<lparr> packets := packets self @ [packet],
                  last_seen_by_station :=
                    (if truthy (source_callsign packet)
                     then AList.update (the (source_callsign packet)) packet
                            (last_seen_by_station self)
                     else last_seen_by_station self) \<rparr>, Suc n)
      else if fst (drop_stale effective_datetime c (c n - retention self)
                    (packets self @ [packet]) (Suc n)) \<noteq> None
      then (fst (drop_stale effective_datetime c (c n - retention self)
                    (packets self @ [packet]) (Suc n)),
            self\<lparr> packets := spec_age_pass effective_datetime c (c n - retention self)
                                (packets self @ [packet]) (Suc n),
                  last_seen_by_station :=
                    (if truthy (source_callsign packet)
                     then AList.update (the (source_callsign packet)) packet
                            (last_seen_by_station self)
                     else last_seen_by_station self) \<rparr>,
            snd (snd (drop_stale effective_datetime c (c n - retention self)
                    (packets self @ [packet]) (Suc n))))
      else if max_items self < 0
      then (Some IndexError,
            self\<lparr> packets := [],
                  last_seen_by_station :=
                    (if truthy (source_callsign packet)
                     then AList.update (the (source_callsign packet)) packet
                            (last_seen_by_station self)
                     else last_seen_by_station self) \<rparr>,
            snd (snd (drop_stale effective_datetime c (c n - retention self)
                    (packets self @ [packet]) (Suc n))))
      else (fst (prune_last_seen c (c n - retention self)
                  (if truthy (source_callsign packet)
                   then AList.update (the (source_callsign packet)) packet
                          (last_seen_by_station self)
                   else last_seen_by_station self)
                  (snd (snd (drop_stale effective_datetime c (c n - retention self)
                              (packets self @ [packet]) (Suc n))))),
            self\<lparr> packets := spec_evict effective_datetime c (retention self) (max_items self)
                                (packets self @ [packet]) n,
                  last_seen_by_station :=
                    fst (snd (prune_last_seen c (c n - retention self)
                      (if truthy (source_callsign packet)
                       then AList.update (the (source_callsign packet)) packet
                              (last_seen_by_station self)
                       else last_seen_by_station self)
                      (snd (snd (drop_stale effective_datetime c (c n - retention self)
                                  (packets self @ [packet]) (Suc n)))))) \<rparr>,
            snd (snd (prune_last_seen c (c n - retention self)
                  (if truthy (source_callsign packet)
                   then AList.update (the (source_callsign packet)) packet
                          (last_seen_by_station self)
                   else last_seen_by_station self)
                  (snd (snd (drop_stale effective_datetime c (c n - retention self)
                              (packets self @ [packet]) (Suc n))))))))"
  by (simp add: add_packet_def trim_result Let_def)

lemma add_rssi_result:
  "add_rssi c self sample n =
     (if \<not> representable (c n - retention self)
      then (Some OverflowError, self\<lparr>rssi := rssi self @ [sample]\<rparr>, Suc n)
      else if fst (drop_stale effective_datetime_rssi c (c n - retention self)
                    (rssi self @ [sample]) (Suc n)) \<noteq> None
      then (fst (drop_stale effective_datetime_rssi c (c n - retention self)
                    (rssi self @ [sample]) (Suc n)),
            self\<lparr>rssi := spec_age_pass effective_datetime_rssi c (c n - retention self)
                             (rssi self @ [sample]) (Suc n)\<rparr>,
            snd (snd (drop_stale effective_datetime_rssi c (c n - retention self)
                    (rssi self @ [sample]) (Suc n))))
      else if max_items self < 0
      then (Some IndexError, self\<lparr>rssi := []\<rparr>,
            snd (snd (drop_stale effective_datetime_rssi c (c n - retention self)
                    (rssi self @ [sample]) (Suc n))))
      else (None,
            self\<lparr>rssi := spec_evict effective_datetime_rssi c (retention self) (max_items self)
                             (rssi self @ [sample]) n\<rparr>,
            snd (snd (drop_stale effective_datetime_rssi c (c n - retention self)
                    (rssi self @ [sample]) (Suc n)))))"
  by (simp add: add_rssi_def trim_result Let_def)

lemma packet_reads_clock_or_fixed: "reads_clock_or_fixed effective_datetime"
  unfolding reads_clock_or_fixed_def
proof
  fix x :: PacketEvent
  show "(\<forall>c n. effective_datetime c n x = (Inr (c n), Suc n)) \<or>
        (\<exists>r. \<forall>c n. effective_datetime c n x = (r, n))"
    by (cases "timestamp x"; cases "unix_time x") (simp_all add: effective_datetime_def now_def)
qed

lemma rssi_reads_clock_or_fixed: "reads_clock_or_fixed effective_datetime_rssi"
  unfolding reads_clock_or_fixed_def
proof
  fix x :: RssiSample
  show "(\<forall>c n. effective_datetime_rssi c n x = (Inr (c n), Suc n)) \<or>
        (\<exists>r. \<forall>c n. effective_datetime_rssi c n x = (r, n))"
    by (cases "sample_timestamp x") (simp_all add: effective_datetime_rssi_def now_def)
qed

lemma eff_index_mono: "reads_clock_or_fixed eff \<Longrightarrow> n \<le> snd (eff c n x)"
  unfolding reads_clock_or_fixed_def by (metis le_Suc_eq order_refl snd_conv)

lemma spec_capacity_pass_length: "0 \<le> m \<Longrightarrow> int (length (spec_capacity_pass m xs)) \<le> m"
  unfolding spec_capacity_pass_def by auto

lemma spec_age_pass_suffix: "suffix (spec_age_pass eff c t xs n) xs"
  unfolding spec_age_pass_def by (rule suffix_drop)

lemma spec_evict_suffix: "suffix (spec_evict eff c w m xs n) xs"
  unfolding spec_evict_def spec_capacity_pass_def spec_age_pass_def
  by (meson suffix_drop suffix_order.trans)

lemma spec_evict_subset_age:
  "set (spec_evict eff c w m xs n) \<subseteq> set (spec_age_pass eff c (c n - w) xs (Suc n))"
  unfolding spec_evict_def spec_capacity_pass_def
  by (rule set_drop_subset)

section \<open>The two passes of eviction\<close>

text \<open>
  Claim C2. \<^verbatim>\<open>_trim\<close> is the eviction of the specification: the age pass with the cutoff
  \<open>c n - retention\<close>, then the capacity pass, whatever the items' ages. The collection
  after \<^verbatim>\<open>_trim\<close> is the history itself when the cutoff is not a datetime, what the age
  pass has left when a staleness test raises, and the capacity pass of the age pass
  otherwise (empty for a negative capacity, where \<^verbatim>\<open>popleft\<close> on the emptied deque
  raises IndexError); the exception of \<^verbatim>\<open>_trim\<close> is the first one met. When \<^verbatim>\<open>_trim\<close>
  returns, the collection is the eviction of the specification. In every case what
  remains is a suffix of the history: items leave at the oldest end only and the rest
  keeps its order. A fresh item can leave for capacity alone: with a window of 3600 s and
  a capacity of 1, the packet \<open>A\<close>, stamped 1 s before the clock reading, is not stale
  and is removed.
\<close>

theorem trim_two_passes:
  "fst (snd (trim eff c self xs prune n)) =
     (if \<not> representable (c n - retention self) then xs
      else if fst (drop_stale eff c (c n - retention self) xs (Suc n)) \<noteq> None
      then spec_age_pass eff c (c n - retention self) xs (Suc n)
      else spec_evict eff c (retention self) (max_items self) xs n)
   \<and> fst (trim eff c self xs prune n) =
     (if \<not> representable (c n - retention self) then Some OverflowError
      else if fst (drop_stale eff c (c n - retention self) xs (Suc n)) \<noteq> None
      then fst (drop_stale eff c (c n - retention self) xs (Suc n))
      else if max_items self < 0 then Some IndexError
      else if prune
      then fst (prune_last_seen c (c n - retention self) (last_seen_by_station self)
                 (snd (snd (drop_stale eff c (c n - retention self) xs (Suc n)))))
      else None)
   \<and> (fst (trim eff c self xs prune n) = None \<longrightarrow>
        fst (snd (trim eff c self xs prune n))
          = spec_evict eff c (retention self) (max_items self) xs n)
   \<and> suffix (fst (snd (trim eff c self xs prune n))) xs
   \<and> trim effective_datetime example_clock (new_store 3600 1)
        [stamped_packet ''A'' 999000000, stamped_packet ''B'' 999500000] False 0
      = (None, [stamped_packet ''B'' 999500000], new_store 3600 1, 1)
   \<and> is_stale effective_datetime example_clock 1 (stamped_packet ''A'' 999000000)
        (example_clock 0 - retention (new_store 3600 1)) = (Inr False, 1)"
proof (intro conjI)
  have neg: "max_items self < 0 \<Longrightarrow> spec_evict eff c (retention self) (max_items self) xs n = []"
    by (simp add: spec_evict_def spec_capacity_pass_def)
  show 1: "fst (snd (trim eff c self xs prune n)) =
     (if \<not> representable (c n - retention self) then xs
      else if fst (drop_stale eff c (c n - retention self) xs (Suc n)) \<noteq> None
      then spec_age_pass eff c (c n - retention self) xs (Suc n)
      else spec_evict eff c (retention self) (max_items self) xs n)"
    using neg by (simp add: trim_result)
  show 2: "fst (trim eff c self xs prune n) =
     (if \<not> representable (c n - retention self) then Some OverflowError
      else if fst (drop_stale eff c (c n - retention self) xs (Suc n)) \<noteq> None
      then fst (drop_stale eff c (c n - retention self) xs (Suc n))
      else if max_items self < 0 then Some IndexError
      else if prune
      then fst (prune_last_seen c (c n - retention self) (last_seen_by_station self)
                 (snd (snd (drop_stale eff c (c n - retention self) xs (Suc n)))))
      else None)"
    by (simp add: trim_result)
  show "fst (trim eff c self xs prune n) = None \<longrightarrow>
        fst (snd (trim eff c self xs prune n))
          = spec_evict eff c (retention self) (max_items self) xs n"
    unfolding 1 2 by (auto split: if_splits)
  show "suffix (fst (snd (trim eff c self xs prune n))) xs"
    unfolding 1 by (simp add: spec_age_pass_suffix spec_evict_suffix)
  show "trim effective_datetime example_clock (new_store 3600 1)
        [stamped_packet ''A'' 999000000, stamped_packet ''B'' 999500000] False 0
      = (None, [stamped_packet ''B'' 999500000], new_store 3600 1, 1)"
    by (simp add: store_defs example_defs)
  show "is_stale effective_datetime example_clock 1 (stamped_packet ''A'' 999000000)
        (example_clock 0 - retention (new_store 3600 1)) = (Inr False, 1)"
    by (simp add: store_defs example_defs)
qed

theorem trim_two_passes_witness:
  "fst (trim effective_datetime example_clock (new_store 3600 1)
         [stamped_packet ''A'' 999000000, stamped_packet ''B'' 999500000] False 0) = None
   \<and> fst (snd (trim effective_datetime example_clock (new_store 3600 1)
         [stamped_packet ''A'' 999000000, stamped_packet ''B'' 999500000] False 0))
       = spec_evict effective_datetime example_clock (retention (new_store 3600 1))
           (max_items (new_store 3600 1))
           [stamped_packet ''A'' 999000000, stamped_packet ''B'' 999500000] 0"
proof -
  note t = trim_two_passes[of effective_datetime example_clock "new_store 3600 1"
      "[stamped_packet ''A'' 999000000, stamped_packet ''B'' 999500000]" False 0]
  from t have a: "fst (trim effective_datetime example_clock (new_store 3600 1)
         [stamped_packet ''A'' 999000000, stamped_packet ''B'' 999500000] False 0) = None"
    by simp
  with t show ?thesis by blast
qed

section \<open>The last-seen dictionary\<close>

lemma fold_delete_filter:
  "fold AList.delete ks al = filter (\<lambda>entry. fst entry \<notin> set ks) al"
proof (induction ks arbitrary: al)
  case Nil
  then show ?case by simp
next
  case (Cons k ks)
  have "AList.delete k al = filter (\<lambda>entry. fst entry \<noteq> k) al"
    by (induction al) auto
  with Cons show ?case by (simp add: conj_commute)
qed

lemma prune_filter:
  "fst (snd (prune_last_seen c cutoff index n)) =
     (case fst (stale_callsigns c cutoff index n) of
        Inl e \<Rightarrow> index
      | Inr ks \<Rightarrow> filter (\<lambda>entry. fst entry \<notin> set ks) index)"
  by (simp add: prune_last_seen_def case_prod_beta fold_delete_filter split: sum.splits)

lemma prune_error:
  "fst (prune_last_seen c cutoff index n) =
     (case fst (stale_callsigns c cutoff index n) of Inl e \<Rightarrow> Some e | Inr ks \<Rightarrow> None)"
  by (simp add: prune_last_seen_def case_prod_beta split: sum.splits)












lemma add_rssi_index:
  "last_seen_by_station (fst (snd (add_rssi c self s n))) = last_seen_by_station self"
  by (simp add: add_rssi_result)


lemma InMemoryStore_init_result:
  "InMemoryStore_init s k =
     (if - 999999999 \<le> s div 86400 \<and> s div 86400 \<le> 999999999
      then Inr (new_store s k) else Inl OverflowError)"
  by (simp add: InMemoryStore_init_def timedelta_seconds_def new_store_def)




section \<open>Capacity eviction and the last-seen dictionary\<close>

text \<open>
  Claim C9. The capacity of the store has no effect on the last-seen dictionary: two
  stores that differ in capacity only hold the same dictionary after \<^verbatim>\<open>add_packet\<close>, with
  the same outcome and as many clock readings. The dictionary after an \<^verbatim>\<open>add_packet\<close>
  that returns is the dictionary with the new packet recorded, pruned by age;
  \<^verbatim>\<open>add_rssi\<close> leaves it as it is. So a lookup can return a packet that the history no
  longer holds: with a window of 3600 s and a capacity of 1, after packets from \<open>A\<close> and
  \<open>B\<close>, both fresh, the history holds the packet of \<open>B\<close> alone and the dictionary still
  maps \<open>A\<close> to its packet.
\<close>

theorem capacity_leaves_index:
  "(0 \<le> m1 \<and> 0 \<le> m2 \<longrightarrow>
      (\<exists>e s1 s2 k. add_packet c (self\<lparr>max_items := m1\<rparr>) p n = (e, s1, k)
                \<and> add_packet c (self\<lparr>max_items := m2\<rparr>) p n = (e, s2, k)
                \<and> last_seen_by_station s1 = last_seen_by_station s2))
   \<and> (\<forall>self' n'. add_packet c self p n = (None, self', n') \<longrightarrow>
         last_seen_by_station self' =
           fst (snd (prune_last_seen c (c n - retention self)
                 (if truthy (source_callsign p)
                  then AList.update (the (source_callsign p)) p (last_seen_by_station self)
                  else last_seen_by_station self)
                 (snd (snd (drop_stale effective_datetime c (c n - retention self)
                        (packets self @ [p]) (Suc n)))))))
   \<and> (\<forall>e self' n'. add_rssi c self s n = (e, self', n') \<longrightarrow>
         last_seen_by_station self' = last_seen_by_station self)
   \<and> run_ops example_clock (new_store 3600 1)
        [AddPacket (stamped_packet ''A'' 999000000), AddPacket (stamped_packet ''B'' 999500000)] 0
      = ([None, None],
         \<lparr> packets = [stamped_packet ''B'' 999500000], rssi = [],
           last_seen_by_station = [(''A'', stamped_packet ''A'' 999000000),
                                   (''B'', stamped_packet ''B'' 999500000)],
           retention = 3600000000, max_items = 1 \<rparr>, 2)
   \<and> map_of (get_last_seen
        \<lparr> packets = [stamped_packet ''B'' 999500000], rssi = [],
          last_seen_by_station = [(''A'', stamped_packet ''A'' 999000000),
                                  (''B'', stamped_packet ''B'' 999500000)],
          retention = 3600000000, max_items = 1 \<rparr>) ''A'' = Some (stamped_packet ''A'' 999000000)
   \<and> stamped_packet ''A'' 999000000 \<notin> set (get_recent_packets
        \<lparr> packets = [stamped_packet ''B'' 999500000], rssi = [],
          last_seen_by_station = [(''A'', stamped_packet ''A'' 999000000),
                                  (''B'', stamped_packet ''B'' 999500000)],
          retention = 3600000000, max_items = 1 \<rparr>)
   \<and> is_stale effective_datetime example_clock 2 (stamped_packet ''A'' 999000000)
        (example_clock 1 - 3600000000) = (Inr False, 2)"
proof (intro conjI)
  show "0 \<le> m1 \<and> 0 \<le> m2 \<longrightarrow>
      (\<exists>e s1 s2 k. add_packet c (self\<lparr>max_items := m1\<rparr>) p n = (e, s1, k)
                \<and> add_packet c (self\<lparr>max_items := m2\<rparr>) p n = (e, s2, k)
                \<and> last_seen_by_station s1 = last_seen_by_station s2)"
    by (simp add: add_packet_result)
  show "\<forall>self' n'. add_packet c self p n = (None, self', n') \<longrightarrow>
         last_seen_by_station self' =
           fst (snd (prune_last_seen c (c n - retention self)
                 (if truthy (source_callsign p)
                  then AList.update (the (source_callsign p)) p (last_seen_by_station self)
                  else last_seen_by_station self)
                 (snd (snd (drop_stale effective_datetime c (c n - retention self)
                        (packets self @ [p]) (Suc n))))))"
    by (auto simp: add_packet_result split: if_splits)
  show "\<forall>e self' n'. add_rssi c self s n = (e, self', n') \<longrightarrow>
         last_seen_by_station self' = last_seen_by_station self"
    using add_rssi_index by (metis fst_conv snd_conv)
qed (simp_all add: store_defs example_defs get_last_seen_def get_recent_packets_def)

theorem capacity_leaves_index_witness:
  "(0::int) \<le> 1 \<and> (0::int) \<le> 5
   \<and> (\<exists>e s1 s2 k. add_packet example_clock ((new_store 3600 7)\<lparr>max_items := 1\<rparr>)
                   (stamped_packet ''A'' 999000000) 0 = (e, s1, k)
                \<and> add_packet example_clock ((new_store 3600 7)\<lparr>max_items := 5\<rparr>)
                   (stamped_packet ''A'' 999000000) 0 = (e, s2, k)
                \<and> last_seen_by_station s1 = last_seen_by_station s2)
   \<and> add_packet example_clock (new_store 3600 7) (stamped_packet ''A'' 999000000) 0
       = (None, \<lparr> packets = [stamped_packet ''A'' 999000000], rssi = [],
                  last_seen_by_station = [(''A'', stamped_packet ''A'' 999000000)],
                  retention = 3600000000, max_items = 7 \<rparr>, 1)
   \<and> fst (snd (prune_last_seen example_clock (example_clock 0 - 3600000000)
               [(''A'', stamped_packet ''A'' 999000000)]
               (snd (snd (drop_stale effective_datetime example_clock
                      (example_clock 0 - 3600000000) [stamped_packet ''A'' 999000000] 1)))))
       = [(''A'', stamped_packet ''A'' 999000000)]
   \<and> add_rssi example_clock (new_store 3600 7) bare_sample 0
       = (None, \<lparr> packets = [], rssi = [bare_sample], last_seen_by_station = [],
                  retention = 3600000000, max_items = 7 \<rparr>, 2)
   \<and> last_seen_by_station \<lparr> packets = [], rssi = [bare_sample], last_seen_by_station = [],
                retention = 3600000000, max_items = 7 \<rparr>
       = last_seen_by_station (new_store 3600 7)"
proof -
  let ?s = "new_store 3600 7"
  let ?a = "stamped_packet ''A'' 999000000"
  let ?s1 = "\<lparr> packets = [?a], rssi = [], last_seen_by_station = [(''A'', ?a)],
                retention = 3600000000, max_items = 7 \<rparr>"
  let ?s2 = "\<lparr> packets = [], rssi = [bare_sample], last_seen_by_station = [],
                retention = 3600000000, max_items = 7 \<rparr>"
  note t = capacity_leaves_index[of 1 5 example_clock ?s ?a 0 bare_sample]
  have ap: "add_packet example_clock ?s ?a 0 = (None, ?s1, 1)"
    by (simp add: store_defs example_defs)
  have ar: "add_rssi example_clock ?s bare_sample 0 = (None, ?s2, 2)"
    by (simp add: store_defs example_defs)
  have r: "retention ?s = 3600000000" and l: "last_seen_by_station ?s = []"
    and tr: "truthy (source_callsign ?a)" and sc: "the (source_callsign ?a) = ''A''"
    and pk: "packets ?s = []"
    by (simp_all add: store_defs example_defs)
  from t have 1: "\<exists>e s1 s2 k. add_packet example_clock (?s\<lparr>max_items := 1\<rparr>) ?a 0 = (e, s1, k)
                \<and> add_packet example_clock (?s\<lparr>max_items := 5\<rparr>) ?a 0 = (e, s2, k)
                \<and> last_seen_by_station s1 = last_seen_by_station s2"
    by simp
  from t ap have 2: "last_seen_by_station ?s1 =
           fst (snd (prune_last_seen example_clock (example_clock 0 - retention ?s)
                 (if truthy (source_callsign ?a)
                  then AList.update (the (source_callsign ?a)) ?a (last_seen_by_station ?s)
                  else last_seen_by_station ?s)
                 (snd (snd (drop_stale effective_datetime example_clock
                        (example_clock 0 - retention ?s) (packets ?s @ [?a]) (Suc 0))))))"
    by blast
  from t ar have 3: "last_seen_by_station ?s2 = last_seen_by_station ?s" by blast
  from 2[symmetric] have b2:
    "fst (snd (prune_last_seen example_clock (example_clock 0 - 3600000000) [(''A'', ?a)]
               (snd (snd (drop_stale effective_datetime example_clock
                      (example_clock 0 - 3600000000) [?a] 1))))) = [(''A'', ?a)]"
    unfolding r l sc pk using tr by simp
  from 1 b2 3 ap ar show ?thesis by simp
qed

section \<open>Evaluations of the effective datetime\<close>

lemma packet_entries_ok:
  "packet_entries c ps n = (Inr es, n') \<Longrightarrow>
     map fst es = observed effective_datetime c ps n
     \<and> map snd es = map (\<lambda>p. \<lparr>event_type = EvPacket, payload = Some (PacketDump p)\<rparr>) ps
     \<and> n' = n + length (filter (\<lambda>p. timestamp p = None \<and> unix_time p = None) ps)"
proof (induction ps arbitrary: n es n')
  case Nil
  then show ?case by simp
next
  case (Cons p ps)
  obtain r n1 where ev: "effective_datetime c n p = (r, n1)"
    by (cases "effective_datetime c n p")
  from Cons.prems ev obtain t where t: "r = Inr t" by (cases r) simp_all
  obtain rs n2 where rest: "packet_entries c ps n1 = (rs, n2)"
    by (cases "packet_entries c ps n1")
  from Cons.prems ev t rest obtain es' where es': "rs = Inr es'"
    and es: "es = (t, \<lparr>event_type = EvPacket, payload = Some (PacketDump p)\<rparr>) # es'"
    and n': "n' = n2"
    by (cases rs) auto
  from Cons.IH[of n1 es' n2] rest es' have ih:
    "map fst es' = observed effective_datetime c ps n1"
    "map snd es' = map (\<lambda>p. \<lparr>event_type = EvPacket, payload = Some (PacketDump p)\<rparr>) ps"
    "n2 = n1 + length (filter (\<lambda>p. timestamp p = None \<and> unix_time p = None) ps)"
    by simp_all
  have n1: "n1 = (if timestamp p = None \<and> unix_time p = None then Suc n else n)"
    using ev by (cases "timestamp p"; cases "unix_time p")
      (simp_all add: effective_datetime_def now_def)
  show ?case using ih es n' ev t n1 by simp
qed

lemma rssi_entries_ok:
  "rssi_entries c ss n = (Inr es, n') \<Longrightarrow>
     map fst es = observed effective_datetime_rssi c ss n
     \<and> map snd es = map (\<lambda>s. \<lparr>event_type = EvRssi, payload = Some (RssiDump s)\<rparr>) ss
     \<and> n' = n + length (filter (\<lambda>s. sample_timestamp s = None) ss)"
proof (induction ss arbitrary: n es n')
  case Nil
  then show ?case by simp
next
  case (Cons s ss)
  obtain r n1 where ev: "effective_datetime_rssi c n s = (r, n1)"
    by (cases "effective_datetime_rssi c n s")
  from Cons.prems ev obtain t where t: "r = Inr t" by (cases r) simp_all
  obtain rs n2 where rest: "rssi_entries c ss n1 = (rs, n2)"
    by (cases "rssi_entries c ss n1")
  from Cons.prems ev t rest obtain es' where es': "rs = Inr es'"
    and es: "es = (t, \<lparr>event_type = EvRssi, payload = Some (RssiDump s)\<rparr>) # es'"
    and n': "n' = n2"
    by (cases rs) auto
  from Cons.IH[of n1 es' n2] rest es' have ih:
    "map fst es' = observed effective_datetime_rssi c ss n1"
    "map snd es' = map (\<lambda>s. \<lparr>event_type = EvRssi, payload = Some (RssiDump s)\<rparr>) ss"
    "n2 = n1 + length (filter (\<lambda>s. sample_timestamp s = None) ss)"
    by simp_all
  have n1: "n1 = (if sample_timestamp s = None then Suc n else n)"
    using ev by (cases "sample_timestamp s") (simp_all add: effective_datetime_rssi_def now_def)
  show ?case using ih es n' ev t n1 by simp
qed

lemma snapshot_entries_ok:
  assumes "snapshot_entries c self n = (Inr entries, n')"
  shows "\<exists>pes res n1. packet_entries c (packets self) n = (Inr pes, n1)
           \<and> rssi_entries c (rssi self) n1 = (Inr res, n')
           \<and> entries = sort_key fst (pes @ res)"
proof -
  obtain ps n1 where p: "packet_entries c (packets self) n = (ps, n1)"
    by (cases "packet_entries c (packets self) n")
  from assms p obtain pes where pes: "ps = Inr pes"
    by (cases ps) (simp_all add: snapshot_entries_def)
  obtain rs n2 where r: "rssi_entries c (rssi self) n1 = (rs, n2)"
    by (cases "rssi_entries c (rssi self) n1")
  from assms p pes r obtain res where res: "rs = Inr res"
    by (cases rs) (simp_all add: snapshot_entries_def)
  from assms p pes r res show ?thesis by (simp add: snapshot_entries_def)
qed

text \<open>
  Claim C7, as stated, fails for an event with neither timestamp nor epoch fallback. One
  \<^verbatim>\<open>add_packet\<close> of such a packet reads the clock three times: for the cutoff (reading
  0), for the staleness test of the packet at the head of the history (reading 1), and
  for the same packet in the last-seen dictionary (reading 2). The two evaluations of the
  packet's effective datetime give 1000000001 and 1000000002.
\<close>

theorem effective_datetime_consistency_counterexample:
  "add_packet example_clock (new_store 60 10) (bare_packet ''N0CALL'') 0
     = (None, \<lparr> packets = [bare_packet ''N0CALL''], rssi = [],
                last_seen_by_station = [(''N0CALL'', bare_packet ''N0CALL'')],
                retention = 60000000, max_items = 10 \<rparr>, 3)
   \<and> drop_stale effective_datetime example_clock (example_clock 0 - 60000000)
        [bare_packet ''N0CALL''] 1 = (None, [bare_packet ''N0CALL''], 2)
   \<and> stale_callsigns example_clock (example_clock 0 - 60000000)
        [(''N0CALL'', bare_packet ''N0CALL'')] 2 = (Inr [], 3)
   \<and> effective_datetime example_clock 1 (bare_packet ''N0CALL'') = (Inr 1000000001, 2)
   \<and> effective_datetime example_clock 2 (bare_packet ''N0CALL'') = (Inr 1000000002, 3)
   \<and> fst (effective_datetime example_clock 1 (bare_packet ''N0CALL''))
       \<noteq> fst (effective_datetime example_clock 2 (bare_packet ''N0CALL''))"
  by (simp add: store_defs example_defs)

text \<open>
  Claim C7, amended. An event with an explicit timestamp, or a packet with an epoch
  fallback, evaluates to the same result at every evaluation and under every clock, and
  the evaluation reads no clock. An event with neither evaluates to the clock reading of
  the evaluation, which advances the clock index. A snapshot that returns has built one
  entry per item and read the clock once per item without timestamp: each item is
  evaluated exactly once, and the sort works on the stored values.
\<close>

theorem effective_datetime_consistency:
  "(timestamp p \<noteq> None \<or> unix_time p \<noteq> None \<longrightarrow>
      effective_datetime c n p = (fst (effective_datetime c' n' p), n))
   \<and> (sample_timestamp s \<noteq> None \<longrightarrow>
      effective_datetime_rssi c n s = (fst (effective_datetime_rssi c' n' s), n))
   \<and> (timestamp p = None \<and> unix_time p = None \<longrightarrow>
      effective_datetime c n p = (Inr (c n), Suc n))
   \<and> (sample_timestamp s = None \<longrightarrow> effective_datetime_rssi c n s = (Inr (c n), Suc n))
   \<and> (\<forall>entries k. snapshot_entries c self n = (Inr entries, k) \<longrightarrow>
         length entries = length (packets self) + length (rssi self)
         \<and> k = n + length (filter (\<lambda>p. timestamp p = None \<and> unix_time p = None) (packets self))
                 + length (filter (\<lambda>s. sample_timestamp s = None) (rssi self)))"
proof (intro conjI impI allI)
  assume "timestamp p \<noteq> None \<or> unix_time p \<noteq> None"
  then show "effective_datetime c n p = (fst (effective_datetime c' n' p), n)"
    by (cases "timestamp p"; cases "unix_time p") (simp_all add: effective_datetime_def)
next
  assume "sample_timestamp s \<noteq> None"
  then show "effective_datetime_rssi c n s = (fst (effective_datetime_rssi c' n' s), n)"
    by (cases "sample_timestamp s") (simp_all add: effective_datetime_rssi_def)
next
  assume "timestamp p = None \<and> unix_time p = None"
  then show "effective_datetime c n p = (Inr (c n), Suc n)"
    by (simp add: effective_datetime_def now_def)
next
  assume "sample_timestamp s = None"
  then show "effective_datetime_rssi c n s = (Inr (c n), Suc n)"
    by (simp add: effective_datetime_rssi_def now_def)
next
  fix entries k
  assume a: "snapshot_entries c self n = (Inr entries, k)"
  from snapshot_entries_ok[OF a] obtain pes res n1 where
    p: "packet_entries c (packets self) n = (Inr pes, n1)"
    and r: "rssi_entries c (rssi self) n1 = (Inr res, k)"
    and e: "entries = sort_key fst (pes @ res)"
    by blast
  from packet_entries_ok[OF p] have
    mp: "map snd pes = map (\<lambda>p. \<lparr>event_type = EvPacket, payload = Some (PacketDump p)\<rparr>)
                        (packets self)"
    and n1: "n1 = n + length (filter (\<lambda>p. timestamp p = None \<and> unix_time p = None) (packets self))"
    by blast+
  from rssi_entries_ok[OF r] have
    mr: "map snd res = map (\<lambda>s. \<lparr>event_type = EvRssi, payload = Some (RssiDump s)\<rparr>)
                        (rssi self)"
    and k: "k = n1 + length (filter (\<lambda>s. sample_timestamp s = None) (rssi self))"
    by blast+
  have lp: "length pes = length (packets self)" using arg_cong[OF mp, of length] by simp
  have lr: "length res = length (rssi self)" using arg_cong[OF mr, of length] by simp
  show "length entries = length (packets self) + length (rssi self)"
    using e lp lr by simp
  show "k = n + length (filter (\<lambda>p. timestamp p = None \<and> unix_time p = None) (packets self))
            + length (filter (\<lambda>s. sample_timestamp s = None) (rssi self))"
    using n1 k by simp
qed

theorem effective_datetime_consistency_witness:
  "timestamp (stamped_packet ''A'' 990000000) \<noteq> None
   \<and> effective_datetime example_clock 7 (stamped_packet ''A'' 990000000)
       = (fst (effective_datetime (\<lambda>_. 0) 3 (stamped_packet ''A'' 990000000)), 7)
   \<and> sample_timestamp (stamped_sample 990000000) \<noteq> None
   \<and> effective_datetime_rssi example_clock 7 (stamped_sample 990000000)
       = (fst (effective_datetime_rssi (\<lambda>_. 0) 3 (stamped_sample 990000000)), 7)
   \<and> timestamp (bare_packet ''B'') = None \<and> unix_time (bare_packet ''B'') = None
   \<and> effective_datetime example_clock 7 (bare_packet ''B'') = (Inr (example_clock 7), 8)
   \<and> sample_timestamp bare_sample = None
   \<and> effective_datetime_rssi example_clock 7 bare_sample = (Inr (example_clock 7), 8)
   \<and> snapshot_entries example_clock
        \<lparr> packets = [bare_packet ''B''], rssi = [stamped_sample 990000000],
          last_seen_by_station = [(''B'', bare_packet ''B'')],
          retention = 60000000, max_items = 10 \<rparr> 7
       = (Inr [(990000000, \<lparr>event_type = EvRssi,
                              payload = Some (RssiDump (stamped_sample 990000000))\<rparr>),
               (1000000007, \<lparr>event_type = EvPacket,
                               payload = Some (PacketDump (bare_packet ''B''))\<rparr>)], 8)
   \<and> length [(990000000 :: int, \<lparr>event_type = EvRssi,
                              payload = Some (RssiDump (stamped_sample 990000000))\<rparr>),
               (1000000007, \<lparr>event_type = EvPacket,
                               payload = Some (PacketDump (bare_packet ''B''))\<rparr>)]
        = length [bare_packet ''B''] + length [stamped_sample 990000000]"
proof -
  let ?st = "\<lparr> packets = [bare_packet ''B''], rssi = [stamped_sample 990000000],
          last_seen_by_station = [(''B'', bare_packet ''B'')],
          retention = 60000000, max_items = 10 \<rparr>"
  let ?es = "[(990000000 :: int, \<lparr>event_type = EvRssi,
                              payload = Some (RssiDump (stamped_sample 990000000))\<rparr>),
               (1000000007, \<lparr>event_type = EvPacket,
                               payload = Some (PacketDump (bare_packet ''B''))\<rparr>)]"
  have a: "timestamp (stamped_packet ''A'' 990000000) \<noteq> None"
    and b: "sample_timestamp (stamped_sample 990000000) \<noteq> None"
    and c: "timestamp (bare_packet ''B'') = None" "unix_time (bare_packet ''B'') = None"
    and d: "sample_timestamp bare_sample = None"
    by (simp_all add: example_defs)
  have sn: "snapshot_entries example_clock ?st 7 = (Inr ?es, 8)"
    by (simp add: snapshot_entries_def store_defs example_defs)
  note t1 = effective_datetime_consistency[of "stamped_packet ''A'' 990000000" example_clock 7
      "\<lambda>_. 0" 3 "stamped_sample 990000000" ?st]
  note t2 = effective_datetime_consistency[of "bare_packet ''B''" example_clock 7
      "\<lambda>_. 0" 3 bare_sample ?st]
  from t1 a b have 1: "effective_datetime example_clock 7 (stamped_packet ''A'' 990000000)
       = (fst (effective_datetime (\<lambda>_. 0) 3 (stamped_packet ''A'' 990000000)), 7)"
    and 2: "effective_datetime_rssi example_clock 7 (stamped_sample 990000000)
       = (fst (effective_datetime_rssi (\<lambda>_. 0) 3 (stamped_sample 990000000)), 7)"
    by blast+
  from t2 c d have 3: "effective_datetime example_clock 7 (bare_packet ''B'')
       = (Inr (example_clock 7), Suc 7)"
    and 4: "effective_datetime_rssi example_clock 7 bare_sample = (Inr (example_clock 7), Suc 7)"
    by blast+
  from t1 sn have 5: "length ?es = length (packets ?st) + length (rssi ?st)" by blast
  from a b c d 1 2 3 4 sn 5 show ?thesis by simp
qed

section \<open>Publishing to the subscribers\<close>

lemma full_nonempty: "full q \<Longrightarrow> items q \<noteq> []"
  by (auto simp: full_def split: if_splits)

lemma deliver_result: "deliver q message = Inr (spec_deliver q message)"
proof (cases "full q")
  case False
  then show ?thesis by (simp add: deliver_def put_nowait_def spec_deliver_def)
next
  case True
  then obtain x xs where xs: "items q = x # xs"
    using full_nonempty by (cases "items q") auto
  with True show ?thesis
    by (simp add: deliver_def put_nowait_def get_nowait_def spec_deliver_def)
qed

lemma publish_loop_total: "\<exists>heap'. publish_loop heap ls message = Inr heap'"
  by (induction ls arbitrary: heap) (simp_all add: deliver_result)

lemma publish_loop_result:
  "distinct ls \<Longrightarrow>
     publish_loop heap ls message =
       Inr (\<lambda>q. if q \<in> set ls then spec_deliver (heap q) message else heap q)"
proof (induction ls arbitrary: heap)
  case Nil
  then show ?case by simp
next
  case (Cons q ls)
  then have "publish_loop (heap(q := spec_deliver (heap q) message)) ls message =
       Inr (\<lambda>q'. if q' \<in> set ls
                  then spec_deliver ((heap(q := spec_deliver (heap q) message)) q') message
                  else (heap(q := spec_deliver (heap q) message)) q')"
    by simp
  moreover have "(\<lambda>q'. if q' \<in> set ls
                  then spec_deliver ((heap(q := spec_deliver (heap q) message)) q') message
                  else (heap(q := spec_deliver (heap q) message)) q')
        = (\<lambda>q'. if q' \<in> set (q # ls) then spec_deliver (heap q') message else heap q')"
    using Cons.prems by (intro ext) auto
  ultimately show ?case by (simp add: deliver_result)
qed

text \<open>
  Claim C4. The listeners are a set, so each queue occurs once. When one registered queue
  \<open>qf\<close> is full and no other is, \<^verbatim>\<open>publish\<close> returns; the full queue has lost its
  oldest pending message and ends with the new one; every other registered queue holds
  its former items followed by the new message; the set of listeners and the queues that
  are not registered are as before. \<^verbatim>\<open>publish\<close> returns for every hub and message: it
  never raises. A queue that is still full after the drop keeps the remaining items
  and does not receive the message.
\<close>

theorem publish_drop_oldest:
  assumes "distinct (listeners self)" and "qf \<in> set (listeners self)"
    and "0 < maxsize (queue_heap self qf)"
    and "int (length (items (queue_heap self qf))) = maxsize (queue_heap self qf)"
    and "\<forall>q\<in>set (listeners self). q \<noteq> qf \<longrightarrow> \<not> full (queue_heap self q)"
  shows "(\<exists>hub. publish self message = Inr hub
            \<and> listeners hub = listeners self
            \<and> items (queue_heap hub qf) = tl (items (queue_heap self qf)) @ [message]
            \<and> (\<forall>q\<in>set (listeners self). q \<noteq> qf \<longrightarrow>
                  items (queue_heap hub q) = items (queue_heap self q) @ [message])
            \<and> (\<forall>q. q \<notin> set (listeners self) \<longrightarrow> queue_heap hub q = queue_heap self q))
       \<and> (\<exists>hub. publish other message = Inr hub)
       \<and> (full q0 \<and> full (q0\<lparr>items := tl (items q0)\<rparr>) \<longrightarrow>
            deliver q0 message = Inr (q0\<lparr>items := tl (items q0)\<rparr>))"
proof (intro conjI)
  let ?heap = "\<lambda>q. if q \<in> set (listeners self)
                    then spec_deliver (queue_heap self q) message else queue_heap self q"
  have p: "publish self message = Inr (self\<lparr>queue_heap := ?heap\<rparr>)"
    by (simp add: publish_def publish_loop_result[OF assms(1)])
  have f: "full (queue_heap self qf)" using assms(3,4) by (simp add: full_def)
  have nf: "\<not> full ((queue_heap self qf)\<lparr>items := tl (items (queue_heap self qf))\<rparr>)"
    using assms(3,4) full_nonempty[OF f] by (cases "items (queue_heap self qf)") (auto simp: full_def)
  have qf: "items (?heap qf) = tl (items (queue_heap self qf)) @ [message]"
    using assms(2) f nf by (simp add: spec_deliver_def)
  have others: "\<forall>q\<in>set (listeners self). q \<noteq> qf \<longrightarrow>
                  items (?heap q) = items (queue_heap self q) @ [message]"
    using assms(5) by (simp add: spec_deliver_def)
  show "\<exists>hub. publish self message = Inr hub
            \<and> listeners hub = listeners self
            \<and> items (queue_heap hub qf) = tl (items (queue_heap self qf)) @ [message]
            \<and> (\<forall>q\<in>set (listeners self). q \<noteq> qf \<longrightarrow>
                  items (queue_heap hub q) = items (queue_heap self q) @ [message])
            \<and> (\<forall>q. q \<notin> set (listeners self) \<longrightarrow> queue_heap hub q = queue_heap self q)"
    using p qf others by simp
  show "\<exists>hub. publish other message = Inr hub"
    using publish_loop_total[of "queue_heap other" "listeners other" message]
    by (auto simp: publish_def)
  show "full q0 \<and> full (q0\<lparr>items := tl (items q0)\<rparr>) \<longrightarrow>
            deliver q0 message = Inr (q0\<lparr>items := tl (items q0)\<rparr>)"
    by (simp add: deliver_result spec_deliver_def)
qed

theorem publish_drop_oldest_witness:
  "distinct (listeners example_hub) \<and> 0 \<in> set (listeners example_hub)
   \<and> 0 < maxsize (queue_heap example_hub 0)
   \<and> int (length (items (queue_heap example_hub 0))) = maxsize (queue_heap example_hub 0)
   \<and> \<not> full (queue_heap example_hub 1)
   \<and> (\<exists>hub. publish example_hub (packet_message (bare_packet ''B'')) = Inr hub
         \<and> listeners hub = [1, 0]
         \<and> items (queue_heap hub 0)
             = replicate 511 (packet_message (bare_packet ''A'')) @ [packet_message (bare_packet ''B'')]
         \<and> items (queue_heap hub 1)
             = [packet_message (bare_packet ''A''), packet_message (bare_packet ''B'')])
   \<and> full \<lparr>items = replicate 3 (packet_message (bare_packet ''A'')), maxsize = 1\<rparr>
   \<and> full \<lparr>items = replicate 2 (packet_message (bare_packet ''A'')), maxsize = 1\<rparr>
   \<and> deliver \<lparr>items = replicate 3 (packet_message (bare_packet ''A'')), maxsize = 1\<rparr>
        (packet_message (bare_packet ''B''))
       = Inr \<lparr>items = replicate 2 (packet_message (bare_packet ''A'')), maxsize = 1\<rparr>"
proof -
  let ?a = "packet_message (bare_packet ''A'')"
  let ?b = "packet_message (bare_packet ''B'')"
  let ?q = "\<lparr>items = replicate 3 ?a, maxsize = 1\<rparr>"
  have h1: "distinct (listeners example_hub)" and h2: "0 \<in> set (listeners example_hub)"
    and h3: "0 < maxsize (queue_heap example_hub 0)"
    and h4: "int (length (items (queue_heap example_hub 0))) = maxsize (queue_heap example_hub 0)"
    and h5: "\<forall>q\<in>set (listeners example_hub). q \<noteq> 0 \<longrightarrow> \<not> full (queue_heap example_hub q)"
    and h6: "\<not> full (queue_heap example_hub 1)"
    by (simp_all add: example_hub_def full_def)
  have l: "listeners example_hub = [1, 0]"
    and i0: "items (queue_heap example_hub 0) = replicate 512 ?a"
    and i1: "items (queue_heap example_hub 1) = [?a]"
    by (simp_all add: example_hub_def)
  have t512: "tl (replicate 512 ?a) = replicate 511 ?a"
    by simp
  have f3: "full ?q" and f2: "full (?q\<lparr>items := tl (items ?q)\<rparr>)"
    and r2: "?q\<lparr>items := tl (items ?q)\<rparr> = \<lparr>items = replicate 2 ?a, maxsize = 1\<rparr>"
    by (simp_all add: full_def numeral_3_eq_3 numeral_2_eq_2)
  note t = publish_drop_oldest[OF h1 h2 h3 h4 h5, of ?b example_hub ?q]
  from t obtain hub where hub: "publish example_hub ?b = Inr hub" "listeners hub = listeners example_hub"
    "items (queue_heap hub 0) = tl (items (queue_heap example_hub 0)) @ [?b]"
    "\<forall>q\<in>set (listeners example_hub). q \<noteq> 0 \<longrightarrow>
        items (queue_heap hub q) = items (queue_heap example_hub q) @ [?b]"
    by blast
  from hub(4) have "items (queue_heap hub 1) = items (queue_heap example_hub 1) @ [?b]"
    by (simp add: l)
  with hub have 1: "\<exists>hub. publish example_hub ?b = Inr hub
         \<and> listeners hub = [1, 0]
         \<and> items (queue_heap hub 0) = replicate 511 ?a @ [?b]
         \<and> items (queue_heap hub 1) = [?a, ?b]"
    unfolding l i0 i1 t512 by auto
  from t f3 f2 have "deliver ?q ?b = Inr (?q\<lparr>items := tl (items ?q)\<rparr>)" by blast
  then have 2: "deliver ?q ?b = Inr \<lparr>items = replicate 2 ?a, maxsize = 1\<rparr>"
    unfolding r2 .
  from f2 have f2': "full \<lparr>items = replicate 2 ?a, maxsize = 1\<rparr>" unfolding r2 .
  show ?thesis
    using h1 h2 h3 h4 h6 1 f3 f2' 2 by blast
qed

section \<open>Size and age of a history after an insert\<close>

lemma eff_later_fresh:
  assumes "reads_clock_or_fixed eff" and "mono c" and "0 \<le> w"
    and "fst (eff c n x) = Inr t" and "c n0 - w \<le> t" and "n0 \<le> n" and "n0 \<le> k"
  shows "\<exists>t'. fst (eff c k x) = Inr t' \<and> c n0 - w \<le> t'"
proof -
  from assms(1) consider "\<forall>c n. eff c n x = (Inr (c n), Suc n)" | r where "\<forall>c n. eff c n x = (r, n)"
    unfolding reads_clock_or_fixed_def by blast
  then show ?thesis
  proof cases
    case 1
    have "c n0 \<le> c k" using assms(2,7) by (simp add: monoD)
    with 1 assms(3) show ?thesis by simp
  next
    case 2
    with assms(4,5) show ?thesis by simp
  qed
qed

lemma age_pass_sorted_fresh:
  assumes "reads_clock_or_fixed eff" and "mono c" and "0 \<le> w"
  shows "n0 \<le> n \<Longrightarrow> map (\<lambda>x. fst (eff c n0 x)) xs = map Inr ts \<Longrightarrow> sorted ts \<Longrightarrow>
         y \<in> set (spec_age_pass eff c (c n0 - w) xs n) \<Longrightarrow>
         \<exists>t. fst (eff c n0 y) = Inr t \<and> c n0 - w \<le> t"
proof (induction xs arbitrary: n ts)
  case Nil
  then show ?case by (simp add: spec_age_pass_def)
next
  case (Cons x xs)
  from Cons.prems(2) obtain t0 ts' where ts: "ts = t0 # ts'"
    and x0: "fst (eff c n0 x) = Inr t0"
    and rest: "map (\<lambda>x. fst (eff c n0 x)) xs = map Inr ts'"
    by (cases ts) auto
  have sorted': "sorted ts'" and le: "\<forall>t\<in>set ts'. t0 \<le> t"
    using Cons.prems(3) ts by auto
  obtain r n' where e: "eff c n x = (r, n')" by (cases "eff c n x")
  have n': "n \<le> n'" using eff_index_mono[OF assms(1), of n c x] e by simp
  from assms(1) consider "\<forall>c n. eff c n x = (Inr (c n), Suc n)" | q where "\<forall>c n. eff c n x = (q, n)"
    unfolding reads_clock_or_fixed_def by blast
  then obtain t where t: "r = Inr t" and tt: "t0 \<le> t \<or> t = t0"
  proof cases
    case 1
    have "c n0 \<le> c n" using assms(2) Cons.prems(1) by (simp add: monoD)
    with 1 e x0 that show ?thesis by auto
  next
    case 2
    with e x0 that show ?thesis by auto
  qed
  have all_fresh: "c n0 - w \<le> t0 \<Longrightarrow> z \<in> set (x # xs) \<Longrightarrow>
      \<exists>t. fst (eff c n0 z) = Inr t \<and> c n0 - w \<le> t" for z
  proof -
    assume f: "c n0 - w \<le> t0" and z: "z \<in> set (x # xs)"
    show ?thesis
    proof (cases "z = x")
      case True
      with x0 f show ?thesis by simp
    next
      case False
      with z have "z \<in> set xs" by simp
      then have "fst (eff c n0 z) \<in> set (map Inr ts')" using rest by (metis image_eqI set_map)
      then obtain tz where "tz \<in> set ts'" "fst (eff c n0 z) = Inr tz" by auto
      with le f show ?thesis by force
    qed
  qed
  show ?case
  proof (cases "t < c n0 - w")
    case True
    with e t Cons.prems(4) have "y \<in> set (spec_age_pass eff c (c n0 - w) xs n')"
      by (simp add: spec_age_pass_def)
    moreover have "n0 \<le> n'" using n' Cons.prems(1) by simp
    ultimately show ?thesis using Cons.IH[OF _ rest sorted'] by blast
  next
    case False
    with e t Cons.prems(4) have y: "y \<in> set (x # xs)" by (simp add: spec_age_pass_def)
    have "c n0 - w \<le> t0"
    proof -
      from assms(1) consider "\<forall>c n. eff c n x = (Inr (c n), Suc n)" | q where "\<forall>c n. eff c n x = (q, n)"
        unfolding reads_clock_or_fixed_def by blast
      then show ?thesis
      proof cases
        case 1
        with x0 have "t0 = c n0" by simp
        with assms(3) show ?thesis by simp
      next
        case 2
        with e x0 t have "t = t0" by simp
        with False show ?thesis by simp
      qed
    qed
    from all_fresh[OF this y] show ?thesis .
  qed
qed

lemma spec_evict_fresh:
  assumes "reads_clock_or_fixed eff" and "mono c" and "0 \<le> w"
    and "map (\<lambda>x. fst (eff c n x)) xs = map Inr ts" and "sorted ts"
    and "y \<in> set (spec_evict eff c w m xs n)" and "n \<le> k"
  shows "\<exists>t. fst (eff c k y) = Inr t \<and> c n - w \<le> t"
proof -
  have "y \<in> set (spec_age_pass eff c (c n - w) xs (Suc n))"
    using assms(6) by (rule subsetD[OF spec_evict_subset_age])
  from age_pass_sorted_fresh[OF assms(1-3) _ assms(4,5) this]
  obtain t where t: "fst (eff c n y) = Inr t" "c n - w \<le> t" by auto
  from eff_later_fresh[OF assms(1-3) t(1) t(2) order_refl assms(7)] show ?thesis .
qed

lemma history_bounds:
  assumes "reads_clock_or_fixed eff" and "0 \<le> m"
  shows "int (length (spec_evict eff c w m xs n)) \<le> m
         \<and> (mono c \<and> 0 \<le> w \<and> map (\<lambda>x. fst (eff c n x)) xs = map Inr ts \<and> sorted ts
                 \<longrightarrow> (\<forall>x\<in>set (spec_evict eff c w m xs n). \<forall>k\<ge>n.
                        \<exists>t. fst (eff c k x) = Inr t \<and> c n - w \<le> t))"
  using spec_capacity_pass_length[OF assms(2)] spec_evict_fresh[OF assms(1)]
  by (auto simp: spec_evict_def)

lemma add_packet_returns:
  assumes "add_packet c self packet n = (None, self', n')"
  shows "0 \<le> max_items self" and "max_items self' = max_items self"
    and "retention self' = retention self" and "representable (c n - retention self)"
    and "packets self' = spec_evict effective_datetime c (retention self) (max_items self)
                           (packets self @ [packet]) n"
    and "rssi self' = rssi self"
  using assms by (auto simp: add_packet_result split: if_splits)

lemma add_rssi_returns:
  assumes "add_rssi c self sample n = (None, self', n')"
  shows "0 \<le> max_items self" and "max_items self' = max_items self"
    and "retention self' = retention self" and "representable (c n - retention self)"
    and "rssi self' = spec_evict effective_datetime_rssi c (retention self) (max_items self)
                           (rssi self @ [sample]) n"
    and "packets self' = packets self"
    and "last_seen_by_station self' = last_seen_by_station self"
  using assms by (auto simp: add_rssi_result split: if_splits)

text \<open>
  Claim C1, as stated, fails. \<^verbatim>\<open>_trim\<close> tests the oldest end of the deque only. With a
  window of 60 s, a packet stamped 990000000 s arrives first and a packet stamped
  820000000 s second; the clock reads 1000000000 s and later. Both inserts return, the
  head is fresh, the age pass stops at once, and the second packet stays in the history
  although its effective datetime is below the cutoff of the second insert (and of
  every later one). An insert that raises does not restore the size bound either: the
  item is appended before \<^verbatim>\<open>_trim\<close> runs. With a capacity of 1, a packet whose epoch
  fallback 1000000000000 is beyond year 9999 is appended, its staleness test raises
  ValueError, and it stays at the head; the next insert appends, raises in the same test,
  and leaves two packets in the history.
\<close>

theorem insert_bounds_counterexample:
  "InMemoryStore_init 60 100 = Inr (new_store 60 100)
   \<and> run_ops example_clock (new_store 60 100)
     [AddPacket (stamped_packet ''RECENT'' 990000000),
      AddPacket (stamped_packet ''OLD'' 820000000)] 0
   = ([None, None],
      \<lparr> packets = [stamped_packet ''RECENT'' 990000000, stamped_packet ''OLD'' 820000000],
        rssi = [],
        last_seen_by_station = [(''RECENT'', stamped_packet ''RECENT'' 990000000)],
        retention = 60000000, max_items = 100 \<rparr>, 2)
   \<and> effective_datetime example_clock 2 (stamped_packet ''OLD'' 820000000)
       = (Inr 820000000, 2)
   \<and> (820000000 :: int) < example_clock 1 - 60000000
   \<and> (820000000 :: int) < example_clock 2 - 60000000
   \<and> InMemoryStore_init 60 1 = Inr (new_store 60 1)
   \<and> run_ops example_clock (new_store 60 1)
     [AddPacket (epoch_packet 1000000000000), AddPacket (stamped_packet ''B'' 999500000)] 0
   = ([Some ValueError, Some ValueError],
      \<lparr> packets = [epoch_packet 1000000000000, stamped_packet ''B'' 999500000], rssi = [],
        last_seen_by_station = [(''B'', stamped_packet ''B'' 999500000)],
        retention = 60000000, max_items = 1 \<rparr>, 2)"
  by (simp add: store_defs example_defs InMemoryStore_init_result)

text \<open>
  Claim C1, amended. When \<^verbatim>\<open>add_packet\<close> or \<^verbatim>\<open>add_rssi\<close> returns, the affected history
  holds at most \<open>max_items\<close> items. When moreover the clock does not run backwards, the
  window is not negative and the effective datetimes of the history with the new item,
  read at the time of the insert, are non-decreasing in insertion order, every retained
  item evaluates, at the insert and at every later reading, to an instant not before the
  cutoff \<open>c n - retention\<close> of that insert.
\<close>

theorem insert_bounds:
  "(\<forall>self' n'. add_packet c self packet n = (None, self', n') \<longrightarrow>
        int (length (packets self')) \<le> max_items self'
        \<and> (mono c \<and> 0 \<le> retention self
            \<and> map (\<lambda>x. fst (effective_datetime c n x)) (packets self @ [packet]) = map Inr ts
            \<and> sorted ts
            \<longrightarrow> (\<forall>x\<in>set (packets self'). \<forall>k\<ge>n.
                  \<exists>t. fst (effective_datetime c k x) = Inr t \<and> c n - retention self \<le> t)))
   \<and> (\<forall>self' n'. add_rssi c self sample n = (None, self', n') \<longrightarrow>
        int (length (rssi self')) \<le> max_items self'
        \<and> (mono c \<and> 0 \<le> retention self
            \<and> map (\<lambda>x. fst (effective_datetime_rssi c n x)) (rssi self @ [sample]) = map Inr us
            \<and> sorted us
            \<longrightarrow> (\<forall>x\<in>set (rssi self'). \<forall>k\<ge>n.
                  \<exists>t. fst (effective_datetime_rssi c k x) = Inr t \<and> c n - retention self \<le> t)))"
proof (rule conjI; rule allI; rule allI; rule impI)
  fix self' n'
  assume a: "add_packet c self packet n = (None, self', n')"
  note r = add_packet_returns[OF a]
  note h = history_bounds[OF packet_reads_clock_or_fixed r(1), of c "retention self"
      "packets self @ [packet]" n ts]
  show "int (length (packets self')) \<le> max_items self'
        \<and> (mono c \<and> 0 \<le> retention self
            \<and> map (\<lambda>x. fst (effective_datetime c n x)) (packets self @ [packet]) = map Inr ts
            \<and> sorted ts
            \<longrightarrow> (\<forall>x\<in>set (packets self'). \<forall>k\<ge>n.
                  \<exists>t. fst (effective_datetime c k x) = Inr t \<and> c n - retention self \<le> t))"
    using h unfolding r(2) r(5) by blast
next
  fix self' n'
  assume a: "add_rssi c self sample n = (None, self', n')"
  note r = add_rssi_returns[OF a]
  note h = history_bounds[OF rssi_reads_clock_or_fixed r(1), of c "retention self"
      "rssi self @ [sample]" n us]
  show "int (length (rssi self')) \<le> max_items self'
        \<and> (mono c \<and> 0 \<le> retention self
            \<and> map (\<lambda>x. fst (effective_datetime_rssi c n x)) (rssi self @ [sample]) = map Inr us
            \<and> sorted us
            \<longrightarrow> (\<forall>x\<in>set (rssi self'). \<forall>k\<ge>n.
                  \<exists>t. fst (effective_datetime_rssi c k x) = Inr t \<and> c n - retention self \<le> t))"
    using h unfolding r(2) r(5) by blast
qed


theorem insert_bounds_witness:
  "add_packet example_clock
      \<lparr> packets = [stamped_packet ''A'' 999000000], rssi = [stamped_sample 999000000],
        last_seen_by_station = [(''A'', stamped_packet ''A'' 999000000)],
        retention = 60000000, max_items = 1 \<rparr>
      (stamped_packet ''B'' 999500000) 1
     = (None,
        \<lparr> packets = [stamped_packet ''B'' 999500000], rssi = [stamped_sample 999000000],
          last_seen_by_station = [(''A'', stamped_packet ''A'' 999000000),
                                  (''B'', stamped_packet ''B'' 999500000)],
          retention = 60000000, max_items = 1 \<rparr>, 2)
   \<and> add_rssi example_clock
      \<lparr> packets = [stamped_packet ''A'' 999000000], rssi = [stamped_sample 999000000],
        last_seen_by_station = [(''A'', stamped_packet ''A'' 999000000)],
        retention = 60000000, max_items = 1 \<rparr>
      (stamped_sample 999500000) 1
     = (None,
        \<lparr> packets = [stamped_packet ''A'' 999000000], rssi = [stamped_sample 999500000],
          last_seen_by_station = [(''A'', stamped_packet ''A'' 999000000)],
          retention = 60000000, max_items = 1 \<rparr>, 2)
   \<and> mono example_clock
   \<and> map (\<lambda>x. fst (effective_datetime example_clock 1 x))
        [stamped_packet ''A'' 999000000, stamped_packet ''B'' 999500000]
       = map Inr [999000000, 999500000]
   \<and> map (\<lambda>x. fst (effective_datetime_rssi example_clock 1 x))
        [stamped_sample 999000000, stamped_sample 999500000]
       = map Inr [999000000, 999500000]
   \<and> sorted [999000000 :: int, 999500000]
   \<and> int (length [stamped_packet ''B'' 999500000]) \<le> 1
   \<and> int (length [stamped_sample 999500000]) \<le> 1
   \<and> fst (effective_datetime example_clock 5 (stamped_packet ''B'' 999500000)) = Inr 999500000
   \<and> fst (effective_datetime_rssi example_clock 5 (stamped_sample 999500000)) = Inr 999500000
   \<and> example_clock 1 - 60000000 \<le> 999500000"
proof -
  let ?s = "\<lparr> packets = [stamped_packet ''A'' 999000000], rssi = [stamped_sample 999000000],
        last_seen_by_station = [(''A'', stamped_packet ''A'' 999000000)],
        retention = 60000000, max_items = 1 \<rparr>"
  let ?p = "\<lparr> packets = [stamped_packet ''B'' 999500000], rssi = [stamped_sample 999000000],
          last_seen_by_station = [(''A'', stamped_packet ''A'' 999000000),
                                  (''B'', stamped_packet ''B'' 999500000)],
          retention = 60000000, max_items = 1 \<rparr>"
  let ?r = "\<lparr> packets = [stamped_packet ''A'' 999000000], rssi = [stamped_sample 999500000],
          last_seen_by_station = [(''A'', stamped_packet ''A'' 999000000)],
          retention = 60000000, max_items = 1 \<rparr>"
  have a: "add_packet example_clock ?s (stamped_packet ''B'' 999500000) 1 = (None, ?p, 2)"
    by (simp add: store_defs example_defs)
  have b: "add_rssi example_clock ?s (stamped_sample 999500000) 1 = (None, ?r, 2)"
    by (simp add: store_defs example_defs)
  have m: "mono example_clock" by (rule mono_example_clock)
  have w: "0 \<le> retention ?s" by simp
  have pm: "map (\<lambda>x. fst (effective_datetime example_clock 1 x))
              (packets ?s @ [stamped_packet ''B'' 999500000]) = map Inr [999000000, 999500000]"
    by (simp add: store_defs example_defs)
  have rm: "map (\<lambda>x. fst (effective_datetime_rssi example_clock 1 x))
              (rssi ?s @ [stamped_sample 999500000]) = map Inr [999000000, 999500000]"
    by (simp add: store_defs example_defs)
  have so: "sorted [999000000 :: int, 999500000]" by simp
  note t = insert_bounds[of example_clock ?s "stamped_packet ''B'' 999500000" 1
      "[999000000, 999500000]" "stamped_sample 999500000" "[999000000, 999500000]"]
  from t a have 1: "int (length (packets ?p)) \<le> max_items ?p" by blast
  from t b have 2: "int (length (rssi ?r)) \<le> max_items ?r" by blast
  from t a m w pm so have
    "\<forall>x\<in>set (packets ?p). \<forall>k\<ge>1. \<exists>t. fst (effective_datetime example_clock k x) = Inr t
          \<and> example_clock 1 - retention ?s \<le> t"
    by blast
  then have "\<forall>k\<ge>1. \<exists>t. fst (effective_datetime example_clock k (stamped_packet ''B'' 999500000))
          = Inr t \<and> example_clock 1 - retention ?s \<le> t"
    by simp
  then have "\<exists>t. fst (effective_datetime example_clock 5 (stamped_packet ''B'' 999500000))
          = Inr t \<and> example_clock 1 - retention ?s \<le> t"
    by (rule allE[where x=5]) simp
  then obtain t1 where 3: "fst (effective_datetime example_clock 5 (stamped_packet ''B'' 999500000))
        = Inr t1" "example_clock 1 - retention ?s \<le> t1"
    by blast
  from t b m w rm so have
    "\<forall>x\<in>set (rssi ?r). \<forall>k\<ge>1. \<exists>t. fst (effective_datetime_rssi example_clock k x) = Inr t
          \<and> example_clock 1 - retention ?s \<le> t"
    by blast
  then have "\<forall>k\<ge>1. \<exists>t. fst (effective_datetime_rssi example_clock k (stamped_sample 999500000))
          = Inr t \<and> example_clock 1 - retention ?s \<le> t"
    by simp
  then have "\<exists>t. fst (effective_datetime_rssi example_clock 5 (stamped_sample 999500000))
          = Inr t \<and> example_clock 1 - retention ?s \<le> t"
    by (rule allE[where x=5]) simp
  then obtain t2 where 4: "fst (effective_datetime_rssi example_clock 5 (stamped_sample 999500000))
        = Inr t2" "example_clock 1 - retention ?s \<le> t2"
    by blast
  have t1: "t1 = 999500000" using 3(1) by (simp add: store_defs example_defs)
  have t2: "t2 = 999500000" using 4(1) by (simp add: store_defs example_defs)
  from a b m pm rm so 1 2 3 4 t1 t2 show ?thesis by simp
qed

section \<open>Events without a timestamp\<close>

lemma bare_packet_reads_clock:
  "timestamp p = None \<Longrightarrow> unix_time p = None \<Longrightarrow>
     \<forall>c n. effective_datetime c n p = (Inr (c n), Suc n)"
  by (simp add: effective_datetime_def now_def)

lemma bare_sample_reads_clock:
  "sample_timestamp s = None \<Longrightarrow> \<forall>c n. effective_datetime_rssi c n s = (Inr (c n), Suc n)"
  by (simp add: effective_datetime_rssi_def now_def)

lemma clock_reader_not_stale:
  assumes "mono c" and "0 \<le> w" and "\<forall>c n. eff c n x = (Inr (c n), Suc n)" and "n \<le> k"
  shows "is_stale eff c k x (c n - w) = (Inr False, Suc k)"
proof -
  have "c n \<le> c k" using assms(1,4) by (simp add: monoD)
  with assms(2,3) show ?thesis by (simp add: is_stale_def)
qed

lemma drop_stale_keeps_clock_reader:
  assumes "reads_clock_or_fixed eff" and "mono c" and "0 \<le> w"
    and "\<forall>c n. eff c n x = (Inr (c n), Suc n)"
  shows "n \<le> k \<Longrightarrow> x \<in> set xs \<Longrightarrow> x \<in> set (fst (snd (drop_stale eff c (c n - w) xs k)))"
proof (induction xs arbitrary: k)
  case Nil
  then show ?case by simp
next
  case (Cons y ys)
  obtain r k' where e: "eff c k y = (r, k')" by (cases "eff c k y")
  have k': "k \<le> k'" using eff_index_mono[OF assms(1), of k c y] e by simp
  show ?case
  proof (cases r)
    case (Inl err)
    with e Cons.prems(2) show ?thesis by (simp add: is_stale_def)
  next
    case (Inr t)
    show ?thesis
    proof (cases "t < c n - w")
      case True
      have "c n \<le> c k" using assms(2) Cons.prems(1) by (simp add: monoD)
      with True assms(3) have "t < c k" by simp
      with e Inr assms(4) have "y \<noteq> x" by auto
      with Cons.prems(2) have "x \<in> set ys" by auto
      moreover have "n \<le> k'" using k' Cons.prems(1) by simp
      ultimately have "x \<in> set (fst (snd (drop_stale eff c (c n - w) ys k')))"
        using Cons.IH by blast
      with True e Inr show ?thesis by (simp add: is_stale_def)
    next
      case False
      with e Inr Cons.prems(2) show ?thesis by (simp add: is_stale_def)
    qed
  qed
qed

lemma capacity_evicts:
  assumes "x \<in> set ys" and "x \<notin> set (spec_capacity_pass m ys)"
  shows "m < int (length ys)"
proof (rule ccontr)
  assume "\<not> m < int (length ys)"
  then have "length ys - nat m = 0" by auto
  then have "spec_capacity_pass m ys = ys" by (simp add: spec_capacity_pass_def)
  with assms show False by simp
qed

lemma trim_leaves_by_capacity:
  assumes "reads_clock_or_fixed eff" and "mono c" and "0 \<le> retention self"
    and "\<forall>c n. eff c n x = (Inr (c n), Suc n)"
    and "x \<in> set xs" and "x \<notin> set (fst (snd (trim eff c self xs prune n)))"
  shows "max_items self
           < int (length (fst (snd (drop_stale eff c (c n - retention self) xs (Suc n)))))"
proof -
  let ?ys = "fst (snd (drop_stale eff c (c n - retention self) xs (Suc n)))"
  have ys: "?ys = spec_age_pass eff c (c n - retention self) xs (Suc n)"
    by (rule drop_stale_age)
  have in_ys: "x \<in> set ?ys"
    using drop_stale_keeps_clock_reader[where eff=eff and x=x and n=n and k="Suc n",
        OF assms(1-4)] assms(5)
    by simp
  show ?thesis
  proof (cases "max_items self < 0")
    case True
    have "0 \<le> int (length ?ys)" by simp
    with True show ?thesis by linarith
  next
    case False
    have "fst (snd (trim eff c self xs prune n)) \<in> {xs, ?ys, spec_capacity_pass (max_items self) ?ys}"
      using False by (simp add: trim_result ys spec_evict_def)
    with assms(5,6) in_ys have "x \<notin> set (spec_capacity_pass (max_items self) ?ys)"
      by auto
    with in_ys show ?thesis by (rule capacity_evicts)
  qed
qed

lemma add_packet_trim:
  "packets (fst (snd (add_packet c self q n)))
     = fst (snd (trim effective_datetime c
         (self\<lparr> packets := packets self @ [q],
                last_seen_by_station :=
                  (if truthy (source_callsign q)
                   then AList.update (the (source_callsign q)) q (last_seen_by_station self)
                   else last_seen_by_station self) \<rparr>)
         (packets self @ [q]) True n))"
  by (simp add: add_packet_def Let_def case_prod_beta)

lemma add_rssi_trim:
  "rssi (fst (snd (add_rssi c self r n)))
     = fst (snd (trim effective_datetime_rssi c (self\<lparr>rssi := rssi self @ [r]\<rparr>)
         (rssi self @ [r]) False n))"
  by (simp add: add_rssi_def Let_def case_prod_beta)

text \<open>
  Claim C10, as stated, fails: \<^verbatim>\<open>datetime.now\<close> is the wall clock, which can be set back.
  The clock reads 1000 s for the cutoff of an insert and, set back by 100 s, 900 s and
  1 \<mu>s when the staleness test evaluates the packet without timestamp that was just
  appended. With a window of 60 s the cutoff is 940 s, the test is true, and the age pass
  removes the packet: the insert returns with an empty history although the capacity is
  10. The same happens to a sample without timestamp.
\<close>

theorem unstamped_never_stale_counterexample:
  "InMemoryStore_init 60 10 = Inr (new_store 60 10)
   \<and> timestamp (bare_packet ''A'') = None \<and> unix_time (bare_packet ''A'') = None
   \<and> (0 :: int) < retention (new_store 60 10)
   \<and> effective_datetime stepping_clock 1 (bare_packet ''A'') = (Inr (stepping_clock 1), 2)
   \<and> is_stale effective_datetime stepping_clock 1 (bare_packet ''A'')
        (stepping_clock 0 - retention (new_store 60 10)) = (Inr True, 2)
   \<and> drop_stale effective_datetime stepping_clock
        (stepping_clock 0 - retention (new_store 60 10)) [bare_packet ''A''] 1 = (None, [], 2)
   \<and> add_packet stepping_clock (new_store 60 10) (bare_packet ''A'') 0
        = (None, new_store 60 10, 3)
   \<and> max_items (new_store 60 10) = 10
   \<and> sample_timestamp bare_sample = None
   \<and> is_stale effective_datetime_rssi stepping_clock 1 bare_sample
        (stepping_clock 0 - retention (new_store 60 10)) = (Inr True, 2)
   \<and> add_rssi stepping_clock (new_store 60 10) bare_sample 0 = (None, new_store 60 10, 2)"
  by (simp add: store_defs example_defs)

text \<open>
  Claim C10, amended with the condition on the clock. An event with neither an explicit
  timestamp nor (for a packet) an epoch fallback evaluates to the clock reading of the
  evaluation. With a clock that does not run backwards and a positive window, the
  staleness test against the cutoff of a reading \<open>n\<close> is false at every later evaluation
  \<open>k\<close>; the age pass keeps such an event wherever it stands in the history; and when an
  insert, whether it returns or raises, leaves the event out of its history, the history
  left by the age pass was longer than \<open>max_items\<close>: the event left in the capacity
  pass. Against any instant \<open>t\<close> the test compares the reading of the evaluation with
  \<open>t\<close>.
\<close>

theorem unstamped_never_stale:
  assumes "mono c" and "0 < retention self"
    and "timestamp p = None" and "unix_time p = None" and "sample_timestamp s = None"
    and "n \<le> k"
  shows "effective_datetime c k p = (Inr (c k), Suc k)
       \<and> effective_datetime_rssi c k s = (Inr (c k), Suc k)
       \<and> is_stale effective_datetime c k p (c n - retention self) = (Inr False, Suc k)
       \<and> is_stale effective_datetime_rssi c k s (c n - retention self) = (Inr False, Suc k)
       \<and> (p \<in> set ps \<longrightarrow>
            p \<in> set (fst (snd (drop_stale effective_datetime c (c n - retention self) ps k))))
       \<and> (s \<in> set ss \<longrightarrow>
            s \<in> set (fst (snd (drop_stale effective_datetime_rssi c (c n - retention self) ss k))))
       \<and> (p \<in> set (packets self @ [q])
              \<and> p \<notin> set (packets (fst (snd (add_packet c self q n)))) \<longrightarrow>
            max_items self < int (length (fst (snd (drop_stale effective_datetime c
                                   (c n - retention self) (packets self @ [q]) (Suc n))))))
       \<and> (s \<in> set (rssi self @ [r])
              \<and> s \<notin> set (rssi (fst (snd (add_rssi c self r n)))) \<longrightarrow>
            max_items self < int (length (fst (snd (drop_stale effective_datetime_rssi c
                                   (c n - retention self) (rssi self @ [r]) (Suc n))))))
       \<and> is_stale effective_datetime c k p t = (Inr (c k < t), Suc k)
       \<and> is_stale effective_datetime_rssi c k s t = (Inr (c k < t), Suc k)"
proof -
  have w: "0 \<le> retention self" using assms(2) by simp
  note rp = bare_packet_reads_clock[OF assms(3,4)]
  note rs = bare_sample_reads_clock[OF assms(5)]
  have 1: "effective_datetime c k p = (Inr (c k), Suc k)" using rp by simp
  have 2: "effective_datetime_rssi c k s = (Inr (c k), Suc k)" using rs by simp
  have 3: "is_stale effective_datetime c k p (c n - retention self) = (Inr False, Suc k)"
    using assms(1) w rp assms(6) by (rule clock_reader_not_stale)
  have 4: "is_stale effective_datetime_rssi c k s (c n - retention self) = (Inr False, Suc k)"
    using assms(1) w rs assms(6) by (rule clock_reader_not_stale)
  have 5: "p \<in> set ps \<longrightarrow>
            p \<in> set (fst (snd (drop_stale effective_datetime c (c n - retention self) ps k)))"
    using drop_stale_keeps_clock_reader[where eff=effective_datetime and x=p,
        OF packet_reads_clock_or_fixed assms(1) w rp assms(6)]
    by blast
  have 6: "s \<in> set ss \<longrightarrow>
            s \<in> set (fst (snd (drop_stale effective_datetime_rssi c (c n - retention self) ss k)))"
    using drop_stale_keeps_clock_reader[where eff=effective_datetime_rssi and x=s,
        OF rssi_reads_clock_or_fixed assms(1) w rs assms(6)]
    by blast
  have 7: "p \<in> set (packets self @ [q])
              \<and> p \<notin> set (packets (fst (snd (add_packet c self q n)))) \<longrightarrow>
            max_items self < int (length (fst (snd (drop_stale effective_datetime c
                                   (c n - retention self) (packets self @ [q]) (Suc n)))))"
  proof (intro impI, elim conjE)
    assume a: "p \<in> set (packets self @ [q])"
      "p \<notin> set (packets (fst (snd (add_packet c self q n))))"
    let ?self2 = "self\<lparr> packets := packets self @ [q],
                last_seen_by_station :=
                  (if truthy (source_callsign q)
                   then AList.update (the (source_callsign q)) q (last_seen_by_station self)
                   else last_seen_by_station self) \<rparr>"
    have w2: "0 \<le> retention ?self2" using w by simp
    from a(2) have b: "p \<notin> set (fst (snd (trim effective_datetime c ?self2
         (packets self @ [q]) True n)))"
      unfolding add_packet_trim .
    from trim_leaves_by_capacity[OF packet_reads_clock_or_fixed assms(1) w2 rp a(1) b]
    show "max_items self < int (length (fst (snd (drop_stale effective_datetime c
                                   (c n - retention self) (packets self @ [q]) (Suc n)))))"
      by simp
  qed
  have 8: "s \<in> set (rssi self @ [r])
              \<and> s \<notin> set (rssi (fst (snd (add_rssi c self r n)))) \<longrightarrow>
            max_items self < int (length (fst (snd (drop_stale effective_datetime_rssi c
                                   (c n - retention self) (rssi self @ [r]) (Suc n)))))"
  proof (intro impI, elim conjE)
    assume a: "s \<in> set (rssi self @ [r])"
      "s \<notin> set (rssi (fst (snd (add_rssi c self r n))))"
    let ?self1 = "self\<lparr>rssi := rssi self @ [r]\<rparr>"
    have w2: "0 \<le> retention ?self1" using w by simp
    from a(2) have b: "s \<notin> set (fst (snd (trim effective_datetime_rssi c ?self1
         (rssi self @ [r]) False n)))"
      unfolding add_rssi_trim .
    from trim_leaves_by_capacity[OF rssi_reads_clock_or_fixed assms(1) w2 rs a(1) b]
    show "max_items self < int (length (fst (snd (drop_stale effective_datetime_rssi c
                                   (c n - retention self) (rssi self @ [r]) (Suc n)))))"
      by simp
  qed
  have 9: "is_stale effective_datetime c k p t = (Inr (c k < t), Suc k)"
    using rp by (simp add: is_stale_def)
  have 10: "is_stale effective_datetime_rssi c k s t = (Inr (c k < t), Suc k)"
    using rs by (simp add: is_stale_def)
  from 1 2 3 4 5 6 7 8 9 10 show ?thesis by blast
qed


theorem unstamped_never_stale_witness:
  "mono example_clock
   \<and> 0 < retention \<lparr> packets = [bare_packet ''A''], rssi = [bare_sample],
                      last_seen_by_station = [], retention = 60000000, max_items = 1 \<rparr>
   \<and> timestamp (bare_packet ''A'') = None \<and> unix_time (bare_packet ''A'') = None
   \<and> sample_timestamp bare_sample = None
   \<and> (0::nat) \<le> 1
   \<and> effective_datetime example_clock 1 (bare_packet ''A'') = (Inr (example_clock 1), 2)
   \<and> effective_datetime_rssi example_clock 1 bare_sample = (Inr (example_clock 1), 2)
   \<and> is_stale effective_datetime example_clock 1 (bare_packet ''A'')
        (example_clock 0 - 60000000) = (Inr False, 2)
   \<and> is_stale effective_datetime_rssi example_clock 1 bare_sample
        (example_clock 0 - 60000000) = (Inr False, 2)
   \<and> bare_packet ''A'' \<in> set (fst (snd (drop_stale effective_datetime example_clock
        (example_clock 0 - 60000000) [stamped_packet ''OLD'' 820000000, bare_packet ''A''] 1)))
   \<and> bare_sample \<in> set (fst (snd (drop_stale effective_datetime_rssi example_clock
        (example_clock 0 - 60000000) [stamped_sample 820000000, bare_sample] 1)))
   \<and> add_packet example_clock
        \<lparr> packets = [bare_packet ''A''], rssi = [bare_sample],
          last_seen_by_station = [], retention = 60000000, max_items = 1 \<rparr>
        (stamped_packet ''B'' 999500000) 0
      = (None, \<lparr> packets = [stamped_packet ''B'' 999500000], rssi = [bare_sample],
                 last_seen_by_station = [(''B'', stamped_packet ''B'' 999500000)],
                 retention = 60000000, max_items = 1 \<rparr>, 2)
   \<and> 1 < int (length (fst (snd (drop_stale effective_datetime example_clock
        (example_clock 0 - 60000000) [bare_packet ''A'', stamped_packet ''B'' 999500000] 1))))
   \<and> add_rssi example_clock
        \<lparr> packets = [bare_packet ''A''], rssi = [bare_sample],
          last_seen_by_station = [], retention = 60000000, max_items = 1 \<rparr>
        (stamped_sample 999500000) 0
      = (None, \<lparr> packets = [bare_packet ''A''], rssi = [stamped_sample 999500000],
                 last_seen_by_station = [], retention = 60000000, max_items = 1 \<rparr>, 2)
   \<and> 1 < int (length (fst (snd (drop_stale effective_datetime_rssi example_clock
        (example_clock 0 - 60000000) [bare_sample, stamped_sample 999500000] 1))))"
proof -
  let ?s = "\<lparr> packets = [bare_packet ''A''], rssi = [bare_sample],
          last_seen_by_station = [], retention = 60000000, max_items = 1 \<rparr>"
  let ?s1 = "\<lparr> packets = [stamped_packet ''B'' 999500000], rssi = [bare_sample],
               last_seen_by_station = [(''B'', stamped_packet ''B'' 999500000)],
               retention = 60000000, max_items = 1 \<rparr>"
  let ?s2 = "\<lparr> packets = [bare_packet ''A''], rssi = [stamped_sample 999500000],
               last_seen_by_station = [], retention = 60000000, max_items = 1 \<rparr>"
  have r: "retention ?s = 60000000" and m: "max_items ?s = 1"
    and ps: "packets ?s = [bare_packet ''A'']" and rs: "rssi ?s = [bare_sample]"
    by simp_all
  have h2: "0 < retention ?s" by simp
  have h3: "timestamp (bare_packet ''A'') = None" and h4: "unix_time (bare_packet ''A'') = None"
    and h5: "sample_timestamp bare_sample = None"
    by (simp_all add: example_defs)
  have h6: "(0::nat) \<le> 1" by simp
  have ap: "add_packet example_clock ?s (stamped_packet ''B'' 999500000) 0 = (None, ?s1, 2)"
    by (simp add: store_defs example_defs)
  have ar: "add_rssi example_clock ?s (stamped_sample 999500000) 0 = (None, ?s2, 2)"
    by (simp add: store_defs example_defs)
  have mp: "bare_packet ''A'' \<in> set (packets ?s @ [stamped_packet ''B'' 999500000])"
    "bare_packet ''A'' \<notin> set (packets
        (fst (snd (add_packet example_clock ?s (stamped_packet ''B'' 999500000) 0))))"
    "bare_packet ''A'' \<in> set [stamped_packet ''OLD'' 820000000, bare_packet ''A'']"
    unfolding ap by (simp_all add: example_defs)
  have mr: "bare_sample \<in> set (rssi ?s @ [stamped_sample 999500000])"
    "bare_sample \<notin> set (rssi
        (fst (snd (add_rssi example_clock ?s (stamped_sample 999500000) 0))))"
    "bare_sample \<in> set [stamped_sample 820000000, bare_sample]"
    unfolding ar by (simp_all add: example_defs)
  note t = unstamped_never_stale[OF mono_example_clock h2 h3 h4 h5 h6,
      where ps="[stamped_packet ''OLD'' 820000000, bare_packet ''A'']"
        and ss="[stamped_sample 820000000, bare_sample]"
        and q="stamped_packet ''B'' 999500000" and r="stamped_sample 999500000"]
  from t mp have c7: "max_items ?s < int (length (fst (snd (drop_stale effective_datetime
      example_clock (example_clock 0 - retention ?s)
      (packets ?s @ [stamped_packet ''B'' 999500000]) (Suc 0)))))"
    by blast
  from t mr have c8: "max_items ?s < int (length (fst (snd (drop_stale effective_datetime_rssi
      example_clock (example_clock 0 - retention ?s)
      (rssi ?s @ [stamped_sample 999500000]) (Suc 0)))))"
    by blast
  from t mp mr have c5: "bare_packet ''A'' \<in> set (fst (snd (drop_stale effective_datetime
        example_clock (example_clock 0 - retention ?s)
        [stamped_packet ''OLD'' 820000000, bare_packet ''A''] 1)))"
    and c6: "bare_sample \<in> set (fst (snd (drop_stale effective_datetime_rssi example_clock
        (example_clock 0 - retention ?s) [stamped_sample 820000000, bare_sample] 1)))"
    by blast+
  from t have c1: "effective_datetime example_clock 1 (bare_packet ''A'')
        = (Inr (example_clock 1), Suc 1)"
    and c2: "effective_datetime_rssi example_clock 1 bare_sample = (Inr (example_clock 1), Suc 1)"
    and c3: "is_stale effective_datetime example_clock 1 (bare_packet ''A'')
        (example_clock 0 - retention ?s) = (Inr False, Suc 1)"
    and c4: "is_stale effective_datetime_rssi example_clock 1 bare_sample
        (example_clock 0 - retention ?s) = (Inr False, Suc 1)"
    by blast+
  show ?thesis
    using mono_example_clock h2 h3 h4 h5 ap ar c1 c2 c3 c4 c5 c6 c7 c8
    unfolding r m ps rs by simp
qed

section \<open>The replay snapshot\<close>

lemma evaluates_any:
  assumes "reads_clock_or_fixed eff"
  shows "evaluates eff x = (\<exists>t. fst (eff c n x) = Inr t)"
proof -
  from assms consider "\<forall>c n. eff c n x = (Inr (c n), Suc n)" | r where "\<forall>c n. eff c n x = (r, n)"
    unfolding reads_clock_or_fixed_def by blast
  then show ?thesis
  proof cases
    case 1
    then show ?thesis by (simp add: evaluates_def)
  next
    case 2
    then show ?thesis by (cases r) (simp_all add: evaluates_def)
  qed
qed

lemma packet_entries_returns:
  "(\<exists>es n'. packet_entries c ps n = (Inr es, n')) = list_all (evaluates effective_datetime) ps"
proof (induction ps arbitrary: n)
  case Nil
  then show ?case by simp
next
  case (Cons p ps)
  obtain r n1 where ev: "effective_datetime c n p = (r, n1)"
    by (cases "effective_datetime c n p")
  have e: "evaluates effective_datetime p = (\<exists>t. r = Inr t)"
    using evaluates_any[OF packet_reads_clock_or_fixed, of p c n] ev by simp
  show ?case
  proof (cases r)
    case (Inl err)
    with ev e show ?thesis by simp
  next
    case (Inr t)
    obtain rs n2 where rest: "packet_entries c ps n1 = (rs, n2)"
      by (cases "packet_entries c ps n1")
    have "(\<exists>es. rs = Inr es) = list_all (evaluates effective_datetime) ps"
      using Cons.IH[of n1] rest by simp
    with ev e Inr rest show ?thesis by (cases rs) simp_all
  qed
qed

lemma rssi_entries_returns:
  "(\<exists>es n'. rssi_entries c ss n = (Inr es, n')) = list_all (evaluates effective_datetime_rssi) ss"
proof (induction ss arbitrary: n)
  case Nil
  then show ?case by simp
next
  case (Cons s ss)
  obtain r n1 where ev: "effective_datetime_rssi c n s = (r, n1)"
    by (cases "effective_datetime_rssi c n s")
  have e: "evaluates effective_datetime_rssi s = (\<exists>t. r = Inr t)"
    using evaluates_any[OF rssi_reads_clock_or_fixed, of s c n] ev by simp
  show ?case
  proof (cases r)
    case (Inl err)
    with ev e show ?thesis by simp
  next
    case (Inr t)
    obtain rs n2 where rest: "rssi_entries c ss n1 = (rs, n2)"
      by (cases "rssi_entries c ss n1")
    have "(\<exists>es. rs = Inr es) = list_all (evaluates effective_datetime_rssi) ss"
      using Cons.IH[of n1] rest by simp
    with ev e Inr rest show ?thesis by (cases rs) simp_all
  qed
qed

lemma snapshot_entries_returns:
  "(\<exists>entries n'. snapshot_entries c self n = (Inr entries, n'))
     = (list_all (evaluates effective_datetime) (packets self)
        \<and> list_all (evaluates effective_datetime_rssi) (rssi self))"
proof -
  obtain ps n1 where p: "packet_entries c (packets self) n = (ps, n1)"
    by (cases "packet_entries c (packets self) n")
  obtain rs n2 where r: "rssi_entries c (rssi self) n1 = (rs, n2)"
    by (cases "rssi_entries c (rssi self) n1")
  have a: "(\<exists>es. ps = Inr es) = list_all (evaluates effective_datetime) (packets self)"
    using packet_entries_returns[of c "packets self" n] p by simp
  have b: "(\<exists>es. rs = Inr es) = list_all (evaluates effective_datetime_rssi) (rssi self)"
    using rssi_entries_returns[of c "rssi self" n1] r by simp
  show ?thesis
    using a b p r by (cases ps; cases rs) (simp_all add: snapshot_entries_def)
qed

lemma snapshot_stream_events_ok:
  "snapshot_stream_events c self n = (Inr msgs, n') \<Longrightarrow>
     \<exists>entries. snapshot_entries c self n = (Inr entries, n') \<and> msgs = map snd entries"
  by (cases "snapshot_entries c self n"; cases "fst (snapshot_entries c self n)")
     (auto simp: snapshot_stream_events_def)

lemma snapshot_stream_events_returns:
  "(\<exists>msgs n'. snapshot_stream_events c self n = (Inr msgs, n'))
     = (\<exists>entries n'. snapshot_entries c self n = (Inr entries, n'))"
  by (cases "snapshot_entries c self n"; cases "fst (snapshot_entries c self n)")
     (auto simp: snapshot_stream_events_def)

text \<open>
  Claim C6, as stated, fails on a store the ingestion endpoint can produce. A packet
  whose only stamp is the epoch second 1000000000000, beyond year 9999, passes the
  model's validation (\<^verbatim>\<open>unix_time\<close> has \<^verbatim>\<open>ge=0\<close> only); \<^verbatim>\<open>add_packet\<close> appends it, the
  staleness test raises ValueError, and the packet stays in the history. On that store
  \<^verbatim>\<open>snapshot_stream_events\<close> raises ValueError when it evaluates the packet's effective
  datetime: it returns no list.
\<close>

theorem snapshot_sorted_counterexample:
  "InMemoryStore_init 3600 100 = Inr (new_store 3600 100)
   \<and> run_ops example_clock (new_store 3600 100) [AddPacket (epoch_packet 1000000000000)] 0
       = ([Some ValueError],
          \<lparr> packets = [epoch_packet 1000000000000], rssi = [], last_seen_by_station = [],
            retention = 3600000000, max_items = 100 \<rparr>, 1)
   \<and> snapshot_stream_events example_clock
        \<lparr> packets = [epoch_packet 1000000000000], rssi = [], last_seen_by_station = [],
          retention = 3600000000, max_items = 100 \<rparr> 1
       = (Inl ValueError, 1)"
  by (simp add: store_defs example_defs snapshot_stream_events_def snapshot_entries_def)

text \<open>
  Claim C6, amended. \<^verbatim>\<open>snapshot_stream_events\<close> returns exactly when the effective
  datetime of every retained packet and sample can be evaluated. When it returns, the
  result is the messages of the sorted entries; the entries' effective timestamps are
  non-decreasing; the result has as many messages as the two histories have items;
  entries with equal timestamps keep the order in which they were built (packets in
  history order, then samples): the sort is stable. The entries carry the timestamps
  observed when the histories were read, one evaluation per item, and the messages wrap
  the items.
\<close>

theorem snapshot_sorted:
  "((\<exists>msgs n'. snapshot_stream_events c self n = (Inr msgs, n'))
      = (list_all (evaluates effective_datetime) (packets self)
         \<and> list_all (evaluates effective_datetime_rssi) (rssi self)))
   \<and> (\<forall>msgs n'. snapshot_stream_events c self n = (Inr msgs, n') \<longrightarrow>
        (\<exists>pes res n1.
           packet_entries c (packets self) n = (Inr pes, n1)
           \<and> rssi_entries c (rssi self) n1 = (Inr res, n')
           \<and> snapshot_entries c self n = (Inr (sort_key fst (pes @ res)), n')
           \<and> msgs = map snd (sort_key fst (pes @ res))
           \<and> sorted (map fst (sort_key fst (pes @ res)))
           \<and> length msgs = length (packets self) + length (rssi self)
           \<and> (\<forall>t. filter (\<lambda>e. fst e = t) (sort_key fst (pes @ res))
                  = filter (\<lambda>e. fst e = t) (pes @ res))
           \<and> map fst pes = observed effective_datetime c (packets self) n
           \<and> map snd pes
               = map (\<lambda>p. \<lparr>event_type = EvPacket, payload = Some (PacketDump p)\<rparr>) (packets self)
           \<and> map fst res = observed effective_datetime_rssi c (rssi self) n1
           \<and> map snd res
               = map (\<lambda>s. \<lparr>event_type = EvRssi, payload = Some (RssiDump s)\<rparr>) (rssi self)))"
proof (rule conjI)
  show "(\<exists>msgs n'. snapshot_stream_events c self n = (Inr msgs, n'))
      = (list_all (evaluates effective_datetime) (packets self)
         \<and> list_all (evaluates effective_datetime_rssi) (rssi self))"
    unfolding snapshot_stream_events_returns by (rule snapshot_entries_returns)
next
  show "\<forall>msgs n'. snapshot_stream_events c self n = (Inr msgs, n') \<longrightarrow>
        (\<exists>pes res n1.
           packet_entries c (packets self) n = (Inr pes, n1)
           \<and> rssi_entries c (rssi self) n1 = (Inr res, n')
           \<and> snapshot_entries c self n = (Inr (sort_key fst (pes @ res)), n')
           \<and> msgs = map snd (sort_key fst (pes @ res))
           \<and> sorted (map fst (sort_key fst (pes @ res)))
           \<and> length msgs = length (packets self) + length (rssi self)
           \<and> (\<forall>t. filter (\<lambda>e. fst e = t) (sort_key fst (pes @ res))
                  = filter (\<lambda>e. fst e = t) (pes @ res))
           \<and> map fst pes = observed effective_datetime c (packets self) n
           \<and> map snd pes
               = map (\<lambda>p. \<lparr>event_type = EvPacket, payload = Some (PacketDump p)\<rparr>) (packets self)
           \<and> map fst res = observed effective_datetime_rssi c (rssi self) n1
           \<and> map snd res
               = map (\<lambda>s. \<lparr>event_type = EvRssi, payload = Some (RssiDump s)\<rparr>) (rssi self))"
  proof (rule allI, rule allI, rule impI)
    fix msgs n'
    assume a: "snapshot_stream_events c self n = (Inr msgs, n')"
    from snapshot_stream_events_ok[OF a] obtain entries where
      se: "snapshot_entries c self n = (Inr entries, n')" and m: "msgs = map snd entries"
      by blast
    from snapshot_entries_ok[OF se] obtain pes res n1 where
      p: "packet_entries c (packets self) n = (Inr pes, n1)"
      and r: "rssi_entries c (rssi self) n1 = (Inr res, n')"
      and e: "entries = sort_key fst (pes @ res)"
      by blast
    note po = packet_entries_ok[OF p]
    note ro = rssi_entries_ok[OF r]
    have lp: "length pes = length (packets self)"
      using arg_cong[OF conjunct1[OF conjunct2[OF po]], of length] by simp
    have lr: "length res = length (rssi self)"
      using arg_cong[OF conjunct1[OF conjunct2[OF ro]], of length] by simp
    have 1: "snapshot_entries c self n = (Inr (sort_key fst (pes @ res)), n')"
      using se e by simp
    have 2: "msgs = map snd (sort_key fst (pes @ res))" using m e by simp
    have 3: "sorted (map fst (sort_key fst (pes @ res)))" by (rule sorted_sort_key)
    have 4: "length msgs = length (packets self) + length (rssi self)"
      using 2 lp lr by simp
    have 5: "\<forall>t. filter (\<lambda>e. fst e = t) (sort_key fst (pes @ res))
                  = filter (\<lambda>e. fst e = t) (pes @ res)"
      by (rule allI) (rule sort_key_stable)
    from p r 1 2 3 4 5 po ro show "\<exists>pes res n1.
           packet_entries c (packets self) n = (Inr pes, n1)
           \<and> rssi_entries c (rssi self) n1 = (Inr res, n')
           \<and> snapshot_entries c self n = (Inr (sort_key fst (pes @ res)), n')
           \<and> msgs = map snd (sort_key fst (pes @ res))
           \<and> sorted (map fst (sort_key fst (pes @ res)))
           \<and> length msgs = length (packets self) + length (rssi self)
           \<and> (\<forall>t. filter (\<lambda>e. fst e = t) (sort_key fst (pes @ res))
                  = filter (\<lambda>e. fst e = t) (pes @ res))
           \<and> map fst pes = observed effective_datetime c (packets self) n
           \<and> map snd pes
               = map (\<lambda>p. \<lparr>event_type = EvPacket, payload = Some (PacketDump p)\<rparr>) (packets self)
           \<and> map fst res = observed effective_datetime_rssi c (rssi self) n1
           \<and> map snd res
               = map (\<lambda>s. \<lparr>event_type = EvRssi, payload = Some (RssiDump s)\<rparr>) (rssi self)"
      by blast
  qed
qed


theorem snapshot_sorted_witness:
  "list_all (evaluates effective_datetime)
      [stamped_packet ''B'' 999500000, stamped_packet ''A'' 999000000]
   \<and> list_all (evaluates effective_datetime_rssi) [stamped_sample 999000000]
   \<and> snapshot_stream_events example_clock
        \<lparr> packets = [stamped_packet ''B'' 999500000, stamped_packet ''A'' 999000000],
          rssi = [stamped_sample 999000000],
          last_seen_by_station = [], retention = 60000000, max_items = 10 \<rparr> 0
       = (Inr [\<lparr>event_type = EvPacket,
                 payload = Some (PacketDump (stamped_packet ''A'' 999000000))\<rparr>,
               \<lparr>event_type = EvRssi, payload = Some (RssiDump (stamped_sample 999000000))\<rparr>,
               \<lparr>event_type = EvPacket,
                 payload = Some (PacketDump (stamped_packet ''B'' 999500000))\<rparr>], 0)
   \<and> sorted [999000000 :: int, 999000000, 999500000]
   \<and> length [\<lparr>event_type = EvPacket,
                 payload = Some (PacketDump (stamped_packet ''A'' 999000000))\<rparr>,
               \<lparr>event_type = EvRssi, payload = Some (RssiDump (stamped_sample 999000000))\<rparr>,
               \<lparr>event_type = EvPacket,
                 payload = Some (PacketDump (stamped_packet ''B'' 999500000))\<rparr>]
       = length [stamped_packet ''B'' 999500000, stamped_packet ''A'' 999000000]
         + length [stamped_sample 999000000]"
proof -
  let ?s = "\<lparr> packets = [stamped_packet ''B'' 999500000, stamped_packet ''A'' 999000000],
          rssi = [stamped_sample 999000000],
          last_seen_by_station = [], retention = 60000000, max_items = 10 \<rparr>"
  let ?ms = "[\<lparr>event_type = EvPacket,
                 payload = Some (PacketDump (stamped_packet ''A'' 999000000))\<rparr>,
               \<lparr>event_type = EvRssi, payload = Some (RssiDump (stamped_sample 999000000))\<rparr>,
               \<lparr>event_type = EvPacket,
                 payload = Some (PacketDump (stamped_packet ''B'' 999500000))\<rparr>]"
  have ev: "list_all (evaluates effective_datetime) (packets ?s)"
    "list_all (evaluates effective_datetime_rssi) (rssi ?s)"
    by (simp_all add: evaluates_def store_defs example_defs)
  note t = snapshot_sorted[of example_clock ?s 0]
  from t ev obtain msgs n' where a: "snapshot_stream_events example_clock ?s 0 = (Inr msgs, n')"
    by blast
  from t a obtain pes res n1 where
    p: "packet_entries example_clock (packets ?s) 0 = (Inr pes, n1)"
    and r: "rssi_entries example_clock (rssi ?s) n1 = (Inr res, n')"
    and so: "sorted (map fst (sort_key fst (pes @ res)))"
    and le: "length msgs = length (packets ?s) + length (rssi ?s)"
    by blast
  have sn: "snapshot_stream_events example_clock ?s 0 = (Inr ?ms, 0)"
    by (simp add: snapshot_stream_events_def snapshot_entries_def store_defs example_defs)
  from a sn have m: "msgs = ?ms" and n': "n' = 0" by simp_all
  from p have pes: "pes = [(999500000, \<lparr>event_type = EvPacket,
                 payload = Some (PacketDump (stamped_packet ''B'' 999500000))\<rparr>),
        (999000000, \<lparr>event_type = EvPacket,
                 payload = Some (PacketDump (stamped_packet ''A'' 999000000))\<rparr>)]"
    and n1: "n1 = 0"
    by (simp_all add: store_defs example_defs)
  from r n1 have res: "res = [(999000000, \<lparr>event_type = EvRssi,
        payload = Some (RssiDump (stamped_sample 999000000))\<rparr>)]"
    by (simp add: store_defs example_defs)
  from so have so': "sorted [999000000 :: int, 999000000, 999500000]"
    unfolding pes res by simp
  from le have le': "length ?ms = length (packets ?s) + length (rssi ?s)"
    unfolding m .
  from ev sn so' le' show ?thesis by simp
qed

section \<open>Configuration errors and steady-state operations\<close>

lemma drop_stale_no_error:
  assumes "reads_clock_or_fixed eff"
  shows "list_all (evaluates eff) xs \<Longrightarrow> fst (drop_stale eff c t xs n) = None"
proof (induction xs arbitrary: n)
  case Nil
  then show ?case by simp
next
  case (Cons x xs)
  obtain r n1 where ev: "eff c n x = (r, n1)" by (cases "eff c n x")
  from Cons.prems have "evaluates eff x" by simp
  then obtain u where u: "r = Inr u"
    using evaluates_any[OF assms, of x c n] ev by auto
  from Cons.prems have "list_all (evaluates eff) xs" by simp
  from Cons.IH[OF this, of n1] ev u show ?case by (simp add: is_stale_def)
qed

lemma stale_callsigns_returns:
  "(\<exists>ks n'. stale_callsigns c t index n = (Inr ks, n'))
     = list_all (\<lambda>entry. evaluates effective_datetime (snd entry)) index"
proof (induction index arbitrary: n)
  case Nil
  then show ?case by simp
next
  case (Cons e rest)
  obtain k p where e: "e = (k, p)" by (cases e)
  obtain r n1 where ev: "effective_datetime c n p = (r, n1)"
    by (cases "effective_datetime c n p")
  have ep: "evaluates effective_datetime p = (\<exists>u. r = Inr u)"
    using evaluates_any[OF packet_reads_clock_or_fixed, of p c n] ev by simp
  show ?case
  proof (cases r)
    case (Inl err)
    with ev ep e show ?thesis by simp
  next
    case (Inr u)
    obtain rs n2 where rest: "stale_callsigns c t rest n1 = (rs, n2)"
      by (cases "stale_callsigns c t rest n1")
    have "(\<exists>ks. rs = Inr ks)
            = list_all (\<lambda>entry. evaluates effective_datetime (snd entry)) rest"
      using Cons.IH[of n1] rest by simp
    with ev ep e Inr rest show ?thesis by (cases rs) simp_all
  qed
qed

lemma stations_since_returns:
  "(\<exists>kept n'. stations_since c since index n = (Inr kept, n'))
     = list_all (\<lambda>entry. evaluates effective_datetime (snd entry)) index"
proof (induction index arbitrary: n)
  case Nil
  then show ?case by simp
next
  case (Cons e rest)
  obtain k p where e: "e = (k, p)" by (cases e)
  obtain r n1 where ev: "effective_datetime c n p = (r, n1)"
    by (cases "effective_datetime c n p")
  have ep: "evaluates effective_datetime p = (\<exists>u. r = Inr u)"
    using evaluates_any[OF packet_reads_clock_or_fixed, of p c n] ev by simp
  show ?case
  proof (cases r)
    case (Inl err)
    with ev ep e show ?thesis by simp
  next
    case (Inr u)
    obtain rs n2 where rest: "stations_since c since rest n1 = (rs, n2)"
      by (cases "stations_since c since rest n1")
    have "(\<exists>ks. rs = Inr ks)
            = list_all (\<lambda>entry. evaluates effective_datetime (snd entry)) rest"
      using Cons.IH[of n1] rest by simp
    with ev ep e Inr rest show ?thesis by (cases rs) simp_all
  qed
qed

lemma list_all_update:
  "list_all P al \<Longrightarrow> P (k, v) \<Longrightarrow> list_all P (AList.update k v al)"
  by (induction al) auto

lemma list_all_suffix: "suffix ys xs \<Longrightarrow> list_all P xs \<Longrightarrow> list_all P ys"
  by (auto simp: suffix_def)

lemma prune_ok:
  assumes "list_all (\<lambda>entry. evaluates effective_datetime (snd entry)) index"
  shows "fst (prune_last_seen c t index n) = None
         \<and> list_all (\<lambda>entry. evaluates effective_datetime (snd entry))
              (fst (snd (prune_last_seen c t index n)))"
proof -
  from assms obtain ks n' where ks: "stale_callsigns c t index n = (Inr ks, n')"
    using stale_callsigns_returns[of c t index n] by blast
  have "list_all (\<lambda>entry. evaluates effective_datetime (snd entry))
          (filter (\<lambda>entry. fst entry \<notin> set ks) index)"
    using assms by (simp add: list_all_iff)
  with ks show ?thesis by (simp add: prune_error prune_filter)
qed

lemma add_packet_frame:
  "retention (fst (snd (add_packet c self p n))) = retention self
   \<and> max_items (fst (snd (add_packet c self p n))) = max_items self"
  by (simp add: add_packet_result)

lemma add_rssi_frame:
  "retention (fst (snd (add_rssi c self s n))) = retention self
   \<and> max_items (fst (snd (add_rssi c self s n))) = max_items self"
  by (simp add: add_rssi_result)

lemma add_packet_ok:
  assumes "0 \<le> max_items self" and "representable (c n - retention self)"
    and "store_evaluates self" and "evaluates effective_datetime p"
  shows "fst (add_packet c self p n) = None
         \<and> store_evaluates (fst (snd (add_packet c self p n)))"
proof -
  let ?idx = "if truthy (source_callsign p)
              then AList.update (the (source_callsign p)) p (last_seen_by_station self)
              else last_seen_by_station self"
  let ?n1 = "snd (snd (drop_stale effective_datetime c (c n - retention self)
                         (packets self @ [p]) (Suc n)))"
  have all: "list_all (evaluates effective_datetime) (packets self @ [p])"
    using assms(3,4) by (simp add: store_evaluates_def)
  have ds: "fst (drop_stale effective_datetime c (c n - retention self)
                   (packets self @ [p]) (Suc n)) = None"
    using drop_stale_no_error[OF packet_reads_clock_or_fixed all] .
  have idx: "list_all (\<lambda>entry. evaluates effective_datetime (snd entry)) ?idx"
    using assms(3,4) by (simp add: store_evaluates_def list_all_update)
  note pr = prune_ok[OF idx, of c "c n - retention self" ?n1]
  have ev: "list_all (evaluates effective_datetime)
              (spec_evict effective_datetime c (retention self) (max_items self)
                 (packets self @ [p]) n)"
    using list_all_suffix[OF spec_evict_suffix all] .
  have m: "\<not> max_items self < 0" using assms(1) by simp
  have rs: "list_all (evaluates effective_datetime_rssi) (rssi self)"
    using assms(3) by (simp add: store_evaluates_def)
  show ?thesis
    unfolding add_packet_result using assms(2) ds m pr ev rs
    by (simp add: store_evaluates_def)
qed

lemma add_rssi_ok:
  assumes "0 \<le> max_items self" and "representable (c n - retention self)"
    and "store_evaluates self" and "evaluates effective_datetime_rssi s"
  shows "fst (add_rssi c self s n) = None
         \<and> store_evaluates (fst (snd (add_rssi c self s n)))"
proof -
  have all: "list_all (evaluates effective_datetime_rssi) (rssi self @ [s])"
    using assms(3,4) by (simp add: store_evaluates_def)
  have ds: "fst (drop_stale effective_datetime_rssi c (c n - retention self)
                   (rssi self @ [s]) (Suc n)) = None"
    using drop_stale_no_error[OF rssi_reads_clock_or_fixed all] .
  have ev: "list_all (evaluates effective_datetime_rssi)
              (spec_evict effective_datetime_rssi c (retention self) (max_items self)
                 (rssi self @ [s]) n)"
    using list_all_suffix[OF spec_evict_suffix all] .
  have m: "\<not> max_items self < 0" using assms(1) by simp
  show ?thesis
    unfolding add_rssi_result using assms(2,3) ds m ev
    by (simp add: store_evaluates_def)
qed

lemma apply_op_ok:
  assumes "0 \<le> max_items self" and "representable (c n - retention self)"
    and "store_evaluates self" and "op_evaluates op"
  shows "fst (apply_op c self op n) = None
         \<and> store_evaluates (fst (snd (apply_op c self op n)))
         \<and> retention (fst (snd (apply_op c self op n))) = retention self
         \<and> max_items (fst (snd (apply_op c self op n))) = max_items self"
proof (cases op)
  case (AddPacket p)
  with assms add_packet_ok[of self c n p] add_packet_frame[of c self p n] show ?thesis by simp
next
  case (AddRssi s)
  with assms add_rssi_ok[of self c n s] add_rssi_frame[of c self s n] show ?thesis by simp
qed

lemma run_ops_ok:
  assumes "\<forall>j. representable (c j - w)"
  shows "0 \<le> max_items self \<Longrightarrow> retention self = w \<Longrightarrow> store_evaluates self \<Longrightarrow>
         list_all op_evaluates ops \<Longrightarrow>
         list_all (\<lambda>e. e = None) (fst (run_ops c self ops n))
         \<and> store_evaluates (fst (snd (run_ops c self ops n)))
         \<and> retention (fst (snd (run_ops c self ops n))) = w
         \<and> max_items (fst (snd (run_ops c self ops n))) = max_items self"
proof (induction ops arbitrary: self n)
  case Nil
  then show ?case by simp
next
  case (Cons op ops)
  have r: "representable (c n - retention self)" using assms Cons.prems(2) by simp
  from Cons.prems(4) have o: "op_evaluates op" and os: "list_all op_evaluates ops" by simp_all
  note a = apply_op_ok[where c=c and n=n and self=self and op=op, OF Cons.prems(1) r Cons.prems(3) o]
  let ?s1 = "fst (snd (apply_op c self op n))"
  let ?n1 = "snd (snd (apply_op c self op n))"
  have m1: "0 \<le> max_items ?s1" using a Cons.prems(1) by simp
  have w1: "retention ?s1 = w" using a Cons.prems(2) by simp
  have e1: "store_evaluates ?s1" using a by simp
  from Cons.IH[OF m1 w1 e1 os, of ?n1] a show ?case
    by (simp add: case_prod_beta)
qed

lemma snapshot_store_evaluates:
  "store_evaluates self \<Longrightarrow> \<exists>msgs j. snapshot_stream_events c self n = (Inr msgs, j)"
  using snapshot_entries_returns[of c self n] snapshot_stream_events_returns[of c self n]
  by (simp add: store_evaluates_def)

lemma recent_stations_returns:
  "(\<exists>sts j. recent_stations c self since n = (Inr sts, j))
     = list_all (\<lambda>entry. evaluates effective_datetime (snd entry)) (last_seen_by_station self)"
  unfolding recent_stations_def by (rule stations_since_returns)

lemma create_app_result:
  "create_app r m h b =
     (if r < 60 \<or> m < 1 \<or> h \<le> 0 then Inl ValidationError
      else if r div 86400 \<le> 999999999
      then Inr \<lparr> store = new_store r m, broadcast = BroadcastHub_init, ticks = 0 \<rparr>
      else Inl OverflowError)"
  by (auto simp: create_app_def AppSettings_init_def InMemoryStore_init_result)

lemma negative_capacity_raises:
  "max_items self < 0 \<Longrightarrow>
     fst (add_packet c self p n) \<noteq> None \<and> fst (add_rssi c self s n) \<noteq> None"
  by (simp add: add_packet_result add_rssi_result)


text \<open>
  Claim C8, as stated, fails in both halves. The constructor of the store checks neither
  argument: it builds a store for the window 0 and the capacity 0, and for a negative
  window and a negative capacity, and on the latter store an insert raises IndexError.
  Steady-state operations fail on stores built from settings that pass validation. A
  packet stamped by the epoch second 1000000000000 alone makes \<^verbatim>\<open>add_packet\<close> raise
  ValueError and stays in the history, after which \<^verbatim>\<open>snapshot_stream_events\<close> raises;
  with a source identifier it also stays in the last-seen dictionary, after which
  \<^verbatim>\<open>recent_stations\<close> raises. With a window of 100000000000 s, which passes \<^verbatim>\<open>ge=60\<close>,
  the cutoff leaves the datetime range and every insert raises OverflowError.
\<close>

theorem configuration_checked_counterexample:
  "InMemoryStore_init 0 0 = Inr (new_store 0 0)
   \<and> InMemoryStore_init (- 60) (- 1) = Inr (new_store (- 60) (- 1))
   \<and> add_rssi example_clock (new_store (- 60) (- 1)) (stamped_sample 999000000) 0
       = (Some IndexError, new_store (- 60) (- 1), 1)
   \<and> create_app 3600 100 1 True
       = Inr \<lparr> store = new_store 3600 100, broadcast = BroadcastHub_init, ticks = 0 \<rparr>
   \<and> add_packet example_clock (new_store 3600 100) (epoch_packet 1000000000000) 0
       = (Some ValueError, (new_store 3600 100)\<lparr>packets := [epoch_packet 1000000000000]\<rparr>, 1)
   \<and> snapshot_stream_events example_clock
        ((new_store 3600 100)\<lparr>packets := [epoch_packet 1000000000000]\<rparr>) 1
       = (Inl ValueError, 1)
   \<and> add_packet example_clock (new_store 3600 100)
        ((epoch_packet 1000000000000)\<lparr>source_callsign := Some ''X''\<rparr>) 0
       = (Some ValueError,
          (new_store 3600 100)
            \<lparr>packets := [(epoch_packet 1000000000000)\<lparr>source_callsign := Some ''X''\<rparr>],
             last_seen_by_station :=
               [(''X'', (epoch_packet 1000000000000)\<lparr>source_callsign := Some ''X''\<rparr>)]\<rparr>, 1)
   \<and> recent_stations example_clock
        ((new_store 3600 100)
            \<lparr>packets := [(epoch_packet 1000000000000)\<lparr>source_callsign := Some ''X''\<rparr>],
             last_seen_by_station :=
               [(''X'', (epoch_packet 1000000000000)\<lparr>source_callsign := Some ''X''\<rparr>)]\<rparr>)
        0 1
       = (Inl ValueError, 1)
   \<and> create_app 100000000000 100 1 True
       = Inr \<lparr> store = new_store 100000000000 100, broadcast = BroadcastHub_init, ticks = 0 \<rparr>
   \<and> add_packet example_clock (new_store 100000000000 100) (stamped_packet ''A'' 999000000) 0
       = (Some OverflowError,
          (new_store 100000000000 100)
            \<lparr>packets := [stamped_packet ''A'' 999000000],
             last_seen_by_station := [(''A'', stamped_packet ''A'' 999000000)]\<rparr>, 1)"
  by (simp add: store_defs example_defs create_app_result snapshot_stream_events_def
      snapshot_entries_def recent_stations_def)

text \<open>
  Claim C8, amended. \<^verbatim>\<open>create_app\<close> fails with a validation error exactly when the window
  is below 60 s, the capacity below 1 or the heartbeat interval not positive; with valid
  settings it builds the store, unless the window exceeds the range of \<^verbatim>\<open>timedelta\<close>. The
  constructor of the store accepts every capacity and every window in the range of
  \<^verbatim>\<open>timedelta\<close>, and a new store holds nothing that cannot be evaluated. On a store whose
  capacity is not negative, whose items can all be evaluated, and for which every clock
  reading minus the window is a datetime, no insert of an item that can be evaluated
  raises, for every sequence of inserts; the store keeps these properties, and the
  snapshot and \<^verbatim>\<open>recent_stations\<close> return on it. The snapshot returns exactly when every
  retained item can be evaluated, \<^verbatim>\<open>recent_stations\<close> exactly when every packet of the
  dictionary can. On a store with a negative capacity every insert raises. The other
  read operations copy a collection or take its size and have no failing path.
\<close>

theorem configuration_checked:
  "((create_app r m h b = Inl ValidationError) = (r < 60 \<or> m < 1 \<or> h \<le> 0))
   \<and> (60 \<le> r \<and> 1 \<le> m \<and> 0 < h \<longrightarrow>
        create_app r m h b =
          (if r div 86400 \<le> 999999999
           then Inr \<lparr> store = new_store r m, broadcast = BroadcastHub_init, ticks = 0 \<rparr>
           else Inl OverflowError))
   \<and> InMemoryStore_init w k =
        (if - 999999999 \<le> w div 86400 \<and> w div 86400 \<le> 999999999
         then Inr (new_store w k) else Inl OverflowError)
   \<and> store_evaluates (new_store w k)
   \<and> (0 \<le> max_items self \<and> (\<forall>j. representable (c j - retention self))
        \<and> store_evaluates self \<and> list_all op_evaluates ops \<longrightarrow>
        list_all (\<lambda>e. e = None) (fst (run_ops c self ops n))
        \<and> store_evaluates (fst (snd (run_ops c self ops n)))
        \<and> retention (fst (snd (run_ops c self ops n))) = retention self
        \<and> max_items (fst (snd (run_ops c self ops n))) = max_items self
        \<and> (\<exists>msgs j. snapshot_stream_events c (fst (snd (run_ops c self ops n))) n2
                      = (Inr msgs, j))
        \<and> (\<exists>sts j. recent_stations c (fst (snd (run_ops c self ops n))) since n2
                      = (Inr sts, j)))
   \<and> ((\<exists>msgs j. snapshot_stream_events c self n = (Inr msgs, j))
        = (list_all (evaluates effective_datetime) (packets self)
           \<and> list_all (evaluates effective_datetime_rssi) (rssi self)))
   \<and> ((\<exists>sts j. recent_stations c self since n = (Inr sts, j))
        = list_all (\<lambda>entry. evaluates effective_datetime (snd entry))
            (last_seen_by_station self))
   \<and> (max_items neg < 0 \<longrightarrow>
        fst (add_packet c neg p n) \<noteq> None \<and> fst (add_rssi c neg s n) \<noteq> None)"
proof -
  have 1: "(create_app r m h b = Inl ValidationError) = (r < 60 \<or> m < 1 \<or> h \<le> 0)"
    by (simp add: create_app_result)
  have 2: "60 \<le> r \<and> 1 \<le> m \<and> 0 < h \<longrightarrow>
        create_app r m h b =
          (if r div 86400 \<le> 999999999
           then Inr \<lparr> store = new_store r m, broadcast = BroadcastHub_init, ticks = 0 \<rparr>
           else Inl OverflowError)"
    by (simp add: create_app_result)
  have 3: "InMemoryStore_init w k =
        (if - 999999999 \<le> w div 86400 \<and> w div 86400 \<le> 999999999
         then Inr (new_store w k) else Inl OverflowError)"
    by (rule InMemoryStore_init_result)
  have 4: "store_evaluates (new_store w k)"
    by (simp add: store_evaluates_def new_store_def)
  have 5: "0 \<le> max_items self \<and> (\<forall>j. representable (c j - retention self))
        \<and> store_evaluates self \<and> list_all op_evaluates ops \<longrightarrow>
        list_all (\<lambda>e. e = None) (fst (run_ops c self ops n))
        \<and> store_evaluates (fst (snd (run_ops c self ops n)))
        \<and> retention (fst (snd (run_ops c self ops n))) = retention self
        \<and> max_items (fst (snd (run_ops c self ops n))) = max_items self
        \<and> (\<exists>msgs j. snapshot_stream_events c (fst (snd (run_ops c self ops n))) n2
                      = (Inr msgs, j))
        \<and> (\<exists>sts j. recent_stations c (fst (snd (run_ops c self ops n))) since n2
                      = (Inr sts, j))"
  proof (rule impI, elim conjE)
    assume a: "0 \<le> max_items self" "\<forall>j. representable (c j - retention self)"
      "store_evaluates self" "list_all op_evaluates ops"
    note ok = run_ops_ok[OF a(2) a(1) refl a(3) a(4), of n]
    then have e: "store_evaluates (fst (snd (run_ops c self ops n)))" by blast
    from snapshot_store_evaluates[OF e, of c n2]
    have sn: "\<exists>msgs j. snapshot_stream_events c (fst (snd (run_ops c self ops n))) n2
                      = (Inr msgs, j)" .
    have rs: "\<exists>sts j. recent_stations c (fst (snd (run_ops c self ops n))) since n2
                      = (Inr sts, j)"
      unfolding recent_stations_returns using e by (simp add: store_evaluates_def)
    from ok sn rs
    show "list_all (\<lambda>e. e = None) (fst (run_ops c self ops n))
        \<and> store_evaluates (fst (snd (run_ops c self ops n)))
        \<and> retention (fst (snd (run_ops c self ops n))) = retention self
        \<and> max_items (fst (snd (run_ops c self ops n))) = max_items self
        \<and> (\<exists>msgs j. snapshot_stream_events c (fst (snd (run_ops c self ops n))) n2
                      = (Inr msgs, j))
        \<and> (\<exists>sts j. recent_stations c (fst (snd (run_ops c self ops n))) since n2
                      = (Inr sts, j))"
      by blast
  qed
  have 6: "(\<exists>msgs j. snapshot_stream_events c self n = (Inr msgs, j))
        = (list_all (evaluates effective_datetime) (packets self)
           \<and> list_all (evaluates effective_datetime_rssi) (rssi self))"
    unfolding snapshot_stream_events_returns by (rule snapshot_entries_returns)
  have 7: "(\<exists>sts j. recent_stations c self since n = (Inr sts, j))
        = list_all (\<lambda>entry. evaluates effective_datetime (snd entry))
            (last_seen_by_station self)"
    by (rule recent_stations_returns)
  have 8: "max_items neg < 0 \<longrightarrow>
        fst (add_packet c neg p n) \<noteq> None \<and> fst (add_rssi c neg s n) \<noteq> None"
    using negative_capacity_raises[of neg c p n s] by blast
  from 1 2 3 4 5 6 7 8 show ?thesis by blast
qed


theorem configuration_checked_witness:
  "create_app 59 2 1 True = Inl ValidationError
   \<and> create_app 60 0 1 True = Inl ValidationError
   \<and> create_app 60 2 0 True = Inl ValidationError
   \<and> create_app 60 2 1 True
       = Inr \<lparr> store = new_store 60 2, broadcast = BroadcastHub_init, ticks = 0 \<rparr>
   \<and> create_app 100000000000000 2 1 True = Inl OverflowError
   \<and> InMemoryStore_init 60 2 = Inr (new_store 60 2)
   \<and> store_evaluates (new_store 60 2)
   \<and> 0 \<le> max_items (new_store 60 2)
   \<and> representable (1000000000 - retention (new_store 60 2))
   \<and> list_all op_evaluates
        [AddPacket (stamped_packet ''A'' 999000000), AddRssi bare_sample,
         AddPacket (bare_packet ''B'')]
   \<and> run_ops (\<lambda>_. 1000000000) (new_store 60 2)
        [AddPacket (stamped_packet ''A'' 999000000), AddRssi bare_sample,
         AddPacket (bare_packet ''B'')] 0
       = ([None, None, None],
          \<lparr> packets = [stamped_packet ''A'' 999000000, bare_packet ''B''],
            rssi = [bare_sample],
            last_seen_by_station = [(''A'', stamped_packet ''A'' 999000000),
                                    (''B'', bare_packet ''B'')],
            retention = 60000000, max_items = 2 \<rparr>, 5)
   \<and> list_all (\<lambda>e. e = None) [None :: error option, None, None]
   \<and> store_evaluates
        \<lparr> packets = [stamped_packet ''A'' 999000000, bare_packet ''B''],
          rssi = [bare_sample],
          last_seen_by_station = [(''A'', stamped_packet ''A'' 999000000),
                                  (''B'', bare_packet ''B'')],
          retention = 60000000, max_items = 2 \<rparr>
   \<and> snapshot_stream_events (\<lambda>_. 1000000000)
        \<lparr> packets = [stamped_packet ''A'' 999000000, bare_packet ''B''],
          rssi = [bare_sample],
          last_seen_by_station = [(''A'', stamped_packet ''A'' 999000000),
                                  (''B'', bare_packet ''B'')],
          retention = 60000000, max_items = 2 \<rparr> 5
       = (Inr [\<lparr>event_type = EvPacket,
                 payload = Some (PacketDump (stamped_packet ''A'' 999000000))\<rparr>,
               \<lparr>event_type = EvPacket, payload = Some (PacketDump (bare_packet ''B''))\<rparr>,
               \<lparr>event_type = EvRssi, payload = Some (RssiDump bare_sample)\<rparr>], 7)
   \<and> recent_stations (\<lambda>_. 1000000000)
        \<lparr> packets = [stamped_packet ''A'' 999000000, bare_packet ''B''],
          rssi = [bare_sample],
          last_seen_by_station = [(''A'', stamped_packet ''A'' 999000000),
                                  (''B'', bare_packet ''B'')],
          retention = 60000000, max_items = 2 \<rparr> 999500000 5
       = (Inr [(''B'', bare_packet ''B'')], 6)
   \<and> max_items (new_store 60 (- 1)) < 0
   \<and> fst (add_packet (\<lambda>_. 1000000000) (new_store 60 (- 1))
             (stamped_packet ''A'' 999000000) 0) = Some IndexError
   \<and> fst (add_rssi (\<lambda>_. 1000000000) (new_store 60 (- 1)) bare_sample 0) = Some IndexError"
proof -
  let ?c = "\<lambda>_ :: nat. 1000000000 :: int"
  let ?s = "new_store 60 2"
  let ?ops = "[AddPacket (stamped_packet ''A'' 999000000), AddRssi bare_sample,
         AddPacket (bare_packet ''B'')]"
  let ?s' = "\<lparr> packets = [stamped_packet ''A'' 999000000, bare_packet ''B''],
          rssi = [bare_sample],
          last_seen_by_station = [(''A'', stamped_packet ''A'' 999000000),
                                  (''B'', bare_packet ''B'')],
          retention = 60000000, max_items = 2 \<rparr>"
  let ?neg = "new_store 60 (- 1)"
  note t = configuration_checked[of 60 2 1 True 60 2 ?s ?c ?ops 0 5 999500000 ?neg
      "stamped_packet ''A'' 999000000" bare_sample]
  note t1 = configuration_checked[of 59 2 1 True 60 2 ?s ?c ?ops 0 5 999500000 ?neg
      "stamped_packet ''A'' 999000000" bare_sample]
  note t2 = configuration_checked[of 60 0 1 True 60 2 ?s ?c ?ops 0 5 999500000 ?neg
      "stamped_packet ''A'' 999000000" bare_sample]
  note t3 = configuration_checked[of 60 2 0 True 60 2 ?s ?c ?ops 0 5 999500000 ?neg
      "stamped_packet ''A'' 999000000" bare_sample]
  note t4 = configuration_checked[of 100000000000000 2 1 True 60 2 ?s ?c ?ops 0 5 999500000 ?neg
      "stamped_packet ''A'' 999000000" bare_sample]
  from t1 have v1: "create_app 59 2 1 True = Inl ValidationError" by simp
  from t2 have v2: "create_app 60 0 1 True = Inl ValidationError" by simp
  from t3 have v3: "create_app 60 2 0 True = Inl ValidationError" by simp
  from t have v4: "create_app 60 2 1 True
       = Inr \<lparr> store = new_store 60 2, broadcast = BroadcastHub_init, ticks = 0 \<rparr>"
    by simp
  from t4 have v5: "create_app 100000000000000 2 1 True = Inl OverflowError" by simp
  from t have v6: "InMemoryStore_init 60 2 = Inr (new_store 60 2)" by simp
  from t have v7: "store_evaluates ?s" by blast
  have h1: "0 \<le> max_items ?s" by (simp add: new_store_def)
  have h2: "\<forall>j. representable (?c j - retention ?s)"
    by (simp add: new_store_def representable_def datetime_min_def datetime_max_def)
  have h4: "list_all op_evaluates ?ops"
    by (simp add: evaluates_def store_defs example_defs)
  have run: "run_ops ?c ?s ?ops 0 = ([None, None, None], ?s', 5)"
    by (simp add: store_defs example_defs)
  from t h1 h2 v7 h4 have
    c1: "list_all (\<lambda>e. e = None) (fst (run_ops ?c ?s ?ops 0))"
    and c2: "store_evaluates (fst (snd (run_ops ?c ?s ?ops 0)))"
    and c3: "\<exists>msgs j. snapshot_stream_events ?c (fst (snd (run_ops ?c ?s ?ops 0))) 5
                 = (Inr msgs, j)"
    and c4: "\<exists>sts j. recent_stations ?c (fst (snd (run_ops ?c ?s ?ops 0))) 999500000 5
                 = (Inr sts, j)"
    by blast+
  have sn: "snapshot_stream_events ?c ?s' 5
       = (Inr [\<lparr>event_type = EvPacket,
                 payload = Some (PacketDump (stamped_packet ''A'' 999000000))\<rparr>,
               \<lparr>event_type = EvPacket, payload = Some (PacketDump (bare_packet ''B''))\<rparr>,
               \<lparr>event_type = EvRssi, payload = Some (RssiDump bare_sample)\<rparr>], 7)"
    by (simp add: snapshot_stream_events_def snapshot_entries_def store_defs example_defs)
  have rs: "recent_stations ?c ?s' 999500000 5 = (Inr [(''B'', bare_packet ''B'')], 6)"
    by (simp add: recent_stations_def store_defs example_defs)
  have n1: "max_items ?neg < 0" by (simp add: new_store_def)
  from t n1 have n2: "fst (add_packet ?c ?neg (stamped_packet ''A'' 999000000) 0) \<noteq> None"
    and n3: "fst (add_rssi ?c ?neg bare_sample 0) \<noteq> None"
    by blast+
  have n4: "fst (add_packet ?c ?neg (stamped_packet ''A'' 999000000) 0) = Some IndexError"
    using n2 by (simp add: store_defs example_defs)
  have n5: "fst (add_rssi ?c ?neg bare_sample 0) = Some IndexError"
    using n3 by (simp add: store_defs example_defs)
  have h2': "representable (1000000000 - retention ?s)" using h2 by simp
  from v1 v2 v3 v4 v5 v6 v7 h1 h2' h4 run c1 c2 sn rs n1 n4 n5 c3 c4
  show ?thesis by simp
qed

section \<open>The start of a stream session\<close>

lemma stream_updates_raises:
  "snapshot_stream_events c (store app) (ticks app) = (Inl e, n1) \<Longrightarrow>
     stream_updates c app = (Inl e, app\<lparr>ticks := n1\<rparr>)"
  by (simp add: stream_updates_def)

lemma stream_updates_returns:
  "snapshot_stream_events c (store app) (ticks app) = (Inr msgs, n1) \<Longrightarrow>
     stream_updates c app
       = (Inr \<lparr>initial_messages = msgs, queue = next_ref (broadcast app)\<rparr>,
          app\<lparr>ticks := n1, broadcast := snd (subscribe (broadcast app))\<rparr>)"
  by (simp add: stream_updates_def subscribe_def Let_def)

lemma spec_stream_updates_returns:
  "snapshot_stream_events c (store app) (ticks app) = (Inr msgs, n1) \<Longrightarrow>
     spec_stream_updates c app
       = (Inr \<lparr>initial_messages = msgs, queue = next_ref (broadcast app)\<rparr>,
          app\<lparr>ticks := n1, broadcast := snd (subscribe (broadcast app))\<rparr>)"
  by (simp add: spec_stream_updates_def subscribe_def Let_def)

lemma stream_updates_ok:
  assumes "stream_updates c app = (Inr s, app1)"
  shows "\<exists>msgs n1. snapshot_stream_events c (store app) (ticks app) = (Inr msgs, n1)
           \<and> s = \<lparr>initial_messages = msgs, queue = next_ref (broadcast app)\<rparr>
           \<and> app1 = app\<lparr>ticks := n1, broadcast := snd (subscribe (broadcast app))\<rparr>"
proof -
  obtain r n1 where sn: "snapshot_stream_events c (store app) (ticks app) = (r, n1)"
    by (cases "snapshot_stream_events c (store app) (ticks app)")
  show ?thesis
  proof (cases r)
    case (Inl e)
    with sn assms show ?thesis by (simp add: stream_updates_raises)
  next
    case (Inr msgs)
    with sn assms show ?thesis by (auto simp: stream_updates_returns)
  qed
qed

lemma subscribed_queue:
  "queue_heap (snd (subscribe hub)) (next_ref hub) = \<lparr>items = [], maxsize = 512\<rparr>
   \<and> next_ref hub \<in> set (listeners (snd (subscribe hub)))
   \<and> (distinct (listeners hub) \<longrightarrow> distinct (listeners (snd (subscribe hub))))"
  by (simp add: subscribe_def Let_def)

lemma publish_to_empty_queue:
  assumes "distinct (listeners hub)" and "q \<in> set (listeners hub)"
    and "queue_heap hub q = \<lparr>items = [], maxsize = 512\<rparr>"
    and "publish hub message = Inr hub'"
  shows "items (queue_heap hub' q) = [message]"
  using assms by (auto simp: publish_def publish_loop_result spec_deliver_def full_def)

lemma ingest_packet_ok:
  assumes "ingest_packets c app [p] = (None, app')"
  shows "\<exists>st n hub. add_packet c (store app) p (ticks app) = (None, st, n)
           \<and> publish (broadcast app) \<lparr>event_type = EvPacket, payload = Some (PacketDump p)\<rparr>
               = Inr hub
           \<and> app' = app\<lparr>store := st, ticks := n, broadcast := hub\<rparr>"
proof -
  obtain e st n where a: "add_packet c (store app) p (ticks app) = (e, st, n)"
    by (cases "add_packet c (store app) p (ticks app)")
  from assms a have e: "e = None" by (cases e) simp_all
  obtain r where r: "publish (broadcast app)
      \<lparr>event_type = EvPacket, payload = Some (PacketDump p)\<rparr> = r"
    by simp
  from assms a e r obtain hub where hub: "r = Inr hub" by (cases r) simp_all
  from assms a e r hub show ?thesis by simp
qed

lemma ingest_sample_ok:
  assumes "ingest_rssi c app [x] = (None, app')"
  shows "\<exists>st n hub. add_rssi c (store app) x (ticks app) = (None, st, n)
           \<and> publish (broadcast app) \<lparr>event_type = EvRssi, payload = Some (RssiDump x)\<rparr>
               = Inr hub
           \<and> app' = app\<lparr>store := st, ticks := n, broadcast := hub\<rparr>"
proof -
  obtain e st n where a: "add_rssi c (store app) x (ticks app) = (e, st, n)"
    by (cases "add_rssi c (store app) x (ticks app)")
  from assms a have e: "e = None" by (cases e) simp_all
  obtain r where r: "publish (broadcast app)
      \<lparr>event_type = EvRssi, payload = Some (RssiDump x)\<rparr> = r"
    by simp
  from assms a e r obtain hub where hub: "r = Inr hub" by (cases r) simp_all
  from assms a e r hub show ?thesis by simp
qed

lemma snapshot_messages:
  assumes "snapshot_stream_events c self n = (Inr msgs, n')"
  shows "set msgs = (\<lambda>p. \<lparr>event_type = EvPacket, payload = Some (PacketDump p)\<rparr>) ` set (packets self)
                    \<union> (\<lambda>x. \<lparr>event_type = EvRssi, payload = Some (RssiDump x)\<rparr>) ` set (rssi self)"
    and "length msgs = length (packets self) + length (rssi self)"
proof -
  from snapshot_stream_events_ok[OF assms] obtain entries where
    se: "snapshot_entries c self n = (Inr entries, n')" and m: "msgs = map snd entries"
    by blast
  from snapshot_entries_ok[OF se] obtain pes res n1 where
    p: "packet_entries c (packets self) n = (Inr pes, n1)"
    and r: "rssi_entries c (rssi self) n1 = (Inr res, n')"
    and e: "entries = sort_key fst (pes @ res)"
    by blast
  from packet_entries_ok[OF p] have mp: "map snd pes
      = map (\<lambda>p. \<lparr>event_type = EvPacket, payload = Some (PacketDump p)\<rparr>) (packets self)"
    by blast
  from rssi_entries_ok[OF r] have mr: "map snd res
      = map (\<lambda>x. \<lparr>event_type = EvRssi, payload = Some (RssiDump x)\<rparr>) (rssi self)"
    by blast
  have "set msgs = snd ` set (pes @ res)" using m e by simp
  also have "\<dots> = set (map snd pes) \<union> set (map snd res)" by (simp add: image_Un)
  finally show "set msgs
      = (\<lambda>p. \<lparr>event_type = EvPacket, payload = Some (PacketDump p)\<rparr>) ` set (packets self)
        \<union> (\<lambda>x. \<lparr>event_type = EvRssi, payload = Some (RssiDump x)\<rparr>) ` set (rssi self)"
    unfolding mp mr by simp
  have "length msgs = length (map snd pes) + length (map snd res)" using m e by simp
  then show "length msgs = length (packets self) + length (rssi self)"
    unfolding mp mr by simp
qed


lemma publish_total: "\<exists>hub. publish self message = Inr hub"
  using publish_loop_total[of "queue_heap self" "listeners self" message]
  by (auto simp: publish_def)

lemma ingest_packet_returns:
  assumes "fst (add_packet c (store app) p (ticks app)) = None"
  shows "fst (ingest_packets c app [p]) = None"
proof -
  obtain e st n where a: "add_packet c (store app) p (ticks app) = (e, st, n)"
    by (cases "add_packet c (store app) p (ticks app)")
  obtain hub where "publish (broadcast app)
      \<lparr>event_type = EvPacket, payload = Some (PacketDump p)\<rparr> = Inr hub"
    using publish_total by blast
  with a assms show ?thesis by simp
qed

lemma ingest_sample_returns:
  assumes "fst (add_rssi c (store app) x (ticks app)) = None"
  shows "fst (ingest_rssi c app [x]) = None"
proof -
  obtain e st n where a: "add_rssi c (store app) x (ticks app) = (e, st, n)"
    by (cases "add_rssi c (store app) x (ticks app)")
  obtain hub where "publish (broadcast app)
      \<lparr>event_type = EvRssi, payload = Some (RssiDump x)\<rparr> = Inr hub"
    using publish_total by blast
  with a assms show ?thesis by simp
qed

lemma stream_updates_ticks:
  "ticks (snd (stream_updates c app)) = snd (snapshot_stream_events c (store app) (ticks app))"
  by (simp add: stream_updates_def case_prod_beta Let_def split: sum.splits)

text \<open>
  Claim C3, as stated, fails: \<^verbatim>\<open>stream_updates\<close> captures the snapshot first and subscribes
  second. The order shows when the capture raises. The application is built from valid
  settings; a request ingests a packet stamped by the epoch second 1000000000000 alone,
  \<^verbatim>\<open>add_packet\<close> raises ValueError and the packet stays in the history. A session that
  starts now raises ValueError in \<^verbatim>\<open>snapshot_stream_events\<close> and the hub has no
  listener: \<^verbatim>\<open>subscribe\<close> was not reached. A session that subscribed before capturing the
  snapshot would have left its queue registered in the hub.
\<close>

theorem snapshot_then_subscribe_counterexample:
  "create_app 3600 100 1 True
     = Inr \<lparr> store = new_store 3600 100, broadcast = BroadcastHub_init, ticks = 0 \<rparr>
   \<and> ingest_packets example_clock
        \<lparr> store = new_store 3600 100, broadcast = BroadcastHub_init, ticks = 0 \<rparr>
        [epoch_packet 1000000000000]
       = (Some ValueError,
          \<lparr> store = (new_store 3600 100)\<lparr>packets := [epoch_packet 1000000000000]\<rparr>,
            broadcast = BroadcastHub_init, ticks = 1 \<rparr>)
   \<and> stream_updates example_clock
        \<lparr> store = (new_store 3600 100)\<lparr>packets := [epoch_packet 1000000000000]\<rparr>,
          broadcast = BroadcastHub_init, ticks = 1 \<rparr>
       = (Inl ValueError,
          \<lparr> store = (new_store 3600 100)\<lparr>packets := [epoch_packet 1000000000000]\<rparr>,
            broadcast = BroadcastHub_init, ticks = 1 \<rparr>)
   \<and> listeners BroadcastHub_init = []
   \<and> fst (spec_stream_updates example_clock
        \<lparr> store = (new_store 3600 100)\<lparr>packets := [epoch_packet 1000000000000]\<rparr>,
          broadcast = BroadcastHub_init, ticks = 1 \<rparr>) = Inl ValueError
   \<and> listeners (broadcast (snd (spec_stream_updates example_clock
        \<lparr> store = (new_store 3600 100)\<lparr>packets := [epoch_packet 1000000000000]\<rparr>,
          broadcast = BroadcastHub_init, ticks = 1 \<rparr>))) = [0]
   \<and> stream_updates example_clock
        \<lparr> store = (new_store 3600 100)\<lparr>packets := [epoch_packet 1000000000000]\<rparr>,
          broadcast = BroadcastHub_init, ticks = 1 \<rparr>
       \<noteq> spec_stream_updates example_clock
        \<lparr> store = (new_store 3600 100)\<lparr>packets := [epoch_packet 1000000000000]\<rparr>,
          broadcast = BroadcastHub_init, ticks = 1 \<rparr>"
  by (simp add: store_defs example_defs create_app_result stream_updates_def
      spec_stream_updates_def snapshot_stream_events_def snapshot_entries_def
      subscribe_def BroadcastHub_init_def Let_def)

text \<open>
  Claim C3, amended. When the capture of the snapshot raises, the session start raises
  the same exception and leaves the hub and the store as they were. When it returns, the
  session holds the snapshot as its replay and a new, empty queue registered in the hub;
  nothing runs between the two statements, and the result is the one of subscribing
  first. The replay holds one message per retained packet and sample. A packet or sample
  ingested after the start of the session, on a hub whose listeners are distinct, is
  delivered through the queue: the session has to emit its replay followed by that one
  message. A packet ingested before the start of the session is not in the queue; it is
  in the replay exactly when it is still retained. An event is delivered to the session
  once: the start of a session neither duplicates nor misses an event.
\<close>

theorem snapshot_then_subscribe:
  "(\<forall>e n1. snapshot_stream_events c (store app) (ticks app) = (Inl e, n1) \<longrightarrow>
       fst (stream_updates c app) = Inl e
       \<and> broadcast (snd (stream_updates c app)) = broadcast app
       \<and> store (snd (stream_updates c app)) = store app)
   \<and> (\<forall>msgs n1. snapshot_stream_events c (store app) (ticks app) = (Inr msgs, n1) \<longrightarrow>
       stream_updates c app = spec_stream_updates c app
       \<and> fst (stream_updates c app)
           = Inr \<lparr>initial_messages = msgs, queue = next_ref (broadcast app)\<rparr>
       \<and> broadcast (snd (stream_updates c app)) = snd (subscribe (broadcast app)))
   \<and> (\<forall>s app1. stream_updates c app = (Inr s, app1) \<longrightarrow>
       store app1 = store app
       \<and> queue s \<in> set (listeners (broadcast app1))
       \<and> items (queue_heap (broadcast app1) (queue s)) = []
       \<and> set (initial_messages s)
           = (\<lambda>p. \<lparr>event_type = EvPacket, payload = Some (PacketDump p)\<rparr>)
               ` set (packets (store app))
             \<union> (\<lambda>x. \<lparr>event_type = EvRssi, payload = Some (RssiDump x)\<rparr>)
               ` set (rssi (store app))
       \<and> length (initial_messages s) = length (packets (store app)) + length (rssi (store app))
       \<and> session_feed app1 s = initial_messages s)
   \<and> (\<forall>s app1 app2. distinct (listeners (broadcast app))
         \<and> stream_updates c app = (Inr s, app1) \<and> ingest_packets c app1 [p] = (None, app2) \<longrightarrow>
       session_feed app2 s
         = initial_messages s @ [\<lparr>event_type = EvPacket, payload = Some (PacketDump p)\<rparr>])
   \<and> (\<forall>s app1 app2. distinct (listeners (broadcast app))
         \<and> stream_updates c app = (Inr s, app1) \<and> ingest_rssi c app1 [x] = (None, app2) \<longrightarrow>
       session_feed app2 s
         = initial_messages s @ [\<lparr>event_type = EvRssi, payload = Some (RssiDump x)\<rparr>])
   \<and> (\<forall>app1 s app2. ingest_packets c app [p] = (None, app1)
         \<and> stream_updates c app1 = (Inr s, app2) \<longrightarrow>
       session_feed app2 s = initial_messages s
       \<and> (\<lparr>event_type = EvPacket, payload = Some (PacketDump p)\<rparr> \<in> set (initial_messages s))
           = (p \<in> set (packets (store app1))))"
proof -
  have 1: "\<forall>e n1. snapshot_stream_events c (store app) (ticks app) = (Inl e, n1) \<longrightarrow>
       fst (stream_updates c app) = Inl e
       \<and> broadcast (snd (stream_updates c app)) = broadcast app
       \<and> store (snd (stream_updates c app)) = store app"
    by (simp add: stream_updates_raises)
  have 2: "\<forall>msgs n1. snapshot_stream_events c (store app) (ticks app) = (Inr msgs, n1) \<longrightarrow>
       stream_updates c app = spec_stream_updates c app
       \<and> fst (stream_updates c app)
           = Inr \<lparr>initial_messages = msgs, queue = next_ref (broadcast app)\<rparr>
       \<and> broadcast (snd (stream_updates c app)) = snd (subscribe (broadcast app))"
    by (simp add: stream_updates_returns spec_stream_updates_returns)
  have started: "store app1 = store a
       \<and> queue s \<in> set (listeners (broadcast app1))
       \<and> items (queue_heap (broadcast app1) (queue s)) = []
       \<and> set (initial_messages s)
           = (\<lambda>p. \<lparr>event_type = EvPacket, payload = Some (PacketDump p)\<rparr>)
               ` set (packets (store a))
             \<union> (\<lambda>x. \<lparr>event_type = EvRssi, payload = Some (RssiDump x)\<rparr>)
               ` set (rssi (store a))
       \<and> length (initial_messages s) = length (packets (store a)) + length (rssi (store a))
       \<and> session_feed app1 s = initial_messages s"
    if su: "stream_updates c a = (Inr s, app1)" for a s app1
  proof -
    from stream_updates_ok[OF su] obtain msgs n1 where
      sn: "snapshot_stream_events c (store a) (ticks a) = (Inr msgs, n1)"
      and s: "s = \<lparr>initial_messages = msgs, queue = next_ref (broadcast a)\<rparr>"
      and app1: "app1 = a\<lparr>ticks := n1, broadcast := snd (subscribe (broadcast a))\<rparr>"
      by blast
    note q = subscribed_queue[of "broadcast a"]
    note m = snapshot_messages[OF sn]
    show ?thesis using q m s app1 by (simp add: session_feed_def)
  qed
  have 3: "\<forall>s app1. stream_updates c app = (Inr s, app1) \<longrightarrow>
       store app1 = store app
       \<and> queue s \<in> set (listeners (broadcast app1))
       \<and> items (queue_heap (broadcast app1) (queue s)) = []
       \<and> set (initial_messages s)
           = (\<lambda>p. \<lparr>event_type = EvPacket, payload = Some (PacketDump p)\<rparr>)
               ` set (packets (store app))
             \<union> (\<lambda>x. \<lparr>event_type = EvRssi, payload = Some (RssiDump x)\<rparr>)
               ` set (rssi (store app))
       \<and> length (initial_messages s) = length (packets (store app)) + length (rssi (store app))
       \<and> session_feed app1 s = initial_messages s"
    using started by blast
  have live: "items (queue_heap hub' (queue s)) = [message]"
    if d: "distinct (listeners (broadcast app))"
      and su: "stream_updates c app = (Inr s, app1)"
      and pb: "publish (broadcast app1) message = Inr hub'"
    for s app1 message hub'
  proof -
    from stream_updates_ok[OF su] obtain msgs n1 where
      s: "s = \<lparr>initial_messages = msgs, queue = next_ref (broadcast app)\<rparr>"
      and app1: "app1 = app\<lparr>ticks := n1, broadcast := snd (subscribe (broadcast app))\<rparr>"
      by blast
    note q = subscribed_queue[of "broadcast app"]
    have d1: "distinct (listeners (broadcast app1))" using q d app1 by simp
    have m1: "queue s \<in> set (listeners (broadcast app1))" using q s app1 by simp
    have e1: "queue_heap (broadcast app1) (queue s) = \<lparr>items = [], maxsize = 512\<rparr>"
      using q s app1 by simp
    from publish_to_empty_queue[OF d1 m1 e1 pb] show ?thesis .
  qed
  have 4: "\<forall>s app1 app2. distinct (listeners (broadcast app))
         \<and> stream_updates c app = (Inr s, app1) \<and> ingest_packets c app1 [p] = (None, app2) \<longrightarrow>
       session_feed app2 s
         = initial_messages s @ [\<lparr>event_type = EvPacket, payload = Some (PacketDump p)\<rparr>]"
  proof (intro allI impI, elim conjE)
    fix s app1 app2
    assume d: "distinct (listeners (broadcast app))"
      and su: "stream_updates c app = (Inr s, app1)"
      and ing: "ingest_packets c app1 [p] = (None, app2)"
    from ingest_packet_ok[OF ing] obtain st n hub where
      pb: "publish (broadcast app1) \<lparr>event_type = EvPacket, payload = Some (PacketDump p)\<rparr>
             = Inr hub"
      and app2: "app2 = app1\<lparr>store := st, ticks := n, broadcast := hub\<rparr>"
      by blast
    from live[OF d su pb] app2 show "session_feed app2 s
         = initial_messages s @ [\<lparr>event_type = EvPacket, payload = Some (PacketDump p)\<rparr>]"
      by (simp add: session_feed_def)
  qed
  have 5: "\<forall>s app1 app2. distinct (listeners (broadcast app))
         \<and> stream_updates c app = (Inr s, app1) \<and> ingest_rssi c app1 [x] = (None, app2) \<longrightarrow>
       session_feed app2 s
         = initial_messages s @ [\<lparr>event_type = EvRssi, payload = Some (RssiDump x)\<rparr>]"
  proof (intro allI impI, elim conjE)
    fix s app1 app2
    assume d: "distinct (listeners (broadcast app))"
      and su: "stream_updates c app = (Inr s, app1)"
      and ing: "ingest_rssi c app1 [x] = (None, app2)"
    from ingest_sample_ok[OF ing] obtain st n hub where
      pb: "publish (broadcast app1) \<lparr>event_type = EvRssi, payload = Some (RssiDump x)\<rparr>
             = Inr hub"
      and app2: "app2 = app1\<lparr>store := st, ticks := n, broadcast := hub\<rparr>"
      by blast
    from live[OF d su pb] app2 show "session_feed app2 s
         = initial_messages s @ [\<lparr>event_type = EvRssi, payload = Some (RssiDump x)\<rparr>]"
      by (simp add: session_feed_def)
  qed
  have 6: "\<forall>app1 s app2. ingest_packets c app [p] = (None, app1)
         \<and> stream_updates c app1 = (Inr s, app2) \<longrightarrow>
       session_feed app2 s = initial_messages s
       \<and> (\<lparr>event_type = EvPacket, payload = Some (PacketDump p)\<rparr> \<in> set (initial_messages s))
           = (p \<in> set (packets (store app1)))"
  proof (intro allI impI, elim conjE)
    fix app1 s app2
    assume su: "stream_updates c app1 = (Inr s, app2)"
    from started[OF su] show "session_feed app2 s = initial_messages s
       \<and> (\<lparr>event_type = EvPacket, payload = Some (PacketDump p)\<rparr> \<in> set (initial_messages s))
           = (p \<in> set (packets (store app1)))"
      by auto
  qed
  from 1 2 3 4 5 6 show ?thesis by blast
qed


theorem snapshot_then_subscribe_witness:
  "snapshot_stream_events example_clock
      ((new_store 3600 100)\<lparr>packets := [epoch_packet 1000000000000]\<rparr>) 1
     = (Inl ValueError, 1)
   \<and> fst (stream_updates example_clock
        \<lparr> store = (new_store 3600 100)\<lparr>packets := [epoch_packet 1000000000000]\<rparr>,
          broadcast = BroadcastHub_init, ticks = 1 \<rparr>) = Inl ValueError
   \<and> broadcast (snd (stream_updates example_clock
        \<lparr> store = (new_store 3600 100)\<lparr>packets := [epoch_packet 1000000000000]\<rparr>,
          broadcast = BroadcastHub_init, ticks = 1 \<rparr>)) = BroadcastHub_init
   \<and> fst (ingest_packets example_clock
        \<lparr> store = new_store 60 10, broadcast = BroadcastHub_init, ticks = 0 \<rparr>
        [stamped_packet ''A'' 999000000]) = None
   \<and> packets (store (snd (ingest_packets example_clock
        \<lparr> store = new_store 60 10, broadcast = BroadcastHub_init, ticks = 0 \<rparr>
        [stamped_packet ''A'' 999000000]))) = [stamped_packet ''A'' 999000000]
   \<and> distinct (listeners (broadcast (snd (ingest_packets example_clock
        \<lparr> store = new_store 60 10, broadcast = BroadcastHub_init, ticks = 0 \<rparr>
        [stamped_packet ''A'' 999000000]))))
   \<and> fst (stream_updates example_clock (snd (ingest_packets example_clock
        \<lparr> store = new_store 60 10, broadcast = BroadcastHub_init, ticks = 0 \<rparr>
        [stamped_packet ''A'' 999000000])))
       = Inr \<lparr>initial_messages = [packet_message (stamped_packet ''A'' 999000000)], queue = 0\<rparr>
   \<and> stream_updates example_clock (snd (ingest_packets example_clock
        \<lparr> store = new_store 60 10, broadcast = BroadcastHub_init, ticks = 0 \<rparr>
        [stamped_packet ''A'' 999000000]))
       = spec_stream_updates example_clock (snd (ingest_packets example_clock
        \<lparr> store = new_store 60 10, broadcast = BroadcastHub_init, ticks = 0 \<rparr>
        [stamped_packet ''A'' 999000000]))
   \<and> session_feed
        (snd (stream_updates example_clock (snd (ingest_packets example_clock
           \<lparr> store = new_store 60 10, broadcast = BroadcastHub_init, ticks = 0 \<rparr>
           [stamped_packet ''A'' 999000000]))))
        \<lparr>initial_messages = [packet_message (stamped_packet ''A'' 999000000)], queue = 0\<rparr>
       = [packet_message (stamped_packet ''A'' 999000000)]
   \<and> fst (ingest_packets example_clock
        (snd (stream_updates example_clock (snd (ingest_packets example_clock
           \<lparr> store = new_store 60 10, broadcast = BroadcastHub_init, ticks = 0 \<rparr>
           [stamped_packet ''A'' 999000000]))))
        [stamped_packet ''B'' 999500000]) = None
   \<and> session_feed
        (snd (ingest_packets example_clock
          (snd (stream_updates example_clock (snd (ingest_packets example_clock
             \<lparr> store = new_store 60 10, broadcast = BroadcastHub_init, ticks = 0 \<rparr>
             [stamped_packet ''A'' 999000000]))))
          [stamped_packet ''B'' 999500000]))
        \<lparr>initial_messages = [packet_message (stamped_packet ''A'' 999000000)], queue = 0\<rparr>
       = [packet_message (stamped_packet ''A'' 999000000),
          packet_message (stamped_packet ''B'' 999500000)]
   \<and> fst (ingest_rssi example_clock
        (snd (stream_updates example_clock (snd (ingest_packets example_clock
           \<lparr> store = new_store 60 10, broadcast = BroadcastHub_init, ticks = 0 \<rparr>
           [stamped_packet ''A'' 999000000]))))
        [stamped_sample 999500000]) = None
   \<and> session_feed
        (snd (ingest_rssi example_clock
          (snd (stream_updates example_clock (snd (ingest_packets example_clock
             \<lparr> store = new_store 60 10, broadcast = BroadcastHub_init, ticks = 0 \<rparr>
             [stamped_packet ''A'' 999000000]))))
          [stamped_sample 999500000]))
        \<lparr>initial_messages = [packet_message (stamped_packet ''A'' 999000000)], queue = 0\<rparr>
       = [packet_message (stamped_packet ''A'' 999000000),
          \<lparr>event_type = EvRssi, payload = Some (RssiDump (stamped_sample 999500000))\<rparr>]"
proof -
  let ?bad = "\<lparr> store = (new_store 3600 100)\<lparr>packets := [epoch_packet 1000000000000]\<rparr>,
          broadcast = BroadcastHub_init, ticks = 1 \<rparr>"
  let ?app0 = "\<lparr> store = new_store 60 10, broadcast = BroadcastHub_init, ticks = 0 \<rparr>"
  let ?a = "stamped_packet ''A'' 999000000"
  let ?b = "stamped_packet ''B'' 999500000"
  let ?x = "stamped_sample 999500000"
  let ?appA = "snd (ingest_packets example_clock ?app0 [?a])"
  let ?s = "\<lparr>initial_messages = [packet_message ?a], queue = 0\<rparr>"
  let ?appS = "snd (stream_updates example_clock ?appA)"
  let ?appB = "snd (ingest_packets example_clock ?appS [?b])"
  let ?appX = "snd (ingest_rssi example_clock ?appS [?x])"
  have bad': "snapshot_stream_events example_clock
      ((new_store 3600 100)\<lparr>packets := [epoch_packet 1000000000000]\<rparr>) 1 = (Inl ValueError, 1)"
    by (simp add: store_defs example_defs snapshot_stream_events_def snapshot_entries_def)
  then have bad: "snapshot_stream_events example_clock (store ?bad) (ticks ?bad)
      = (Inl ValueError, 1)"
    by simp
  note t1 = snapshot_then_subscribe[of example_clock ?bad ?a ?x]
  note w = t1[THEN conjunct1, rule_format, OF bad]
  have w1: "fst (stream_updates example_clock ?bad) = Inl ValueError"
    using w by (rule conjunct1)
  have w2: "broadcast (snd (stream_updates example_clock ?bad)) = BroadcastHub_init"
    using w[THEN conjunct2, THEN conjunct1] by simp
  have ia: "ingest_packets example_clock ?app0 [?a]
      = (None, \<lparr> store = \<lparr> packets = [?a], rssi = [], last_seen_by_station = [(''A'', ?a)],
                          retention = 60000000, max_items = 10 \<rparr>,
                 broadcast = BroadcastHub_init, ticks = 1 \<rparr>)"
    by (simp add: store_defs example_defs publish_def BroadcastHub_init_def)
  have ia1: "fst (ingest_packets example_clock ?app0 [?a]) = None"
    and ia2: "packets (store ?appA) = [?a]"
    and st: "store ?appA = \<lparr> packets = [?a], rssi = [], last_seen_by_station = [(''A'', ?a)],
                          retention = 60000000, max_items = 10 \<rparr>"
    and tk: "ticks ?appA = 1"
    and bc: "broadcast ?appA = BroadcastHub_init"
    unfolding ia by simp_all
  have d: "distinct (listeners (broadcast ?appA))"
    unfolding bc by (simp add: BroadcastHub_init_def)
  have sn: "snapshot_stream_events example_clock (store ?appA) (ticks ?appA)
      = (Inr [packet_message ?a], 1)"
    unfolding st tk
    by (simp add: store_defs example_defs snapshot_stream_events_def snapshot_entries_def
        packet_message_def)
  note t0 = snapshot_then_subscribe[of example_clock ?app0 ?a ?x]
  note t2 = snapshot_then_subscribe[of example_clock ?appA ?b ?x]
  note r2 = t2[THEN conjunct2, THEN conjunct1, rule_format, OF sn]
  note r3 = t2[THEN conjunct2, THEN conjunct2, THEN conjunct1, rule_format]
  note r4 = t2[THEN conjunct2, THEN conjunct2, THEN conjunct2, THEN conjunct1, rule_format]
  note r5 = t2[THEN conjunct2, THEN conjunct2, THEN conjunct2, THEN conjunct2, THEN conjunct1,
      rule_format]
  note r6 = t0[THEN conjunct2, THEN conjunct2, THEN conjunct2, THEN conjunct2, THEN conjunct2,
      rule_format]
  have eq: "stream_updates example_clock ?appA = spec_stream_updates example_clock ?appA"
    using r2 by (rule conjunct1)
  have f': "fst (stream_updates example_clock ?appA) = Inr ?s"
    using r2[THEN conjunct2, THEN conjunct1] unfolding bc by (simp add: BroadcastHub_init_def)
  have su: "stream_updates example_clock ?appA = (Inr ?s, ?appS)"
    using f' by (simp add: prod_eq_iff)
  have feedS: "session_feed ?appS ?s = [packet_message ?a]"
    using r3[OF su] by simp
  have stS: "store ?appS = \<lparr> packets = [?a], rssi = [], last_seen_by_station = [(''A'', ?a)],
                          retention = 60000000, max_items = 10 \<rparr>"
    using r3[OF su, THEN conjunct1] unfolding st .
  have tkS: "ticks ?appS = 1"
    unfolding stream_updates_ticks sn by simp
  have ibs: "fst (ingest_packets example_clock ?appS [?b]) = None"
    by (rule ingest_packet_returns) (unfold stS tkS, simp add: store_defs example_defs)
  have ib: "ingest_packets example_clock ?appS [?b] = (None, ?appB)"
    using ibs by (simp add: prod_eq_iff)
  have feedB: "session_feed ?appB ?s = [packet_message ?a, packet_message ?b]"
    using r4[OF conjI[OF d conjI[OF su ib]]] by (simp add: packet_message_def)
  have ixs: "fst (ingest_rssi example_clock ?appS [?x]) = None"
    by (rule ingest_sample_returns) (unfold stS tkS, simp add: store_defs example_defs)
  have ix: "ingest_rssi example_clock ?appS [?x] = (None, ?appX)"
    using ixs by (simp add: prod_eq_iff)
  have feedX: "session_feed ?appX ?s
      = [packet_message ?a, \<lparr>event_type = EvRssi, payload = Some (RssiDump ?x)\<rparr>]"
    using r5[OF conjI[OF d conjI[OF su ix]]] by (simp add: packet_message_def)
  have ia': "ingest_packets example_clock ?app0 [?a] = (None, ?appA)"
    using ia1 by (simp add: prod_eq_iff)
  note in_replay = r6[OF conjI[OF ia' su], THEN conjunct2]
  show ?thesis
    using in_replay
    by (intro conjI) (rule bad' w1 w2 ia1 ia2 d f' eq feedS ibs feedB ixs feedX)+
qed

end
